theory Spec2Isabelle
  imports Complex_Main "HOL-Library.AList"
begin

section \<open>Python values and strings\<close>

text \<open>
  The analysis engine of \<^verbatim>\<open>analizador_datos.py\<close> is embedded function by function.
  A Python \<^verbatim>\<open>str\<close> is a \<^typ>\<open>string\<close>; a \<^typ>\<open>char\<close> stands for the code point of the
  same number, so the texts covered are those over the code points 0 to 255 (which hold
  every character of the keyword table of the header scorer, \<^verbatim>\<open>'a\<ntilde>o'\<close> included, written
  below with its code point 241).

  A cell is observed by the code through four operations only: \<^verbatim>\<open>c is None\<close>, the truth
  value \<^verbatim>\<open>if c\<close>, \<^verbatim>\<open>str(c)\<close> and \<^verbatim>\<open>type(c).__name__\<close>. A CSV cell is always a
  \<^verbatim>\<open>str\<close>; a spreadsheet or Parquet cell is any Python object, given here by its type
  name, its truth value and its \<^verbatim>\<open>str()\<close> rendering.
\<close>

datatype pyval = PyNone | PyStr string | PyObj string bool string

fun py_str :: "pyval \<Rightarrow> string" where
  "py_str PyNone = ''None''"
| "py_str (PyStr s) = s"
| "py_str (PyObj ty b s) = s"

fun truthy :: "pyval \<Rightarrow> bool" where
  "truthy PyNone = False"
| "truthy (PyStr s) = (s \<noteq> [])"
| "truthy (PyObj ty b s) = b"

fun type_name :: "pyval \<Rightarrow> string" where
  "type_name PyNone = ''NoneType''"
| "type_name (PyStr s) = ''str''"
| "type_name (PyObj ty b s) = ty"

definition code :: "char \<Rightarrow> nat" where
  "code c = of_char c"

text \<open>\<^verbatim>\<open>str.isspace\<close> on the code points below 256, the set \<^verbatim>\<open>str.strip()\<close> removes.\<close>

definition isspace :: "char \<Rightarrow> bool" where
  "isspace c = (code c \<in> set [9, 10, 11, 12, 13, 28, 29, 30, 31, 32, 133, 160])"

definition strip :: "string \<Rightarrow> string" where
  "strip s = rev (dropWhile isspace (rev (dropWhile isspace s)))"

text \<open>\<^verbatim>\<open>str.lower\<close>: A-Z and the upper-case letters 192-222 (not the sign 215) move up by 32.\<close>

definition lower_char :: "char \<Rightarrow> char" where
  "lower_char c =
     (if (65 \<le> code c \<and> code c \<le> 90) \<or> (192 \<le> code c \<and> code c \<le> 222 \<and> code c \<noteq> 215)
      then char_of (code c + 32) else c)"

definition lower :: "string \<Rightarrow> string" where
  "lower s = map lower_char s"

definition replace_char :: "char \<Rightarrow> char \<Rightarrow> string \<Rightarrow> string" where
  "replace_char a b s = map (\<lambda>c. if c = a then b else c) s"

definition remove_char :: "char \<Rightarrow> string \<Rightarrow> string" where
  "remove_char a s = filter (\<lambda>c. c \<noteq> a) s"

definition starts_with :: "string \<Rightarrow> string \<Rightarrow> bool" where
  "starts_with p s = (take (length p) s = p)"

text \<open>\<^verbatim>\<open>p in s\<close> for strings: \<open>p\<close> occurs in \<open>s\<close> as a contiguous run.\<close>

fun contains :: "string \<Rightarrow> string \<Rightarrow> bool" where
  "contains p [] = (p = [])"
| "contains p (c # cs) = (starts_with p (c # cs) \<or> contains p cs)"

definition isdigit :: "char \<Rightarrow> bool" where
  "isdigit c = (48 \<le> code c \<and> code c \<le> 57)"

definition isalpha_ascii :: "char \<Rightarrow> bool" where
  "isalpha_ascii c = ((65 \<le> code c \<and> code c \<le> 90) \<or> (97 \<le> code c \<and> code c \<le> 122))"

fun str_nat :: "nat \<Rightarrow> string" where
  "str_nat n = (if n < 10 then [char_of (48 + n)]
                else str_nat (n div 10) @ [char_of (48 + n mod 10)])"

declare str_nat.simps [simp del]

section \<open>The built-ins \<^verbatim>\<open>float()\<close> and \<^verbatim>\<open>int()\<close> on strings\<close>

text \<open>
  Both built-ins are used only inside \<^verbatim>\<open>try\<close> blocks, for whether they raise. CPython first
  maps every non-ASCII space to a blank and every other non-ASCII character that is no
  decimal digit (below 256, all of them) to \<^verbatim>\<open>?\<close>, then drops the ASCII white space at both
  ends, checks the underscores (only between two digits) and parses what is left.
\<close>

definition to_ascii :: "string \<Rightarrow> string" where
  "to_ascii s = map (\<lambda>c. if code c > 127 then (if isspace c then CHR '' '' else CHR ''?'') else c) s"

definition isspace_ascii :: "char \<Rightarrow> bool" where
  "isspace_ascii c = (code c \<in> set [9, 10, 11, 12, 13, 32])"

definition strip_ascii :: "string \<Rightarrow> string" where
  "strip_ascii s = rev (dropWhile isspace_ascii (rev (dropWhile isspace_ascii s)))"

text \<open>The scan of \<^verbatim>\<open>_Py_string_to_number_with_underscores\<close>: the text without its
  underscores, or \<open>None\<close> where an underscore does not stand between two digits.\<close>

fun drop_underscores :: "char \<Rightarrow> string \<Rightarrow> string option" where
  "drop_underscores prev [] = (if prev = CHR ''_'' then None else Some [])"
| "drop_underscores prev (c # cs) =
     (if c = CHR ''_'' then (if isdigit prev then drop_underscores c cs else None)
      else if prev = CHR ''_'' \<and> \<not> isdigit c then None
      else map_option ((#) c) (drop_underscores c cs))"

definition skip_sign :: "string \<Rightarrow> string" where
  "skip_sign s = (case s of [] \<Rightarrow> [] | c # cs \<Rightarrow> if c = CHR ''+'' \<or> c = CHR ''-'' then cs else s)"

definition lower_ascii :: "string \<Rightarrow> string" where
  "lower_ascii s = map (\<lambda>c. if 65 \<le> code c \<and> code c \<le> 90 then char_of (code c + 32) else c) s"

text \<open>A decimal literal after its sign: digits, an optional point and more digits, at
  least one digit in all, then an optional exponent with at least one digit.\<close>

definition exponent_ok :: "string \<Rightarrow> bool" where
  "exponent_ok r =
     (case r of [] \<Rightarrow> True
      | c # cs \<Rightarrow> (c = CHR ''e'' \<or> c = CHR ''E'') \<and> skip_sign cs \<noteq> [] \<and> list_all isdigit (skip_sign cs))"

definition decimal_ok :: "string \<Rightarrow> bool" where
  "decimal_ok s =
     (let ip = takeWhile isdigit s; r1 = dropWhile isdigit s;
          r2 = (case r1 of [] \<Rightarrow> [] | c # cs \<Rightarrow> if c = CHR ''.'' then cs else r1);
          fp = (if r2 = r1 then [] else takeWhile isdigit r2);
          r3 = (if r2 = r1 then r1 else dropWhile isdigit r2)
      in (ip \<noteq> [] \<or> fp \<noteq> []) \<and> exponent_ok r3)"

definition inf_or_nan :: "string \<Rightarrow> bool" where
  "inf_or_nan s = (lower_ascii s \<in> set [''inf'', ''infinity'', ''nan''])"

text \<open>\<open>float_ok s\<close>: \<^verbatim>\<open>float(s)\<close> returns (a value that is out of range becomes an infinity,
  it does not raise).\<close>

definition float_ok :: "string \<Rightarrow> bool" where
  "float_ok s =
     (case drop_underscores (CHR 0x00) (strip_ascii (to_ascii s)) of
        None \<Rightarrow> False
      | Some t \<Rightarrow> decimal_ok (skip_sign t) \<or> inf_or_nan (skip_sign t))"

text \<open>\<open>int_ok s\<close>: \<^verbatim>\<open>int(s)\<close> returns. The literal is a sign and digits, single underscores
  between digits; CPython refuses more than \<^verbatim>\<open>sys.int_info.default_max_str_digits\<close> digits.\<close>

definition max_str_digits :: nat where
  "max_str_digits = 4300"

definition int_ok :: "string \<Rightarrow> bool" where
  "int_ok s =
     (case drop_underscores (CHR 0x00) (skip_sign (strip_ascii (to_ascii s))) of
        None \<Rightarrow> False
      | Some t \<Rightarrow> t \<noteq> [] \<and> list_all isdigit t \<and> length t \<le> max_str_digits)"

section \<open>Python floats\<close>

text \<open>
  A finite \<^verbatim>\<open>float\<close> is the rational it denotes, and every operation rounds its exact
  result to the nearest double, ties to even (53 significant bits, least exponent
  \<open>-1074\<close>). Scores stay far below the overflow threshold, which is left out.
\<close>

text \<open>The number of binary digits of a positive integer.\<close>

function bitlen :: "int \<Rightarrow> int" where
  "bitlen n = (if n \<le> 0 then 0 else 1 + bitlen (n div 2))"
  by pat_completeness auto
termination
  by (relation "measure nat") auto

declare bitlen.simps [simp del]

definition pow2 :: "int \<Rightarrow> rat" where
  "pow2 k = (if 0 \<le> k then 2 ^ nat k else 1 / 2 ^ nat (- k))"

text \<open>For \<open>x > 0\<close>, the exponent \<open>e\<close> with \<open>2\<^sup>e \<le> x < 2\<^sup>e\<^sup>+\<^sup>1\<close>.\<close>

definition ilog2 :: "rat \<Rightarrow> int" where
  "ilog2 x =
     (let k = bitlen (fst (quotient_of x)) - bitlen (snd (quotient_of x))
      in if pow2 k \<le> x then k else k - 1)"

definition round_half_even :: "rat \<Rightarrow> int" where
  "round_half_even r =
     (let f = \<lfloor>r\<rfloor>; d = r - of_int f
      in if d < 1 / 2 then f else if 1 / 2 < d then f + 1 else if even f then f else f + 1)"

definition fl :: "rat \<Rightarrow> rat" where
  "fl x = (if x = 0 then 0
           else let k = max (ilog2 \<bar>x\<bar> - 52) (- 1074)
                in of_int (round_half_even (x / pow2 k)) * pow2 k)"

definition fadd :: "rat \<Rightarrow> rat \<Rightarrow> rat" where
  "fadd x y = fl (x + y)"

definition fsub :: "rat \<Rightarrow> rat \<Rightarrow> rat" where
  "fsub x y = fl (x - y)"

definition fdiv :: "rat \<Rightarrow> rat \<Rightarrow> rat" where
  "fdiv x y = fl (x / y)"

text \<open>The literals \<^verbatim>\<open>0.1\<close>, \<^verbatim>\<open>0.2\<close>, \<^verbatim>\<open>0.3\<close>; \<^verbatim>\<open>0.5\<close> is \<open>1 / 2\<close> exactly.\<close>

definition d01 :: rat where "d01 = fl (1 / 10)"
definition d02 :: rat where "d02 = fl (2 / 10)"
definition d03 :: rat where "d03 = fl (3 / 10)"

section \<open>Header detection\<close>

definition MAX_FILAS_BUSQUEDA_HEADER :: nat where
  "MAX_FILAS_BUSQUEDA_HEADER = 20"

definition MUESTRA_VALORES :: nat where
  "MUESTRA_VALORES = 5"

definition CHUNK_SIZE :: nat where
  "CHUNK_SIZE = 10000"

text \<open>The keyword table of \<^verbatim>\<open>_es_encabezado_valido\<close>. It is a Python set, tested only for
  whether some member occurs in the cell, so its order does not matter.\<close>

definition palabras_header :: "string list" where
  "palabras_header =
     [''id'', ''nombre'', ''name'', ''fecha'', ''date'', ''codigo'', ''code'', ''tipo'', ''type'',
      ''descripcion'', ''description'', ''cantidad'', ''amount'', ''total'', ''precio'', ''price'',
      ''estado'', ''status'', ''usuario'', ''user'', ''email'', ''telefono'', ''phone'',
      ''direccion'', ''address'', ''ciudad'', ''city'', ''pais'', ''country'', ''numero'', ''number'',
      ''clave'', ''key'', ''valor'', ''value'', ''categoria'', ''category'', ''producto'', ''product'',
      ''cliente'', ''customer'', ''orden'', ''order'', ''factura'', ''invoice'', ''cuenta'', ''account'',
      [CHR ''a'', CHR 0xF1, CHR ''o''], ''year'', ''mes'', ''month'', ''dia'', ''day'', ''hora'', ''time'',
      ''created'', ''updated'']"

text \<open>\<^verbatim>\<open>re.match(r'^[a-zA-Z][a-zA-Z0-9_]*$', s)\<close>: a letter, then letters, digits and
  underscores up to the end, where \<^verbatim>\<open>$\<close> also matches before one final newline.\<close>

definition ident_char :: "char \<Rightarrow> bool" where
  "ident_char c = (isalpha_ascii c \<or> isdigit c \<or> c = CHR ''_'')"

definition es_identificador :: "string \<Rightarrow> bool" where
  "es_identificador s =
     (case s of [] \<Rightarrow> False
      | c # cs \<Rightarrow> isalpha_ascii c \<and>
          (dropWhile ident_char cs = [] \<or> dropWhile ident_char cs = [CHR 0x0A]))"

text \<open>A cell the scoring loop skips: \<^verbatim>\<open>celda is None or str(celda).strip() == ''\<close>.\<close>

definition celda_vacia :: "pyval \<Rightarrow> bool" where
  "celda_vacia celda = (celda = PyNone \<or> strip (py_str celda) = [])"

text \<open>What the \<^verbatim>\<open>try\<close> of the scoring loop tests: \<^verbatim>\<open>float(celda_str.replace(',', '.'))\<close>
  on the trimmed, lower-cased cell returns.\<close>

definition celda_numerica :: "pyval \<Rightarrow> bool" where
  "celda_numerica celda = float_ok (replace_char (CHR '','') (CHR ''.'') (lower (strip (py_str celda))))"

text \<open>One turn of the loop \<^verbatim>\<open>for celda in fila\<close> on the pair (\<^verbatim>\<open>score\<close>, \<^verbatim>\<open>celdas_validas\<close>).\<close>

fun puntuar_celda :: "rat \<times> nat \<Rightarrow> pyval \<Rightarrow> rat \<times> nat" where
  "puntuar_celda (score, celdas_validas) celda =
     (if celda_vacia celda then (score, celdas_validas)
      else let celda_str = lower (strip (py_str celda)) in
        if celda_numerica celda then (fsub score d03, celdas_validas + 1)
        else
          let s1 = (if list_ex (\<lambda>palabra. contains palabra celda_str) palabras_header
                    then fadd score (1 / 2) else score);
              s2 = (if es_identificador celda_str then fadd s1 d03 else s1);
              s3 = (if 2 \<le> length celda_str \<and> length celda_str \<le> 50 then fadd s2 d02 else s2);
              s4 = (if 100 < length celda_str then fsub s3 (1 / 2) else s3)
          in (s4, celdas_validas + 1))"

text \<open>\<^verbatim>\<open>_es_encabezado_valido(fila, min_columnas)\<close>. The division of the score converts
  the count to a float; the ratio of two integers is their correctly rounded quotient.\<close>

definition es_encabezado_valido :: "pyval list \<Rightarrow> nat \<Rightarrow> bool \<times> rat" where
  "es_encabezado_valido fila min_columnas =
     (if fila = [] \<or> length (filter truthy fila) < min_columnas then (False, 0)
      else
        let num_celdas = length fila;
            (score, celdas_validas) = foldl puntuar_celda (0, 0) fila;
            score1 = (if celdas_validas > 0 then fdiv score (fl (of_nat celdas_validas)) else score);
            ratio_validas = (if num_celdas > 0 then fl (of_nat celdas_validas / of_nat num_celdas) else 0);
            score2 = (if ratio_validas < 1 / 2 then fsub score1 (1 / 2) else score1)
        in (d01 < score2, score2))"

text \<open>The cleaning of the chosen row: a blank cell becomes \<^verbatim>\<open>Col_{i+1}\<close>, any other its
  trimmed text.\<close>

definition limpiar_encabezados :: "pyval list \<Rightarrow> string list" where
  "limpiar_encabezados fila =
     map (\<lambda>(i, h). if celda_vacia h then ''Col_'' @ str_nat (i + 1) else strip (py_str h))
         (enumerate 0 fila)"

text \<open>One turn of the search loop on (\<^verbatim>\<open>mejor_score\<close>, \<^verbatim>\<open>mejor_idx\<close>, \<^verbatim>\<open>mejor_fila\<close>).\<close>

fun paso_busqueda :: "rat \<times> nat \<times> pyval list \<Rightarrow> nat \<times> pyval list \<Rightarrow> rat \<times> nat \<times> pyval list" where
  "paso_busqueda (mejor_score, mejor_idx, mejor_fila) (idx, fila) =
     (let (es_header, score) = es_encabezado_valido fila 2
      in if es_header \<and> mejor_score < score then (score, idx, fila)
         else (mejor_score, mejor_idx, mejor_fila))"

text \<open>\<^verbatim>\<open>_buscar_fila_encabezado(filas)\<close>, with no progress callback (its default).\<close>

definition buscar_fila_encabezado :: "pyval list list \<Rightarrow> nat \<times> string list" where
  "buscar_fila_encabezado filas =
     (let (mejor_score, mejor_idx, mejor_fila) =
            foldl paso_busqueda (- 1, 0, []) (enumerate 0 (take MAX_FILAS_BUSQUEDA_HEADER filas));
          (mejor_idx', mejor_fila') =
            (if mejor_fila = [] \<and> filas \<noteq> [] then (0, hd filas) else (mejor_idx, mejor_fila))
      in (mejor_idx', limpiar_encabezados mejor_fila'))"

section \<open>Type inference\<close>

text \<open>\<^verbatim>\<open>str.isdigit\<close> below 256: the ten digits and the superscripts 178, 179 and 185.\<close>

definition py_isdigit :: "char \<Rightarrow> bool" where
  "py_isdigit c = (isdigit c \<or> code c \<in> set [178, 179, 185])"

text \<open>\<^verbatim>\<open>_detectar_tipo(valor_str)\<close>: each \<^verbatim>\<open>try\<close> falls through when the built-in raises.\<close>

definition detectar_tipo :: "string \<Rightarrow> string" where
  "detectar_tipo valor_str =
     (if valor_str = [] \<or> strip valor_str = [] then ''texto''
      else if int_ok (strip (remove_char (CHR ''.'') (remove_char (CHR '','') valor_str))) then
        (if CHR ''.'' \<in> set valor_str \<or> CHR '','' \<in> set valor_str then ''decimal'' else ''entero'')
      else if float_ok (strip (replace_char (CHR '','') (CHR ''.'') valor_str)) then ''decimal''
      else if (CHR ''/'' \<in> set valor_str \<or> CHR ''-'' \<in> set valor_str) \<and> length valor_str \<le> 20
              \<and> list_ex py_isdigit valor_str then ''fecha''
      else ''texto'')"

text \<open>\<^verbatim>\<open>_detectar_tipo_valor(valor)\<close>, by the name of the value's type.\<close>

definition detectar_tipo_valor :: "pyval \<Rightarrow> string" where
  "detectar_tipo_valor valor =
     (if valor = PyNone then ''texto''
      else if type_name valor \<in> set [''int'', ''int64'', ''int32''] then ''entero''
      else if type_name valor \<in> set [''float'', ''float64'', ''float32''] then ''decimal''
      else if type_name valor = ''datetime'' then ''fecha''
      else if type_name valor = ''bool'' then ''booleano''
      else ''texto'')"

text \<open>\<^verbatim>\<open>_traducir_tipo_arrow(tipo_arrow)\<close>.\<close>

definition traducir_tipo_arrow :: "string \<Rightarrow> string" where
  "traducir_tipo_arrow tipo_arrow =
     (let tipo_lower = lower tipo_arrow in
      if contains ''int'' tipo_lower then ''entero''
      else if contains ''float'' tipo_lower \<or> contains ''double'' tipo_lower then ''decimal''
      else if contains ''timestamp'' tipo_lower \<or> contains ''date'' tipo_lower then ''fecha''
      else if contains ''bool'' tipo_lower then ''booleano''
      else if contains ''string'' tipo_lower \<or> contains ''utf8'' tipo_lower then ''texto''
      else tipo_arrow)"

section \<open>Results, exceptions and iterators\<close>

text \<open>
  An exception is a \<^verbatim>\<open>KeyError\<close> of a dictionary lookup or any other \<^verbatim>\<open>Exception\<close> raised
  by the file system or a decoding library, with its message. The \<^verbatim>\<open>error\<close> entry of a
  result holds the exception whose \<^verbatim>\<open>str(e)\<close> the code stores.

  A dictionary keeps its keys in insertion order and is an association list; a missing
  key of a result dictionary (\<^verbatim>\<open>fila_encabezado\<close>, \<^verbatim>\<open>error\<close>) is \<open>None\<close>. A sample set is
  a set: the order in which \<^verbatim>\<open>list(v)\<close> lists it is not fixed by the language.
\<close>

datatype exn = KeyError string | Fallo string

record tabla =
  columnas :: "string list"
  total_filas :: nat
  muestra_valores :: "(string \<times> string set) list"
  tipos_detectados :: "(string \<times> string) list"
  fila_encabezado :: "nat option"

record hoja_info = tabla +
  nombre :: string

record resultado = tabla +
  tipo :: string
  ruta :: string
  tamano_bytes :: nat
  error :: "exn option"

record resultado_excel =
  ruta_excel :: string
  hojas :: "hoja_info list"
  tamano_bytes_excel :: nat
  error_excel :: "exn option"

text \<open>What an iterator does when it is advanced: it ends, it raises, or it yields an
  item and goes on.\<close>

datatype 'a flujo = Fin | Falla exn | Item 'a "'a flujo"

fun de_lista :: "'a list \<Rightarrow> 'a flujo \<Rightarrow> 'a flujo" where
  "de_lista [] fin = fin"
| "de_lista (x # xs) fin = Item x (de_lista xs fin)"

text \<open>A \<^verbatim>\<open>for\<close> loop over a list whose body may raise: the state reached, and the
  exception that ended the loop early, if any.\<close>

fun iterar :: "('s \<Rightarrow> 'a \<Rightarrow> 's \<times> exn option) \<Rightarrow> 's \<Rightarrow> 'a list \<Rightarrow> 's \<times> exn option" where
  "iterar f s [] = (s, None)"
| "iterar f s (x # xs) =
     (case f s x of (s', None) \<Rightarrow> iterar f s' xs | (s', Some e) \<Rightarrow> (s', Some e))"

text \<open>\<^verbatim>\<open>{col: v for col in headers}\<close>, and the same built by a loop of assignments.\<close>

definition dict_de :: "string list \<Rightarrow> 'v \<Rightarrow> (string \<times> 'v) list" where
  "dict_de headers v = foldl (\<lambda>d col. AList.update col v d) [] headers"

section \<open>The CSV analyzer\<close>

text \<open>The running state of one table: the result dictionary, mutated in place, and
  \<^verbatim>\<open>valores_unicos\<close>.\<close>

type_synonym 'a estado = "'a tabla_scheme \<times> (string \<times> string set) list"

text \<open>The body of the loop of \<^verbatim>\<open>_procesar_fila_datos\<close> for the cell \<open>val\<close> at position \<open>i\<close>
  of data row number \<open>fila_num\<close>.\<close>

definition procesar_celda :: "string list \<Rightarrow> nat \<Rightarrow> 'a estado \<Rightarrow> nat \<times> pyval \<Rightarrow> 'a estado \<times> exn option" where
  "procesar_celda headers fila_num st iv =
     (case (st, iv) of ((res, valores_unicos), (i, val)) \<Rightarrow>
      if i < length headers then
        let col = headers ! i in
        if truthy val \<and> strip (py_str val) \<noteq> [] then
          (case map_of valores_unicos col of
             None \<Rightarrow> (st, Some (KeyError col))
           | Some vistos \<Rightarrow>
               let valores_unicos1 =
                     (if card vistos < MUESTRA_VALORES
                      then AList.update col (insert (take 50 (py_str val)) vistos) valores_unicos
                      else valores_unicos)
               in if fila_num \<le> 1000 then
                    (case map_of (tipos_detectados res) col of
                       None \<Rightarrow> ((res, valores_unicos1), Some (KeyError col))
                     | Some actual \<Rightarrow>
                         if actual = ''texto'' \<and> detectar_tipo (py_str val) \<noteq> ''texto''
                         then ((res\<lparr>tipos_detectados :=
                                      AList.update col (detectar_tipo (py_str val)) (tipos_detectados res)\<rparr>,
                                valores_unicos1), None)
                         else ((res, valores_unicos1), None))
                  else ((res, valores_unicos1), None))
        else (st, None)
      else (st, None))"

definition procesar_fila_datos :: "pyval list \<Rightarrow> string list \<Rightarrow> 'a estado \<Rightarrow> nat \<Rightarrow> 'a estado \<times> exn option" where
  "procesar_fila_datos row headers st fila_num =
     iterar (procesar_celda headers fila_num) st (enumerate 0 row)"

text \<open>
  A CSV file as \<^verbatim>\<open>analizar_csv\<close> meets it: what \<^verbatim>\<open>os.path.getsize\<close> returns or raises,
  whether opening the file and reading the 8 KB sample raise, and the rows that the
  \<^verbatim>\<open>csv.reader\<close> built on it yields (with the delimiter that was sniffed, or the default
  one), ending normally or with an exception. No progress callback is passed.
\<close>

record archivo_csv =
  csv_ruta :: string
  csv_getsize :: "exn + nat"
  csv_abrir :: "exn option"
  csv_reader :: "string list flujo"

text \<open>The first loop: rows are appended until the one with index 20 has been.\<close>

fun leer_primeras :: "nat \<Rightarrow> 'a list \<Rightarrow> 'a flujo \<Rightarrow> exn + ('a list \<times> 'a flujo)" where
  "leer_primeras i primeras_filas Fin = Inr (primeras_filas, Fin)"
| "leer_primeras i primeras_filas (Falla e) = Inl e"
| "leer_primeras i primeras_filas (Item row reader) =
     (if i \<ge> MAX_FILAS_BUSQUEDA_HEADER then Inr (primeras_filas @ [row], reader)
      else leer_primeras (i + 1) (primeras_filas @ [row]) reader)"

text \<open>The replay of the buffered rows, on the state and \<^verbatim>\<open>filas_leidas\<close>.\<close>

fun procesar_primeras :: "string list \<Rightarrow> 'a estado \<times> nat \<Rightarrow> pyval list list \<Rightarrow> ('a estado \<times> nat) \<times> exn option" where
  "procesar_primeras headers (st, filas_leidas) [] = ((st, filas_leidas), None)"
| "procesar_primeras headers (st, filas_leidas) (row # rows) =
     (case procesar_fila_datos row headers st (filas_leidas + 1) of
        (st', Some e) \<Rightarrow> ((st', filas_leidas + 1), Some e)
      | (st', None) \<Rightarrow> procesar_primeras headers (st', filas_leidas + 1) rows)"

text \<open>The streaming loop \<^verbatim>\<open>for row in reader\<close>.\<close>

fun procesar_resto :: "string list \<Rightarrow> 'a estado \<times> nat \<Rightarrow> string list flujo \<Rightarrow> ('a estado \<times> nat) \<times> exn option" where
  "procesar_resto headers (st, filas_leidas) Fin = ((st, filas_leidas), None)"
| "procesar_resto headers (st, filas_leidas) (Falla e) = ((st, filas_leidas), Some e)"
| "procesar_resto headers (st, filas_leidas) (Item row reader) =
     (case procesar_fila_datos (map PyStr row) headers st (filas_leidas + 1) of
        (st', Some e) \<Rightarrow> ((st', filas_leidas + 1), Some e)
      | (st', None) \<Rightarrow> procesar_resto headers (st', filas_leidas + 1) reader)"

text \<open>\<^verbatim>\<open>analizar_csv(ruta)\<close>: \<open>Inl\<close> is an exception that leaves the function (only
  \<^verbatim>\<open>os.path.getsize\<close> runs outside the \<^verbatim>\<open>try\<close>), \<open>Inr\<close> the dictionary returned.\<close>

definition analizar_csv :: "archivo_csv \<Rightarrow> exn + resultado" where
  "analizar_csv a =
     (case csv_getsize a of
        Inl e \<Rightarrow> Inl e
      | Inr tam \<Rightarrow>
          let resultado = \<lparr>columnas = [], total_filas = 0, muestra_valores = [],
                             tipos_detectados = [], fila_encabezado = Some 1,
                             tipo = ''CSV'', ruta = csv_ruta a, tamano_bytes = tam, error = None\<rparr>
          in Inr
            (case csv_abrir a of
               Some e \<Rightarrow> resultado\<lparr>error := Some e\<rparr>
             | None \<Rightarrow>
                (case leer_primeras 0 [] (csv_reader a) of
                   Inl e \<Rightarrow> resultado\<lparr>error := Some e\<rparr>
                 | Inr (primeras_filas, reader) \<Rightarrow>
                     if primeras_filas = [] then resultado
                     else
                       let (idx_header, headers) = buscar_fila_encabezado (map (map PyStr) primeras_filas);
                           resultado1 = resultado\<lparr>fila_encabezado := Some (idx_header + 1),
                                                   columnas := headers,
                                                   tipos_detectados := dict_de headers ''texto''\<rparr>;
                           valores_unicos = dict_de headers {}
                       in (case procesar_primeras headers ((resultado1, valores_unicos), 0)
                                  (map (map PyStr) (drop (idx_header + 1) primeras_filas)) of
                             (((resultado2, _), _), Some e) \<Rightarrow> resultado2\<lparr>error := Some e\<rparr>
                           | (st2, None) \<Rightarrow>
                               (case procesar_resto headers st2 reader of
                                  (((resultado3, _), _), Some e) \<Rightarrow> resultado3\<lparr>error := Some e\<rparr>
                                | (((resultado3, valores_unicos3), filas_leidas), None) \<Rightarrow>
                                    resultado3\<lparr>total_filas := filas_leidas,
                                               muestra_valores := valores_unicos3\<rparr>)))))"

section \<open>The spreadsheet analyzer\<close>

text \<open>The three shapes of dictionary that an analyzer returns: the flat one of a CSV or
  Parquet file, the one of a workbook with its sheets, and the bare pair of a path and an
  error.\<close>

datatype informe = Tabular resultado | Libro resultado_excel | SoloError string exn

text \<open>The inlined cell loop of \<^verbatim>\<open>analizar_excel\<close>: it tests \<^verbatim>\<open>val is not None\<close> and classifies
  with \<^verbatim>\<open>_detectar_tipo_valor\<close>.\<close>

definition procesar_celda_excel :: "string list \<Rightarrow> nat \<Rightarrow> 'a estado \<Rightarrow> nat \<times> pyval \<Rightarrow> 'a estado \<times> exn option" where
  "procesar_celda_excel headers filas_datos st iv =
     (case (st, iv) of ((hoja, valores_unicos), (i, val)) \<Rightarrow>
      if i < length headers then
        let col = headers ! i in
        if val \<noteq> PyNone then
          (case map_of valores_unicos col of
             None \<Rightarrow> (st, Some (KeyError col))
           | Some vistos \<Rightarrow>
               let valores_unicos1 =
                     (if card vistos < MUESTRA_VALORES
                      then AList.update col (insert (take 50 (py_str val)) vistos) valores_unicos
                      else valores_unicos)
               in if filas_datos \<le> 1000 then
                    (case map_of (tipos_detectados hoja) col of
                       None \<Rightarrow> ((hoja, valores_unicos1), Some (KeyError col))
                     | Some actual \<Rightarrow>
                         if actual = ''texto'' \<and> detectar_tipo_valor val \<noteq> ''texto''
                         then ((hoja\<lparr>tipos_detectados :=
                                       AList.update col (detectar_tipo_valor val) (tipos_detectados hoja)\<rparr>,
                                valores_unicos1), None)
                         else ((hoja, valores_unicos1), None))
                  else ((hoja, valores_unicos1), None))
        else (st, None)
      else (st, None))"

fun procesar_filas_excel :: "string list \<Rightarrow> 'a estado \<times> nat \<Rightarrow> pyval list list \<Rightarrow> ('a estado \<times> nat) \<times> exn option" where
  "procesar_filas_excel headers (st, filas_datos) [] = ((st, filas_datos), None)"
| "procesar_filas_excel headers (st, filas_datos) (row # rows) =
     (case iterar (procesar_celda_excel headers (filas_datos + 1)) st (enumerate 0 row) of
        (st', Some e) \<Rightarrow> ((st', filas_datos + 1), Some e)
      | (st', None) \<Rightarrow> procesar_filas_excel headers (st', filas_datos + 1) rows)"

text \<open>The loop over \<^verbatim>\<open>ws.iter_rows\<close>, which buffers every row of the sheet.\<close>

fun leer_todas :: "'a list \<Rightarrow> 'a flujo \<Rightarrow> exn + 'a list" where
  "leer_todas todas_filas Fin = Inr todas_filas"
| "leer_todas todas_filas (Falla e) = Inl e"
| "leer_todas todas_filas (Item row rows) = leer_todas (todas_filas @ [row]) rows"

text \<open>The body of the loop over the sheets: the \<^verbatim>\<open>hoja_info\<close> that is appended, or the
  exception that ends the loop.\<close>

definition analizar_hoja :: "string \<times> pyval list flujo \<Rightarrow> exn + hoja_info" where
  "analizar_hoja h =
     (case h of (nombre_hoja, ws) \<Rightarrow>
      let hoja_info = \<lparr>columnas = [], total_filas = 0, muestra_valores = [],
                         tipos_detectados = [], fila_encabezado = Some 1, nombre = nombre_hoja\<rparr>
      in case leer_todas [] ws of
           Inl e \<Rightarrow> Inl e
         | Inr todas_filas \<Rightarrow>
             let primeras_filas = take MAX_FILAS_BUSQUEDA_HEADER todas_filas in
             if primeras_filas = [] then Inr hoja_info
             else
               let (idx_header, headers) = buscar_fila_encabezado primeras_filas;
                   hoja_info1 = hoja_info\<lparr>fila_encabezado := Some (idx_header + 1),
                                           columnas := headers,
                                           tipos_detectados := dict_de headers ''texto''\<rparr>;
                   valores_unicos = dict_de headers {}
               in (case procesar_filas_excel headers ((hoja_info1, valores_unicos), 0)
                          (drop (idx_header + 1) todas_filas) of
                     (_, Some e) \<Rightarrow> Inl e
                   | (((hoja_info2, valores_unicos2), filas_datos), None) \<Rightarrow>
                       Inr (hoja_info2\<lparr>total_filas := filas_datos,
                                       muestra_valores := valores_unicos2\<rparr>)))"

text \<open>A workbook as \<^verbatim>\<open>analizar_excel\<close> meets it: whether \<^verbatim>\<open>openpyxl\<close> can be imported,
  the outcome of \<^verbatim>\<open>os.path.getsize\<close>, of \<^verbatim>\<open>load_workbook\<close> and of \<^verbatim>\<open>wb.close()\<close>, and each
  sheet in workbook order with the rows that \<^verbatim>\<open>iter_rows\<close> yields.\<close>

record archivo_excel =
  xl_ruta :: string
  xl_openpyxl :: bool
  xl_getsize :: "exn + nat"
  xl_load :: "exn option"
  xl_hojas :: "(string \<times> pyval list flujo) list"
  xl_close :: "exn option"

definition paso_hoja :: "resultado_excel \<Rightarrow> string \<times> pyval list flujo \<Rightarrow> resultado_excel \<times> exn option" where
  "paso_hoja resultado h =
     (case analizar_hoja h of
        Inl e \<Rightarrow> (resultado, Some e)
      | Inr hoja_info \<Rightarrow> (resultado\<lparr>hojas := hojas resultado @ [hoja_info]\<rparr>, None))"

definition analizar_excel :: "archivo_excel \<Rightarrow> exn + informe" where
  "analizar_excel a =
     (if \<not> xl_openpyxl a
      then Inr (SoloError (xl_ruta a) (Fallo ''Instala openpyxl: pip install openpyxl''))
      else case xl_getsize a of
        Inl e \<Rightarrow> Inl e
      | Inr tam \<Rightarrow>
          let resultado = \<lparr>ruta_excel = xl_ruta a, hojas = [], tamano_bytes_excel = tam,
                             error_excel = None\<rparr>
          in Inr (Libro
            (case xl_load a of
               Some e \<Rightarrow> resultado\<lparr>error_excel := Some e\<rparr>
             | None \<Rightarrow>
                (case iterar paso_hoja resultado (xl_hojas a) of
                   (resultado1, Some e) \<Rightarrow> resultado1\<lparr>error_excel := Some e\<rparr>
                 | (resultado1, None) \<Rightarrow>
                     (case xl_close a of
                        Some e \<Rightarrow> resultado1\<lparr>error_excel := Some e\<rparr>
                      | None \<Rightarrow> resultado1)))))"

section \<open>The Parquet analyzer\<close>

text \<open>
  A record batch is seen through \<^verbatim>\<open>batch.column(batch.schema.get_field_index(col_name))\<close>,
  which raises or gives a column; each element of a column is the outcome of its
  \<^verbatim>\<open>.as_py()\<close>. A Parquet file is what \<^verbatim>\<open>pyarrow\<close> reports of it: the row count and the
  schema of the footer (field names with \<^verbatim>\<open>str(field.type)\<close>) and, for a batch size, the
  batches that \<^verbatim>\<open>iter_batches\<close> yields.
\<close>

type_synonym columna = "(exn + pyval) list"

type_synonym lote = "string \<Rightarrow> exn + columna"

record archivo_parquet =
  pq_ruta :: string
  pq_pyarrow :: bool
  pq_getsize :: "exn + nat"
  pq_abrir :: "exn option"
  pq_num_rows :: nat
  pq_schema :: "(string \<times> string) list"
  pq_iter_batches :: "nat \<Rightarrow> lote flujo"

text \<open>The loop \<^verbatim>\<open>for i in range(min(len(column), MUESTRA_VALORES * 2))\<close> on the elements
  it visits.\<close>

fun muestrear_valores :: "string \<Rightarrow> (string \<times> string set) list \<Rightarrow> columna \<Rightarrow> (string \<times> string set) list \<times> exn option" where
  "muestrear_valores col_name valores_unicos [] = (valores_unicos, None)"
| "muestrear_valores col_name valores_unicos (x # xs) =
     (case map_of valores_unicos col_name of
        None \<Rightarrow> (valores_unicos, Some (KeyError col_name))
      | Some vistos \<Rightarrow>
          if card vistos \<ge> MUESTRA_VALORES then (valores_unicos, None)
          else (case x of
                  Inl e \<Rightarrow> (valores_unicos, Some e)
                | Inr val \<Rightarrow>
                    if val \<noteq> PyNone
                    then muestrear_valores col_name
                           (AList.update col_name (insert (take 50 (py_str val)) vistos) valores_unicos) xs
                    else muestrear_valores col_name valores_unicos xs))"

text \<open>The body of \<^verbatim>\<open>for col_name in resultado['columnas']\<close>; the inner \<^verbatim>\<open>try\<close> turns every
  exception of the column into \<^verbatim>\<open>continue\<close>.\<close>

definition muestrear_columna :: "lote \<Rightarrow> (string \<times> string set) list \<Rightarrow> string \<Rightarrow> (string \<times> string set) list \<times> exn option" where
  "muestrear_columna batch valores_unicos col_name =
     (case map_of valores_unicos col_name of
        None \<Rightarrow> (valores_unicos, Some (KeyError col_name))
      | Some vistos \<Rightarrow>
          if card vistos \<ge> MUESTRA_VALORES then (valores_unicos, None)
          else (case batch col_name of
                  Inl e \<Rightarrow> (valores_unicos, None)
                | Inr column \<Rightarrow>
                    (fst (muestrear_valores col_name valores_unicos
                            (take (min (length column) (MUESTRA_VALORES * 2)) column)), None)))"

text \<open>The sampling \<^verbatim>\<open>try\<close>: only the first batch is used (\<^verbatim>\<open>break\<close>), and an exception is
  swallowed with what was sampled so far.\<close>

definition muestrear :: "lote flujo \<Rightarrow> string list \<Rightarrow> (string \<times> string set) list \<Rightarrow> (string \<times> string set) list" where
  "muestrear batches cols valores_unicos =
     (case batches of
        Fin \<Rightarrow> valores_unicos
      | Falla e \<Rightarrow> valores_unicos
      | Item batch _ \<Rightarrow> fst (iterar (muestrear_columna batch) valores_unicos cols))"

definition analizar_parquet :: "archivo_parquet \<Rightarrow> exn + informe" where
  "analizar_parquet a =
     (if \<not> pq_pyarrow a
      then Inr (SoloError (pq_ruta a) (Fallo ''Instala pyarrow: pip install pyarrow''))
      else case pq_getsize a of
        Inl e \<Rightarrow> Inl e
      | Inr tam \<Rightarrow>
          let resultado = \<lparr>columnas = [], total_filas = 0, muestra_valores = [],
                             tipos_detectados = [], fila_encabezado = None,
                             tipo = ''Parquet'', ruta = pq_ruta a, tamano_bytes = tam, error = None\<rparr>
          in Inr (Tabular
            (case pq_abrir a of
               Some e \<Rightarrow> resultado\<lparr>error := Some e\<rparr>
             | None \<Rightarrow>
                 let resultado1 = resultado\<lparr>total_filas := pq_num_rows a,
                                            columnas := map fst (pq_schema a),
                                            tipos_detectados :=
                                              foldl (\<lambda>d (name, ty). AList.update name (traducir_tipo_arrow ty) d)
                                                    [] (pq_schema a)\<rparr>;
                     valores_unicos = dict_de (columnas resultado1) {}
                 in resultado1\<lparr>muestra_valores :=
                      muestrear (pq_iter_batches a (min 1000 CHUNK_SIZE)) (columnas resultado1) valores_unicos\<rparr>)))"

section \<open>The batch loop\<close>

text \<open>A data file found by the directory walk; the constructor is the branch that the
  test of its extension takes.\<close>

datatype archivo = ArchivoCSV archivo_csv | ArchivoExcel archivo_excel | ArchivoParquet archivo_parquet

fun ruta_de :: "archivo \<Rightarrow> string" where
  "ruta_de (ArchivoCSV a) = csv_ruta a"
| "ruta_de (ArchivoExcel a) = xl_ruta a"
| "ruta_de (ArchivoParquet a) = pq_ruta a"

fun analizar_archivo :: "archivo \<Rightarrow> exn + informe" where
  "analizar_archivo (ArchivoCSV a) = map_sum id Tabular (analizar_csv a)"
| "analizar_archivo (ArchivoExcel a) = analizar_excel a"
| "analizar_archivo (ArchivoParquet a) = analizar_parquet a"

text \<open>The loop \<^verbatim>\<open>for i, ruta in enumerate(archivos_encontrados)\<close> of
  \<^verbatim>\<open>generar_reporte_datos\<close>, on the list \<^verbatim>\<open>resultados\<close>.\<close>

definition paso_archivo :: "informe list \<Rightarrow> archivo \<Rightarrow> informe list" where
  "paso_archivo resultados a =
     (case analizar_archivo a of
        Inr resultado \<Rightarrow> resultados @ [resultado]
      | Inl e \<Rightarrow> resultados @ [SoloError (ruta_de a) e])"

definition analizar_archivos :: "archivo list \<Rightarrow> informe list" where
  "analizar_archivos archivos_encontrados = foldl paso_archivo [] archivos_encontrados"

section \<open>The properties checked\<close>

subsection \<open>Parquet type mapping, as the specification words it\<close>

text \<open>The rules in the order the specification lists them: the first rule one of whose
  substrings occurs in the type name gives the category; a name that no rule matches is
  returned as it is.\<close>

definition reglas_arrow :: "(string list \<times> string) list" where
  "reglas_arrow =
     [([''int''], ''entero''), ([''float'', ''double''], ''decimal''),
      ([''timestamp'', ''date''], ''fecha''), ([''bool''], ''booleano''),
      ([''string'', ''utf8''], ''texto'')]"

definition categoria_arrow_spec :: "string \<Rightarrow> string" where
  "categoria_arrow_spec nombre_tipo =
     (case find (\<lambda>(subs, cat). list_ex (\<lambda>s. contains s (lower nombre_tipo)) subs) reglas_arrow of
        Some (subs, cat) \<Rightarrow> cat
      | None \<Rightarrow> nombre_tipo)"

subsection \<open>Sample files\<close>

definition lote_ejemplo :: lote where
  "lote_ejemplo col_name =
     (if col_name = ''nombre''
      then Inr (map Inr [PyStr ''Ana'', PyNone, PyStr [], PyStr ''Ana'', PyStr ''Luis'', PyStr ''Eva'',
                         PyStr ''Noa'', PyStr ''Leo'', PyStr ''Paz'', PyStr ''Sol'', PyStr ''Rut''])
      else if col_name = ''n'' then Inr (map Inr [PyObj ''int'' True ''7'', PyObj ''int'' False ''0''])
      else Inl (Fallo ''columna ilegible''))"

definition parquet_ejemplo :: archivo_parquet where
  "parquet_ejemplo =
     \<lparr>pq_ruta = ''datos.parquet'', pq_pyarrow = True, pq_getsize = Inr 4096, pq_abrir = None,
      pq_num_rows = 1000000,
      pq_schema = [(''nombre'', ''string''), (''n'', ''int64''), (''blob'', ''binary'')],
      pq_iter_batches = (\<lambda>n. Item lote_ejemplo (Falla (Fallo ''lote ilegible'')))\<rparr>"

definition resultado_parquet_ejemplo :: resultado where
  "resultado_parquet_ejemplo =
     \<lparr>columnas = [''nombre'', ''n'', ''blob''], total_filas = 1000000,
      muestra_valores = [(''nombre'', {''Noa'', ''Eva'', ''Luis'', [], ''Ana''}),
                         (''n'', {''0'', ''7''}), (''blob'', {})],
      tipos_detectados = [(''nombre'', ''texto''), (''n'', ''entero''), (''blob'', ''binary'')],
      fila_encabezado = None, tipo = ''Parquet'', ruta = ''datos.parquet'',
      tamano_bytes = 4096, error = None\<rparr>"

subsection \<open>What the Parquet sampling can see\<close>

text \<open>Of the batches, the first one only, and of each of its columns the first
  \<open>2 * MUESTRA_VALORES\<close> elements.\<close>

fun recortar :: "lote flujo \<Rightarrow> lote flujo" where
  "recortar Fin = Fin"
| "recortar (Falla e) = Falla e"
| "recortar (Item batch batches) =
     Item (\<lambda>col_name. map_sum id (take (MUESTRA_VALORES * 2)) (batch col_name)) Fin"

definition parquet_recortado :: "nat \<Rightarrow> lote flujo" where
  "parquet_recortado n = Item (\<lambda>col_name. map_sum id (take 10) (lote_ejemplo col_name)) Fin"

subsection \<open>Header scoring and selection\<close>

text \<open>A cell that is neither null nor the empty string.\<close>

definition no_vacia :: "pyval \<Rightarrow> bool" where
  "no_vacia c = (c \<noteq> PyNone \<and> c \<noteq> PyStr [])"

text \<open>The two components of the scorer's answer for a candidate row.\<close>

definition elegible :: "pyval list \<Rightarrow> bool" where
  "elegible fila = fst (es_encabezado_valido fila 2)"

definition puntaje :: "pyval list \<Rightarrow> rat" where
  "puntaje fila = snd (es_encabezado_valido fila 2)"

definition filas_empate :: "pyval list list" where
  "filas_empate =
     map (map PyStr) [[''Report 2024''], [''id'', ''name''], [''1'', ''2''], [''code'', ''type'']]"

definition filas_sin_encabezado :: "pyval list list" where
  "filas_sin_encabezado = map (map PyStr) [[''1'', ''2''], [''3'', ''4,5'']]"

definition fila_titulo :: "pyval list" where
  "fila_titulo = [PyStr ''Report 2024'', PyNone, PyStr []]"

definition fila_numerica :: "pyval list" where
  "fila_numerica = [PyStr ''1'', PyStr ''  '', PyStr ''2,5'', PyObj ''float'' True ''1e3'', PyNone]"

text \<open>Two rows with a cell of blanks: one with a single cell that the scoring loop
  scores, one with none.\<close>

definition fila_con_blanco :: "pyval list" where
  "fila_con_blanco = [PyStr ''id'', PyStr '' '']"

definition fila_en_blanco :: "pyval list" where
  "fila_en_blanco = [PyStr '' '', PyStr '' '']"

subsection \<open>Columns of a table\<close>

text \<open>What one visited value does to the sample set and to the recorded type of its
  column.\<close>

definition paso_muestra :: "string set \<Rightarrow> string \<Rightarrow> string set" where
  "paso_muestra vistos x = (if card vistos < MUESTRA_VALORES then insert x vistos else vistos)"

definition paso_tipo :: "string \<Rightarrow> string \<Rightarrow> string" where
  "paso_tipo actual t = (if actual = ''texto'' \<and> t \<noteq> ''texto'' then t else actual)"

text \<open>The guard of the CSV cell loop: \<^verbatim>\<open>val and str(val).strip()\<close>.\<close>

definition muestreable_csv :: "pyval \<Rightarrow> bool" where
  "muestreable_csv val = (truthy val \<and> strip (py_str val) \<noteq> [])"

text \<open>The effect of the cell \<open>val\<close> at position \<open>i\<close> of data row number \<open>n\<close> on the sample
  set and the type of the column \<open>col\<close>, for a guard \<open>ok\<close> and a classifier \<open>det\<close>.\<close>

definition efecto_celda :: "(pyval \<Rightarrow> bool) \<Rightarrow> (pyval \<Rightarrow> string) \<Rightarrow> string list \<Rightarrow> nat \<Rightarrow> string
    \<Rightarrow> string set \<times> string \<Rightarrow> nat \<times> pyval \<Rightarrow> string set \<times> string" where
  "efecto_celda ok det headers n col p iv =
     (case (p, iv) of ((vistos, actual), (i, val)) \<Rightarrow>
        if i < length headers \<and> headers ! i = col \<and> ok val
        then (paso_muestra vistos (take 50 (py_str val)),
              if n \<le> 1000 then paso_tipo actual (det val) else actual)
        else (vistos, actual))"

text \<open>The common shape of the two cell loops (CSV and spreadsheet), which differ in the
  guard and in the classifier only.\<close>

definition celda_gen :: "(pyval \<Rightarrow> bool) \<Rightarrow> (pyval \<Rightarrow> string) \<Rightarrow> string list \<Rightarrow> nat
    \<Rightarrow> 'a estado \<Rightarrow> nat \<times> pyval \<Rightarrow> 'a estado \<times> exn option" where
  "celda_gen ok det headers n st iv =
     (case (st, iv) of ((res, valores_unicos), (i, val)) \<Rightarrow>
      if i < length headers \<and> ok val then
        (case map_of valores_unicos (headers ! i) of
           None \<Rightarrow> (st, Some (KeyError (headers ! i)))
         | Some vistos \<Rightarrow>
             let valores_unicos1 =
                   (if card vistos < MUESTRA_VALORES
                    then AList.update (headers ! i) (insert (take 50 (py_str val)) vistos) valores_unicos
                    else valores_unicos)
             in if n \<le> 1000 then
                  (case map_of (tipos_detectados res) (headers ! i) of
                     None \<Rightarrow> ((res, valores_unicos1), Some (KeyError (headers ! i)))
                   | Some actual \<Rightarrow>
                       if actual = ''texto'' \<and> det val \<noteq> ''texto''
                       then ((res\<lparr>tipos_detectados :=
                                    AList.update (headers ! i) (det val) (tipos_detectados res)\<rparr>,
                              valores_unicos1), None)
                       else ((res, valores_unicos1), None))
                else ((res, valores_unicos1), None))
      else (st, None))"

text \<open>The sample set and the type that a state holds for a column; \<open>marco\<close>: nothing of
  the result but \<^verbatim>\<open>tipos_detectados\<close> differs.\<close>

definition vista :: "'a estado \<Rightarrow> string \<Rightarrow> (string set \<times> string) option" where
  "vista st col =
     (case (map_of (snd st) col, map_of (tipos_detectados (fst st)) col) of
        (Some vistos, Some actual) \<Rightarrow> Some (vistos, actual)
      | _ \<Rightarrow> None)"

definition marco :: "'a estado \<Rightarrow> 'a estado \<Rightarrow> bool" where
  "marco st st' = (fst st' = (fst st)\<lparr>tipos_detectados := tipos_detectados (fst st')\<rparr>)"

text \<open>A loop body that, from a state holding every header, never raises, changes only
  the types of the result and acts on each column as \<open>ef\<close> says.\<close>

definition paso_ok :: "string list \<Rightarrow> (string \<Rightarrow> string set \<times> string \<Rightarrow> 'b \<Rightarrow> string set \<times> string)
    \<Rightarrow> ('a estado \<Rightarrow> 'b \<Rightarrow> 'a estado \<times> exn option) \<Rightarrow> bool" where
  "paso_ok headers ef f =
     (\<forall>st x. (\<forall>h \<in> set headers. vista st h \<noteq> None) \<longrightarrow>
        snd (f st x) = None \<and> marco st (fst (f st x))
        \<and> (\<forall>col. vista (fst (f st x)) col = map_option (\<lambda>p. ef col p x) (vista st col)))"

text \<open>The common shape of the two row loops.\<close>

fun filas_gen :: "(nat \<Rightarrow> 'a estado \<Rightarrow> nat \<times> pyval \<Rightarrow> 'a estado \<times> exn option)
    \<Rightarrow> 'a estado \<times> nat \<Rightarrow> pyval list list \<Rightarrow> ('a estado \<times> nat) \<times> exn option" where
  "filas_gen cel (st, k) [] = ((st, k), None)"
| "filas_gen cel (st, k) (row # rows) =
     (case iterar (cel (k + 1)) st (enumerate 0 row) of
        (st', Some e) \<Rightarrow> ((st', k + 1), Some e)
      | (st', None) \<Rightarrow> filas_gen cel (st', k + 1) rows)"

text \<open>The cells of a data row that belong to the column named \<open>col\<close> (a cell belongs to
  the header at its position; cells beyond the headers belong to none), the type that a
  stream of values gives a column, and the sample set it gives.\<close>

definition valores_columna :: "string list \<Rightarrow> string \<Rightarrow> pyval list \<Rightarrow> pyval list" where
  "valores_columna headers col row = map snd (filter (\<lambda>(h, val). h = col) (zip headers row))"

definition tipo_columna :: "(pyval \<Rightarrow> string) \<Rightarrow> pyval list \<Rightarrow> string" where
  "tipo_columna det vals =
     (case find (\<lambda>val. det val \<noteq> ''texto'') vals of None \<Rightarrow> ''texto'' | Some val \<Rightarrow> det val)"

definition muestra_columna :: "pyval list \<Rightarrow> string set" where
  "muestra_columna vals = foldl paso_muestra {} (map (\<lambda>val. take 50 (py_str val)) vals)"

subsection \<open>Iterators\<close>

text \<open>The items that an iterator yields before it ends, the exception that ends it (if
  one does), and the iterator after \<open>n\<close> items.\<close>

fun filas_de :: "'a flujo \<Rightarrow> 'a list" where
  "filas_de Fin = []"
| "filas_de (Falla e) = []"
| "filas_de (Item x xs) = x # filas_de xs"

fun fallo_de :: "'a flujo \<Rightarrow> exn option" where
  "fallo_de Fin = None"
| "fallo_de (Falla e) = Some e"
| "fallo_de (Item x xs) = fallo_de xs"

fun saltar :: "nat \<Rightarrow> 'a flujo \<Rightarrow> 'a flujo" where
  "saltar 0 r = r"
| "saltar (Suc n) (Item x r) = saltar n r"
| "saltar (Suc n) Fin = Fin"
| "saltar (Suc n) (Falla e) = Falla e"

subsection \<open>Tables as functions of their rows\<close>

text \<open>The values of a column that the cell loop acts on: those of the data rows, in row
  order, that pass the guard.\<close>

definition valores_col :: "(pyval \<Rightarrow> bool) \<Rightarrow> string list \<Rightarrow> string \<Rightarrow> pyval list list \<Rightarrow> pyval list" where
  "valores_col ok headers col datos = filter ok (concat (map (valores_columna headers col) datos))"

text \<open>The header index, the headers and the data rows of a CSV file with the rows \<open>rows\<close>,
  and of a sheet.\<close>

definition indice_csv :: "string list list \<Rightarrow> nat" where
  "indice_csv rows = fst (buscar_fila_encabezado (map (map PyStr) rows))"

definition encabezados_csv :: "string list list \<Rightarrow> string list" where
  "encabezados_csv rows = snd (buscar_fila_encabezado (map (map PyStr) rows))"

definition datos_csv :: "string list list \<Rightarrow> pyval list list" where
  "datos_csv rows = map (map PyStr) (drop (indice_csv rows + 1) rows)"

text \<open>The guard of the spreadsheet cell loop: \<^verbatim>\<open>val is not None\<close>.\<close>

definition muestreable_excel :: "pyval \<Rightarrow> bool" where
  "muestreable_excel val = (val \<noteq> PyNone)"

definition indice_hoja :: "pyval list list \<Rightarrow> nat" where
  "indice_hoja rows = fst (buscar_fila_encabezado rows)"

definition encabezados_hoja :: "pyval list list \<Rightarrow> string list" where
  "encabezados_hoja rows = snd (buscar_fila_encabezado rows)"

definition datos_hoja :: "pyval list list \<Rightarrow> pyval list list" where
  "datos_hoja rows = drop (indice_hoja rows + 1) rows"

subsection \<open>Sample tables\<close>

text \<open>Scenario A of the specification as a CSV file, a CSV file of one row, and a workbook
  of two sheets, each with the dictionary that its analysis returns.\<close>

definition filas_escenario_A :: "string list list" where
  "filas_escenario_A =
     [[''Report 2024''], ['''', ''''], [''id'', ''name'', ''amount''], [''1'', ''Alice'', ''100.5'']]"

definition csv_escenario_A :: archivo_csv where
  "csv_escenario_A = \<lparr>csv_ruta = ''a.csv'', csv_getsize = Inr 64, csv_abrir = None,
                        csv_reader = de_lista filas_escenario_A Fin\<rparr>"

definition resultado_escenario_A :: resultado where
  "resultado_escenario_A =
     \<lparr>columnas = [''id'', ''name'', ''amount''], total_filas = 1,
      muestra_valores = [(''id'', {''1''}), (''name'', {''Alice''}), (''amount'', {''100.5''})],
      tipos_detectados = [(''id'', ''entero''), (''name'', ''texto''), (''amount'', ''decimal'')],
      fila_encabezado = Some 3, tipo = ''CSV'', ruta = ''a.csv'', tamano_bytes = 64, error = None\<rparr>"

definition csv_una_fila :: archivo_csv where
  "csv_una_fila = \<lparr>csv_ruta = ''b.csv'', csv_getsize = Inr 8, csv_abrir = None,
                     csv_reader = de_lista [[''id'', ''name'']] Fin\<rparr>"

definition resultado_una_fila :: resultado where
  "resultado_una_fila =
     \<lparr>columnas = [''id'', ''name''], total_filas = 0,
      muestra_valores = [(''id'', {}), (''name'', {})],
      tipos_detectados = [(''id'', ''texto''), (''name'', ''texto'')],
      fila_encabezado = Some 1, tipo = ''CSV'', ruta = ''b.csv'', tamano_bytes = 8, error = None\<rparr>"

definition libro_ejemplo :: archivo_excel where
  "libro_ejemplo =
     \<lparr>xl_ruta = ''libro.xlsx'', xl_openpyxl = True, xl_getsize = Inr 2048, xl_load = None,
      xl_hojas = [(''Datos'', de_lista [[PyStr ''Informe'', PyNone],
                                        [PyStr ''id'', PyStr ''name''],
                                        [PyObj ''int'' True ''1'', PyStr []],
                                        [PyObj ''float'' True ''2.5'', PyNone]] Fin),
                  (''Vacia'', Fin)],
      xl_close = None\<rparr>"

definition resultado_libro_ejemplo :: resultado_excel where
  "resultado_libro_ejemplo =
     \<lparr>ruta_excel = ''libro.xlsx'',
      hojas = [\<lparr>columnas = [''id'', ''name''], total_filas = 2,
                 muestra_valores = [(''id'', {''2.5'', ''1''}), (''name'', {[]})],
                 tipos_detectados = [(''id'', ''entero''), (''name'', ''texto'')],
                 fila_encabezado = Some 2, nombre = ''Datos''\<rparr>,
               \<lparr>columnas = [], total_filas = 0, muestra_valores = [], tipos_detectados = [],
                 fila_encabezado = Some 1, nombre = ''Vacia''\<rparr>],
      tamano_bytes_excel = 2048, error_excel = None\<rparr>"

definition filas_largas :: "string list list" where
  "filas_largas = [''id'', ''name''] # replicate 1000 [''x'', ''''] @ [[''7'', ''3.5'']]"

text \<open>A CSV file whose reader raises after 21 rows, and one of 1001 data rows whose last
  row alone holds numbers.\<close>

definition filas_rotas :: "string list list" where
  "filas_rotas = [''id'', ''name''] # replicate 20 [''7'', '''']"

definition csv_roto :: archivo_csv where
  "csv_roto = \<lparr>csv_ruta = ''roto.csv'', csv_getsize = Inr 300, csv_abrir = None,
                 csv_reader = de_lista filas_rotas (Falla (Fallo ''lectura interrumpida''))\<rparr>"

definition csv_largo :: archivo_csv where
  "csv_largo = \<lparr>csv_ruta = ''largo.csv'', csv_getsize = Inr 9000, csv_abrir = None,
                  csv_reader = de_lista filas_largas Fin\<rparr>"

subsection \<open>Sample sets\<close>

text \<open>The strings that sampling may draw from the values \<open>V\<close> under the guard \<open>ok\<close>, each cut
  to 50 characters; a dictionary of samples all of whose sets hold at most
  \<open>MUESTRA_VALORES\<close> of them; the cells of a list of rows; and the values that the Parquet
  sampling visits (of the first batch, the first \<open>2 * MUESTRA_VALORES\<close> elements of every
  column of the schema).\<close>

definition origen :: "(pyval \<Rightarrow> bool) \<Rightarrow> pyval set \<Rightarrow> string set" where
  "origen ok V = (\<lambda>val. take 50 (py_str val)) ` {val \<in> V. ok val}"

definition muestras_ok :: "string set \<Rightarrow> (string \<times> string set) list \<Rightarrow> bool" where
  "muestras_ok G valores_unicos =
     (\<forall>(col, vistos) \<in> set valores_unicos.
        finite vistos \<and> card vistos \<le> MUESTRA_VALORES \<and> vistos \<subseteq> G)"

definition celdas :: "pyval list list \<Rightarrow> pyval set" where
  "celdas rows = \<Union> (set ` set rows)"

definition valores_primer_lote :: "archivo_parquet \<Rightarrow> pyval set" where
  "valores_primer_lote p =
     (case pq_iter_batches p (min 1000 CHUNK_SIZE) of
        Item batch batches \<Rightarrow>
          (\<Union>col_name \<in> set (map fst (pq_schema p)).
             (case batch col_name of
                Inl e \<Rightarrow> {}
              | Inr column \<Rightarrow> {val. Inr val \<in> set (take (MUESTRA_VALORES * 2) column)}))
      | _ \<Rightarrow> {})"

subsection \<open>Failures of a file\<close>

text \<open>The \<^verbatim>\<open>error\<close> entry of a returned dictionary, and the dictionary that the batch loop
  appends for a file: the analyzer's, or the pair of path and error when the analyzer
  raised.\<close>

fun error_de :: "informe \<Rightarrow> exn option" where
  "error_de (Tabular r) = error r"
| "error_de (Libro x) = error_excel x"
| "error_de (SoloError ruta_archivo e) = Some e"

definition informe_de :: "archivo \<Rightarrow> informe" where
  "informe_de a = (case analizar_archivo a of Inr resultado \<Rightarrow> resultado | Inl e \<Rightarrow> SoloError (ruta_de a) e)"

text \<open>The failures that the analysis of a file can meet: a missing library, an operation
  of the file system or of the decoding library that raises, a reader that raises. For a
  Parquet file, those of the sampling (the first batch cannot be read, or a column of the
  schema cannot be read from it) are kept apart from the others.\<close>

definition falla_csv :: "archivo_csv \<Rightarrow> bool" where
  "falla_csv a = (isl (csv_getsize a) \<or> csv_abrir a \<noteq> None \<or> fallo_de (csv_reader a) \<noteq> None)"

definition falla_excel :: "archivo_excel \<Rightarrow> bool" where
  "falla_excel a =
     (\<not> xl_openpyxl a \<or> isl (xl_getsize a) \<or> xl_load a \<noteq> None
      \<or> list_ex (\<lambda>(nombre_hoja, ws). fallo_de ws \<noteq> None) (xl_hojas a) \<or> xl_close a \<noteq> None)"

definition falla_parquet :: "archivo_parquet \<Rightarrow> bool" where
  "falla_parquet a = (\<not> pq_pyarrow a \<or> isl (pq_getsize a) \<or> pq_abrir a \<noteq> None)"

definition falla_muestreo :: "archivo_parquet \<Rightarrow> bool" where
  "falla_muestreo a =
     (case pq_iter_batches a (min 1000 CHUNK_SIZE) of
        Fin \<Rightarrow> False
      | Falla e \<Rightarrow> True
      | Item batch batches \<Rightarrow> list_ex (\<lambda>col_name. isl (batch col_name)) (map fst (pq_schema a)))"

fun falla :: "archivo \<Rightarrow> bool" where
  "falla (ArchivoCSV a) = falla_csv a"
| "falla (ArchivoExcel a) = falla_excel a"
| "falla (ArchivoParquet a) = (falla_parquet a \<or> falla_muestreo a)"

fun falla_registrada :: "archivo \<Rightarrow> bool" where
  "falla_registrada (ArchivoCSV a) = falla_csv a"
| "falla_registrada (ArchivoExcel a) = falla_excel a"
| "falla_registrada (ArchivoParquet a) = falla_parquet a"

definition parquet_ilegible :: archivo_parquet where
  "parquet_ilegible =
     \<lparr>pq_ruta = ''roto.parquet'', pq_pyarrow = True, pq_getsize = Inr 512, pq_abrir = None,
      pq_num_rows = 3, pq_schema = [(''nombre'', ''string'')],
      pq_iter_batches = (\<lambda>n. Falla (Fallo ''paginas corruptas''))\<rparr>"

section \<open>Verification\<close>

subsection \<open>Dictionaries\<close>

lemma map_of_foldl_update:
  "map_of (foldl (\<lambda>d (k, v). AList.update k (g v) d) d0 xs) =
   map_of d0 ++ map_of (rev (map (\<lambda>(k, v). (k, g v)) xs))"
proof (induction xs arbitrary: d0)
  case Nil
  then show ?case by simp
next
  case (Cons x xs)
  obtain k v where x: "x = (k, v)" by (cases x)
  have "map_of (AList.update k (g v) d0) = map_of d0 ++ [k \<mapsto> g v]"
    by (simp add: update_conv')
  then show ?case
    by (simp add: x Cons.IH del: map_add_upd)
qed

subsection \<open>The Parquet analyzer\<close>

lemma analizar_parquet_ok:
  assumes "analizar_parquet a = Inr (Tabular r)" and "error r = None"
  shows "r = \<lparr>columnas = map fst (pq_schema a), total_filas = pq_num_rows a,
              muestra_valores = muestrear (pq_iter_batches a (min 1000 CHUNK_SIZE)) (map fst (pq_schema a))
                                  (dict_de (map fst (pq_schema a)) {}),
              tipos_detectados = foldl (\<lambda>d (name, ty). AList.update name (traducir_tipo_arrow ty) d) [] (pq_schema a),
              fila_encabezado = None, tipo = ''Parquet'', ruta = pq_ruta a,
              tamano_bytes = projr (pq_getsize a), error = None\<rparr>"
  using assms
  by (auto simp: analizar_parquet_def Let_def split: if_splits sum.splits option.splits)

lemma muestrear_ejemplo:
  "muestrear (Item lote_ejemplo (Falla (Fallo ''lote ilegible''))) [''nombre'', ''n'', ''blob'']
     (dict_de [''nombre'', ''n'', ''blob''] {}) =
   [(''nombre'', {''Noa'', ''Eva'', ''Luis'', [], ''Ana''}), (''n'', {''0'', ''7''}), (''blob'', {})]"
  by (simp add: muestrear_def muestrear_columna_def dict_de_def lote_ejemplo_def
      MUESTRA_VALORES_def insert_commute)

lemma traducir_ejemplos:
  "traducir_tipo_arrow ''string'' = ''texto''"
  "traducir_tipo_arrow ''int64'' = ''entero''"
  "traducir_tipo_arrow ''binary'' = ''binary''"
  by code_simp+

lemma analizar_parquet_ejemplo:
  "analizar_parquet parquet_ejemplo = Inr (Tabular resultado_parquet_ejemplo)"
  by (simp add: analizar_parquet_def parquet_ejemplo_def resultado_parquet_ejemplo_def Let_def
      traducir_ejemplos muestrear_ejemplo)

text \<open>
  Claim C8. The Parquet type mapping is the substring cascade of the specification: the
  first of the rules int, float/double, timestamp/date, bool, string/utf8 that occurs in
  the (lower-cased) type name gives entero, decimal, fecha, booleano or texto; a type name
  in which none of the substrings occurs is returned as it is; and the analyzer records,
  for each field of the schema, the mapping of its type name.
\<close>

theorem traducir_tipo_arrow_cascade:
  "traducir_tipo_arrow t = categoria_arrow_spec t
   \<and> ((\<forall>s \<in> set (concat (map fst reglas_arrow)). \<not> contains s (lower t)) \<longrightarrow>
        traducir_tipo_arrow t = t)
   \<and> (analizar_parquet a = Inr (Tabular r) \<and> error r = None \<longrightarrow>
        map_of (tipos_detectados r) =
        map_of (rev (map (\<lambda>(name, ty). (name, traducir_tipo_arrow ty)) (pq_schema a))))"
proof (intro conjI impI)
  show "traducir_tipo_arrow t = categoria_arrow_spec t"
    by (simp add: traducir_tipo_arrow_def categoria_arrow_spec_def reglas_arrow_def Let_def)
next
  assume "\<forall>s \<in> set (concat (map fst reglas_arrow)). \<not> contains s (lower t)"
  then show "traducir_tipo_arrow t = t"
    by (simp add: traducir_tipo_arrow_def reglas_arrow_def Let_def)
next
  assume "analizar_parquet a = Inr (Tabular r) \<and> error r = None"
  then have "tipos_detectados r =
      foldl (\<lambda>d (name, ty). AList.update name (traducir_tipo_arrow ty) d) [] (pq_schema a)"
    using analizar_parquet_ok [of a r] by (metis tabla.select_convs(4))
  then show "map_of (tipos_detectados r) =
        map_of (rev (map (\<lambda>(name, ty). (name, traducir_tipo_arrow ty)) (pq_schema a)))"
    by (simp add: map_of_foldl_update)
qed

theorem traducir_tipo_arrow_cascade_witness:
  "list_all (\<lambda>s. \<not> contains s (lower ''binary'')) (concat (map fst reglas_arrow))
   \<and> analizar_parquet parquet_ejemplo = Inr (Tabular resultado_parquet_ejemplo)
   \<and> error resultado_parquet_ejemplo = None
   \<and> traducir_tipo_arrow ''binary'' = ''binary''
   \<and> map_of (tipos_detectados resultado_parquet_ejemplo) ''blob'' = Some ''binary''
   \<and> map_of (tipos_detectados resultado_parquet_ejemplo) ''n'' = Some ''entero''"
proof -
  have h1: "\<forall>s \<in> set (concat (map fst reglas_arrow)). \<not> contains s (lower ''binary'')"
    by code_simp
  have h2: "analizar_parquet parquet_ejemplo = Inr (Tabular resultado_parquet_ejemplo)
            \<and> error resultado_parquet_ejemplo = None"
    by (simp add: analizar_parquet_ejemplo) (simp add: resultado_parquet_ejemplo_def)
  have "map_of (tipos_detectados resultado_parquet_ejemplo) =
        map_of (rev (map (\<lambda>(name, ty). (name, traducir_tipo_arrow ty)) (pq_schema parquet_ejemplo)))"
    using traducir_tipo_arrow_cascade [of "''binary''" parquet_ejemplo resultado_parquet_ejemplo] h2
    by blast
  then have "map_of (tipos_detectados resultado_parquet_ejemplo) ''blob'' = Some ''binary''
     \<and> map_of (tipos_detectados resultado_parquet_ejemplo) ''n'' = Some ''entero''"
    by (simp add: parquet_ejemplo_def traducir_ejemplos)
  moreover have "traducir_tipo_arrow ''binary'' = ''binary''"
    using traducir_tipo_arrow_cascade [of "''binary''" parquet_ejemplo resultado_parquet_ejemplo] h1
    by blast
  ultimately show ?thesis using h1 h2 by (simp add: list_all_iff)
qed

lemma muestrear_columna_recortar:
  "muestrear_columna (\<lambda>c. map_sum id (take (MUESTRA_VALORES * 2)) (batch c)) vu col =
   muestrear_columna batch vu col"
  by (cases "batch col") (auto simp: muestrear_columna_def min_def split: option.splits)

lemma muestrear_recortar: "muestrear (recortar bs) cols vu = muestrear bs cols vu"
proof (cases bs)
  case (Item b rest)
  have "muestrear_columna (\<lambda>c. map_sum id (take (MUESTRA_VALORES * 2)) (b c)) = muestrear_columna b"
    by (intro ext) (rule muestrear_columna_recortar)
  then show ?thesis by (simp add: Item muestrear_def)
qed (simp_all add: muestrear_def)

lemma min_1000_CHUNK_SIZE: "min 1000 CHUNK_SIZE = 1000"
  by (simp add: CHUNK_SIZE_def)

text \<open>
  Claim C7. For a Parquet file that opens, the row count of the result is the one of the
  footer metadata, whatever the data batches hold (1,000,000 in the sample file); the
  batches are asked for with size \<open>min 1000 CHUNK_SIZE = 1000\<close>, and the whole result depends
  on them only through the first batch and, in it, the first \<open>2 * 5\<close> elements of each
  column: two files that agree there (and on everything but the data) get the same result.
\<close>

theorem analizar_parquet_metadata_y_primer_lote:
  "(analizar_parquet a = Inr (Tabular r) \<and> error r = None \<longrightarrow> total_filas r = pq_num_rows a)
   \<and> min 1000 CHUNK_SIZE = 1000
   \<and> (recortar (f 1000) = recortar (pq_iter_batches a 1000) \<longrightarrow>
        analizar_parquet (a\<lparr>pq_iter_batches := f\<rparr>) = analizar_parquet a)"
proof (intro conjI impI)
  assume "analizar_parquet a = Inr (Tabular r) \<and> error r = None"
  then show "total_filas r = pq_num_rows a"
    using analizar_parquet_ok [of a r] by (metis tabla.select_convs(2))
next
  show "min 1000 CHUNK_SIZE = 1000" by (simp add: CHUNK_SIZE_def)
next
  assume eq: "recortar (f 1000) = recortar (pq_iter_batches a 1000)"
  have m: "muestrear (f 1000) cols vu = muestrear (pq_iter_batches a 1000) cols vu" for cols vu
    using eq muestrear_recortar by metis
  show "analizar_parquet (a\<lparr>pq_iter_batches := f\<rparr>) = analizar_parquet a"
    by (auto simp: analizar_parquet_def min_1000_CHUNK_SIZE m Let_def split: sum.splits option.splits)
qed

theorem analizar_parquet_metadata_y_primer_lote_witness:
  "analizar_parquet parquet_ejemplo = Inr (Tabular resultado_parquet_ejemplo)
   \<and> error resultado_parquet_ejemplo = None
   \<and> total_filas resultado_parquet_ejemplo = 1000000
   \<and> recortar (parquet_recortado 1000) = recortar (pq_iter_batches parquet_ejemplo 1000)
   \<and> analizar_parquet (parquet_ejemplo\<lparr>pq_iter_batches := parquet_recortado\<rparr>) =
       Inr (Tabular resultado_parquet_ejemplo)"
proof -
  have h1: "analizar_parquet parquet_ejemplo = Inr (Tabular resultado_parquet_ejemplo)
            \<and> error resultado_parquet_ejemplo = None"
    by (simp add: analizar_parquet_ejemplo) (simp add: resultado_parquet_ejemplo_def)
  have h2: "recortar (parquet_recortado 1000) = recortar (pq_iter_batches parquet_ejemplo 1000)"
    by (auto simp: parquet_recortado_def parquet_ejemplo_def MUESTRA_VALORES_def sum.map_comp comp_def
        intro!: sum.map_cong0)
  note inst = analizar_parquet_metadata_y_primer_lote
                [of parquet_ejemplo resultado_parquet_ejemplo parquet_recortado]
  have "total_filas resultado_parquet_ejemplo = pq_num_rows parquet_ejemplo"
    using inst h1 by blast
  moreover have "analizar_parquet (parquet_ejemplo\<lparr>pq_iter_batches := parquet_recortado\<rparr>) =
                 analizar_parquet parquet_ejemplo"
    using inst h2 by blast
  ultimately show ?thesis using h1 h2 by (simp add: parquet_ejemplo_def)
qed

subsection \<open>Rounding keeps the sign\<close>

lemma pow2_pos: "0 < pow2 k"
  by (simp add: pow2_def)

lemma round_half_even_nonpos: "r \<le> 0 \<Longrightarrow> round_half_even r \<le> 0"
proof -
  assume r: "r \<le> 0"
  have f0: "\<lfloor>r\<rfloor> \<le> 0" using r by (simp add: floor_le_zero)
  show ?thesis
  proof (cases "\<lfloor>r\<rfloor> = 0")
    case True
    then have "r = 0" using r by (metis floor_le_iff less_le_not_le of_int_0 order_antisym_conv of_int_floor_le)
    then show ?thesis by (simp add: round_half_even_def)
  next
    case False
    then have "\<lfloor>r\<rfloor> + 1 \<le> 0" using f0 by linarith
    then show ?thesis using f0 by (simp add: round_half_even_def Let_def)
  qed
qed

lemma fl_nonpos: "x \<le> 0 \<Longrightarrow> fl x \<le> 0"
proof -
  assume x: "x \<le> 0"
  have "x / pow2 k \<le> 0" for k
    using x pow2_pos [of k] by (simp add: divide_nonpos_pos)
  then have "of_int (round_half_even (x / pow2 k)) * pow2 k \<le> 0" for k
    using round_half_even_nonpos [of "x / pow2 k"] pow2_pos [of k]
    by (simp add: mult_nonpos_nonneg less_imp_le)
  then show ?thesis by (simp add: fl_def Let_def)
qed

lemma round_half_even_nonneg: "0 \<le> r \<Longrightarrow> 0 \<le> round_half_even r"
  by (simp add: round_half_even_def Let_def)

lemma fl_nonneg: "0 \<le> x \<Longrightarrow> 0 \<le> fl x"
proof -
  assume x: "0 \<le> x"
  have "0 \<le> x / pow2 k" for k
    using x pow2_pos [of k] by simp
  then have "0 \<le> of_int (round_half_even (x / pow2 k)) * pow2 k" for k
    using round_half_even_nonneg [of "x / pow2 k"] pow2_pos [of k]
    by (simp add: less_imp_le)
  then show ?thesis by (simp add: fl_def Let_def)
qed

lemma d_pos: "0 < d01" "0 < d02" "0 < d03"
  by code_simp+

lemma puntuar_numericas:
  assumes "\<forall>c \<in> set fila. \<not> celda_vacia c \<longrightarrow> celda_numerica c" and "s \<le> 0"
  shows "fst (foldl puntuar_celda (s, n) fila) \<le> 0"
  using assms
proof (induction fila arbitrary: s n)
  case Nil
  then show ?case by simp
next
  case (Cons c fila)
  have "fsub s d03 \<le> 0"
    using Cons.prems(2) d_pos(3) by (simp add: fsub_def fl_nonpos)
  then show ?case
    using Cons by (cases "celda_vacia c") (simp_all add: Let_def)
qed

lemma truthy_no_vacia: "truthy c \<Longrightarrow> no_vacia c"
  by (cases c) (simp_all add: no_vacia_def)

lemma filter_truthy_le: "length (filter truthy fila) \<le> length (filter no_vacia fila)"
  by (induction fila) (auto dest: truthy_no_vacia)

subsection \<open>The header scorer\<close>

text \<open>
  Claim C5, as amended. The scorer has two tests of emptiness. Its guard counts the cells
  that Python takes as true, so that a row with fewer than two cells that are neither null
  nor the empty string is rejected with score 0; a cell of blanks counts in the guard. Its
  loop scores and counts the cells that are not null and not blank after trimming: a row
  all of whose scored cells parse as numbers (after the decimal comma is normalised) gets a
  score of at most 0 and is not eligible. A row is eligible exactly when its final score
  exceeds the float 0.1.
\<close>

theorem es_encabezado_valido_rechaza:
  "(length (filter no_vacia f1) < 2 \<longrightarrow> es_encabezado_valido f1 2 = (False, 0))
   \<and> ((\<forall>c \<in> set f2. \<not> celda_vacia c \<longrightarrow> celda_numerica c) \<longrightarrow>
        snd (es_encabezado_valido f2 2) \<le> 0 \<and> \<not> fst (es_encabezado_valido f2 2))
   \<and> (fst (es_encabezado_valido f3 2) \<longleftrightarrow> d01 < snd (es_encabezado_valido f3 2))"
proof -
  have a: "es_encabezado_valido f1 2 = (False, 0)" if "length (filter no_vacia f1) < 2"
  proof -
    have "length (filter truthy f1) < 2"
      using that filter_truthy_le [of f1] by linarith
    then show ?thesis
      by (simp add: es_encabezado_valido_def)
  qed
  have c: "fst (es_encabezado_valido f 2) \<longleftrightarrow> d01 < snd (es_encabezado_valido f 2)" for f
  proof -
    obtain s n where sn: "foldl puntuar_celda (0, 0) f = (s, n)"
      by (cases "foldl puntuar_celda (0, 0) f")
    show ?thesis
      using d_pos(1) by (simp add: es_encabezado_valido_def sn Let_def)
  qed
  have b: "snd (es_encabezado_valido f2 2) \<le> 0 \<and> \<not> fst (es_encabezado_valido f2 2)"
    if num: "\<forall>c \<in> set f2. \<not> celda_vacia c \<longrightarrow> celda_numerica c"
  proof -
    obtain s n where sn: "foldl puntuar_celda (0, 0) f2 = (s, n)"
      by (cases "foldl puntuar_celda (0, 0) f2")
    have s: "s \<le> 0"
      using puntuar_numericas [OF num, of 0 0] sn by simp
    have s1: "fdiv s (fl (of_nat n)) \<le> 0"
      using s fl_nonneg [of "of_nat n"] by (simp add: fdiv_def fl_nonpos divide_nonpos_nonneg)
    have s2: "fsub t (1 / 2) \<le> 0" if "t \<le> 0" for t
      using that by (simp add: fsub_def fl_nonpos)
    have "snd (es_encabezado_valido f2 2) \<le> 0"
      using s s1 s2 by (simp add: es_encabezado_valido_def sn Let_def)
    then show ?thesis
      using c [of f2] d_pos(1) by auto
  qed
  show ?thesis using a b c by blast
qed

subsection \<open>The header search\<close>

lemma elegible_iff: "elegible f \<longleftrightarrow> d01 < puntaje f"
proof -
  obtain s n where sn: "foldl puntuar_celda (0, 0) f = (s, n)"
    by (cases "foldl puntuar_celda (0, 0) f")
  show ?thesis
    using d_pos(1) by (simp add: elegible_def puntaje_def es_encabezado_valido_def sn Let_def)
qed

lemma elegible_no_vacia: "elegible f \<Longrightarrow> f \<noteq> []"
  by (auto simp: elegible_def es_encabezado_valido_def)

lemma paso_busqueda_eq:
  "paso_busqueda (ms, mi, mf) (i, r) =
     (if elegible r \<and> ms < puntaje r then (puntaje r, i, r) else (ms, mi, mf))"
  by (simp add: elegible_def puntaje_def split: prod.splits)

declare paso_busqueda.simps [simp del]

lemma busqueda_foldl:
  "foldl paso_busqueda (ms, mi, mf) (enumerate n rows) = (ms', mi', mf') \<Longrightarrow>
   ((\<forall>x \<in> set rows. elegible x \<longrightarrow> puntaje x \<le> ms) \<and> (ms', mi', mf') = (ms, mi, mf))
   \<or> (\<exists>pre r post. rows = pre @ r # post \<and> mi' = n + length pre \<and> mf' = r \<and> ms' = puntaje r
         \<and> elegible r \<and> ms < ms'
         \<and> (\<forall>x \<in> set pre. elegible x \<longrightarrow> puntaje x < ms')
         \<and> (\<forall>x \<in> set post. elegible x \<longrightarrow> puntaje x \<le> ms'))"
proof (induction rows arbitrary: ms mi mf n)
  case Nil
  then show ?case by simp
next
  case (Cons r rows)
  show ?case
  proof (cases "elegible r \<and> ms < puntaje r")
    case True
    then have step: "foldl paso_busqueda (puntaje r, n, r) (enumerate (Suc n) rows) = (ms', mi', mf')"
      using Cons.prems by (simp add: paso_busqueda_eq)
    from Cons.IH [OF step] show ?thesis
    proof
      assume "(\<forall>x \<in> set rows. elegible x \<longrightarrow> puntaje x \<le> puntaje r) \<and> (ms', mi', mf') = (puntaje r, n, r)"
      then have "r # rows = [] @ r # rows \<and> mi' = n + length ([]::pyval list list) \<and> mf' = r \<and> ms' = puntaje r
         \<and> elegible r \<and> ms < ms'
         \<and> (\<forall>x \<in> set ([]::pyval list list). elegible x \<longrightarrow> puntaje x < ms')
         \<and> (\<forall>x \<in> set rows. elegible x \<longrightarrow> puntaje x \<le> ms')"
        using True by simp
      then show ?thesis by blast
    next
      assume "\<exists>pre r' post. rows = pre @ r' # post \<and> mi' = Suc n + length pre \<and> mf' = r' \<and> ms' = puntaje r'
         \<and> elegible r' \<and> puntaje r < ms'
         \<and> (\<forall>x \<in> set pre. elegible x \<longrightarrow> puntaje x < ms')
         \<and> (\<forall>x \<in> set post. elegible x \<longrightarrow> puntaje x \<le> ms')"
      then obtain pre r' post where h: "rows = pre @ r' # post" "mi' = Suc n + length pre" "mf' = r'"
          "ms' = puntaje r'" "elegible r'" "puntaje r < ms'"
          "\<forall>x \<in> set pre. elegible x \<longrightarrow> puntaje x < ms'"
          "\<forall>x \<in> set post. elegible x \<longrightarrow> puntaje x \<le> ms'"
        by blast
      have "r # rows = (r # pre) @ r' # post \<and> mi' = n + length (r # pre) \<and> mf' = r' \<and> ms' = puntaje r'
         \<and> elegible r' \<and> ms < ms'
         \<and> (\<forall>x \<in> set (r # pre). elegible x \<longrightarrow> puntaje x < ms')
         \<and> (\<forall>x \<in> set post. elegible x \<longrightarrow> puntaje x \<le> ms')"
        using h True by auto
      then show ?thesis by blast
    qed
  next
    case False
    then have "paso_busqueda (ms, mi, mf) (n, r) = (ms, mi, mf)"
      by (simp only: paso_busqueda_eq if_False)
    then have step: "foldl paso_busqueda (ms, mi, mf) (enumerate (Suc n) rows) = (ms', mi', mf')"
      using Cons.prems by simp
    from Cons.IH [OF step] show ?thesis
    proof
      assume "(\<forall>x \<in> set rows. elegible x \<longrightarrow> puntaje x \<le> ms) \<and> (ms', mi', mf') = (ms, mi, mf)"
      then show ?thesis using False by auto
    next
      assume "\<exists>pre r' post. rows = pre @ r' # post \<and> mi' = Suc n + length pre \<and> mf' = r' \<and> ms' = puntaje r'
         \<and> elegible r' \<and> ms < ms'
         \<and> (\<forall>x \<in> set pre. elegible x \<longrightarrow> puntaje x < ms')
         \<and> (\<forall>x \<in> set post. elegible x \<longrightarrow> puntaje x \<le> ms')"
      then obtain pre r' post where h: "rows = pre @ r' # post" "mi' = Suc n + length pre" "mf' = r'"
          "ms' = puntaje r'" "elegible r'" "ms < ms'"
          "\<forall>x \<in> set pre. elegible x \<longrightarrow> puntaje x < ms'"
          "\<forall>x \<in> set post. elegible x \<longrightarrow> puntaje x \<le> ms'"
        by blast
      have "r # rows = (r # pre) @ r' # post \<and> mi' = n + length (r # pre) \<and> mf' = r' \<and> ms' = puntaje r'
         \<and> elegible r' \<and> ms < ms'
         \<and> (\<forall>x \<in> set (r # pre). elegible x \<longrightarrow> puntaje x < ms')
         \<and> (\<forall>x \<in> set post. elegible x \<longrightarrow> puntaje x \<le> ms')"
        using h False by auto
      then show ?thesis by blast
    qed
  qed
qed

text \<open>The outcome of the search, in two cases.\<close>

lemma buscar_sin_elegibles:
  assumes "\<forall>x \<in> set (take MAX_FILAS_BUSQUEDA_HEADER filas). \<not> elegible x"
  shows "buscar_fila_encabezado filas = (0, if filas = [] then [] else limpiar_encabezados (hd filas))"
proof -
  obtain ms' mi' mf' where f: "foldl paso_busqueda (- 1, 0, []) (enumerate 0 (take MAX_FILAS_BUSQUEDA_HEADER filas)) = (ms', mi', mf')"
    by (metis prod_cases3)
  from busqueda_foldl [OF f] assms have "(ms', mi', mf') = (- 1, 0, [])"
    by auto
  then show ?thesis
    using f by (simp add: buscar_fila_encabezado_def limpiar_encabezados_def)
qed

lemma buscar_con_elegibles:
  assumes "\<exists>x \<in> set (take MAX_FILAS_BUSQUEDA_HEADER filas). elegible x"
  shows "\<exists>pre r post. take MAX_FILAS_BUSQUEDA_HEADER filas = pre @ r # post
           \<and> buscar_fila_encabezado filas = (length pre, limpiar_encabezados r)
           \<and> elegible r
           \<and> (\<forall>x \<in> set pre. elegible x \<longrightarrow> puntaje x < puntaje r)
           \<and> (\<forall>x \<in> set post. elegible x \<longrightarrow> puntaje x \<le> puntaje r)"
proof -
  obtain ms' mi' mf' where f: "foldl paso_busqueda (- 1, 0, []) (enumerate 0 (take MAX_FILAS_BUSQUEDA_HEADER filas)) = (ms', mi', mf')"
    by (metis prod_cases3)
  have "\<not> (\<forall>x \<in> set (take MAX_FILAS_BUSQUEDA_HEADER filas). elegible x \<longrightarrow> puntaje x \<le> - 1)"
    using assms d_pos(1) by (force simp: elegible_iff)
  with busqueda_foldl [OF f] obtain pre r post where
    h: "take MAX_FILAS_BUSQUEDA_HEADER filas = pre @ r # post" "mi' = length pre" "mf' = r" "elegible r"
       "\<forall>x \<in> set pre. elegible x \<longrightarrow> puntaje x < puntaje r"
       "\<forall>x \<in> set post. elegible x \<longrightarrow> puntaje x \<le> puntaje r"
    by auto
  have "buscar_fila_encabezado filas = (length pre, limpiar_encabezados r)"
    using f h(2,3) elegible_no_vacia [OF h(4)] by (simp add: buscar_fila_encabezado_def)
  then show ?thesis using h by blast
qed

text \<open>
  Claim C6. Among the first 20 rows, when some row is eligible the search returns the index
  of an eligible row of highest score, the lowest such index on a tie, with that row's
  cleaned cells as headers; when no row is eligible and there is a row at all, it returns
  index 0 and the cleaned first row, whatever its score.
\<close>

theorem buscar_fila_encabezado_seleccion:
  assumes "buscar_fila_encabezado filas = (idx, headers)"
    and "cand = take MAX_FILAS_BUSQUEDA_HEADER filas"
  shows "((\<exists>j < length cand. elegible (cand ! j)) \<longrightarrow>
            idx < length cand \<and> elegible (cand ! idx) \<and> headers = limpiar_encabezados (cand ! idx)
            \<and> (\<forall>j < length cand. elegible (cand ! j) \<longrightarrow>
                   puntaje (cand ! j) \<le> puntaje (cand ! idx)
                   \<and> (puntaje (cand ! j) = puntaje (cand ! idx) \<longrightarrow> idx \<le> j)))
         \<and> ((\<forall>j < length cand. \<not> elegible (cand ! j)) \<and> filas \<noteq> [] \<longrightarrow>
            idx = 0 \<and> headers = limpiar_encabezados (filas ! 0))"
proof -
  have A: "idx < length cand \<and> elegible (cand ! idx) \<and> headers = limpiar_encabezados (cand ! idx)
        \<and> (\<forall>j < length cand. elegible (cand ! j) \<longrightarrow>
               puntaje (cand ! j) \<le> puntaje (cand ! idx)
               \<and> (puntaje (cand ! j) = puntaje (cand ! idx) \<longrightarrow> idx \<le> j))"
    if "\<exists>j < length cand. elegible (cand ! j)"
  proof -
  from that obtain j where "j < length cand" "elegible (cand ! j)" by blast
  then have "\<exists>x \<in> set cand. elegible x"
    using nth_mem by blast
  then have "\<exists>x \<in> set (take MAX_FILAS_BUSQUEDA_HEADER filas). elegible x"
    using assms(2) by simp
  from buscar_con_elegibles [OF this] obtain pre r post where
    h: "cand = pre @ r # post" "buscar_fila_encabezado filas = (length pre, limpiar_encabezados r)"
       "elegible r" "\<forall>x \<in> set pre. elegible x \<longrightarrow> puntaje x < puntaje r"
       "\<forall>x \<in> set post. elegible x \<longrightarrow> puntaje x \<le> puntaje r"
    using assms(2) by auto
  have idx: "idx = length pre" and hd: "headers = limpiar_encabezados r"
    using h(2) assms(1) by simp_all
  have r: "cand ! idx = r"
    by (simp add: h(1) idx)
  have all: "puntaje (cand ! j) \<le> puntaje (cand ! idx)
             \<and> (puntaje (cand ! j) = puntaje (cand ! idx) \<longrightarrow> idx \<le> j)"
    if j: "j < length cand" and e: "elegible (cand ! j)" for j
  proof (cases "j < idx")
    case True
    then have "cand ! j \<in> set pre"
      by (simp add: h(1) idx nth_append)
    then show ?thesis using h(4) e r True by fastforce
  next
    case False
    show ?thesis
    proof (cases "j = idx")
      case True
      then show ?thesis by simp
    next
      case False
      with \<open>\<not> j < idx\<close> have gt: "idx < j" by simp
      then have "cand ! j = post ! (j - idx - 1)"
        by (simp add: h(1) idx nth_append nth_Cons')
      moreover have "j - idx - 1 < length post"
        using j gt by (simp add: h(1) idx)
      ultimately have "cand ! j \<in> set post" by simp
      then show ?thesis using h(5) e r gt by fastforce
    qed
  qed
  show ?thesis
    using all r h(3) hd by (simp add: h(1) idx)
  qed
  have B: "idx = 0 \<and> headers = limpiar_encabezados (filas ! 0)"
    if a: "(\<forall>j < length cand. \<not> elegible (cand ! j)) \<and> filas \<noteq> []"
  proof -
  from a have "\<forall>x \<in> set cand. \<not> elegible x"
    by (metis in_set_conv_nth)
  then have "\<forall>x \<in> set (take MAX_FILAS_BUSQUEDA_HEADER filas). \<not> elegible x"
    using assms(2) by simp
  from buscar_sin_elegibles [OF this] a assms(1)
  show ?thesis
    by (simp add: hd_conv_nth)
  qed
  show ?thesis using A B by blast
qed

subsection \<open>Header detection on sample rows\<close>

lemma buscar_filas_empate: "buscar_fila_encabezado filas_empate = (1, [''id'', ''name''])"
  unfolding filas_empate_def by code_simp

lemma puntajes_filas_empate:
  "elegible (filas_empate ! 1)" "elegible (filas_empate ! 3)"
  "puntaje (filas_empate ! 3) = puntaje (filas_empate ! 1)"
  unfolding filas_empate_def by code_simp+

lemma buscar_filas_sin_encabezado:
  "buscar_fila_encabezado filas_sin_encabezado = (0, [''1'', ''2''])"
  "\<not> elegible (filas_sin_encabezado ! 0)" "\<not> elegible (filas_sin_encabezado ! 1)"
  unfolding filas_sin_encabezado_def by code_simp+

theorem es_encabezado_valido_rechaza_witness:
  "length (filter no_vacia fila_titulo) < 2
   \<and> es_encabezado_valido fila_titulo 2 = (False, 0)
   \<and> list_all (\<lambda>c. celda_vacia c \<or> celda_numerica c) fila_numerica
   \<and> 2 \<le> length (filter no_vacia fila_numerica)
   \<and> snd (es_encabezado_valido fila_numerica 2) \<le> 0
   \<and> \<not> fst (es_encabezado_valido fila_numerica 2)
   \<and> fst (es_encabezado_valido (filas_empate ! 1) 2)
   \<and> d01 < snd (es_encabezado_valido (filas_empate ! 1) 2)"
proof -
  have h1: "length (filter no_vacia fila_titulo) < 2"
    by (simp add: fila_titulo_def no_vacia_def)
  have h2: "list_all (\<lambda>c. celda_vacia c \<or> celda_numerica c) fila_numerica"
    unfolding fila_numerica_def by code_simp
  then have h2': "\<forall>c \<in> set fila_numerica. \<not> celda_vacia c \<longrightarrow> celda_numerica c"
    by (auto simp: list_all_iff)
  have h3: "fst (es_encabezado_valido (filas_empate ! 1) 2)"
    using puntajes_filas_empate(1) by (simp add: elegible_def)
  have h4: "2 \<le> length (filter no_vacia fila_numerica)"
    by (simp add: fila_numerica_def no_vacia_def)
  note inst = es_encabezado_valido_rechaza [of fila_titulo fila_numerica "filas_empate ! 1"]
  show ?thesis
    using inst h1 h2 h2' h3 h4 by blast
qed

lemma puntajes_con_blanco:
  "es_encabezado_valido fila_con_blanco 2 = (True, 1)"
  "es_encabezado_valido fila_en_blanco 2 = (False, - (1 / 2))"
  unfolding fila_con_blanco_def fila_en_blanco_def by code_simp+

lemma celdas_puntuadas_con_blanco:
  "filter (\<lambda>c. \<not> celda_vacia c) fila_con_blanco = [PyStr ''id'']"
  "filter (\<lambda>c. \<not> celda_vacia c) fila_en_blanco = []"
  unfolding fila_con_blanco_def fila_en_blanco_def by code_simp+

text \<open>
  With the cells that the loop scores as the non-empty cells throughout, the guard does
  not reject every row with fewer than two of them: the row \<^verbatim>\<open>['id', ' ']\<close> has one and is
  eligible with score 1, and the row \<^verbatim>\<open>[' ', ' ']\<close> has none and gets the score -0.5, not 0.
\<close>

theorem es_encabezado_valido_rechaza_counterexample:
  "length (filter (\<lambda>c. \<not> celda_vacia c) fila_con_blanco) < 2
   \<and> es_encabezado_valido fila_con_blanco 2 = (True, 1)
   \<and> length (filter (\<lambda>c. \<not> celda_vacia c) fila_en_blanco) < 2
   \<and> es_encabezado_valido fila_en_blanco 2 = (False, - (1 / 2))"
  by (simp add: puntajes_con_blanco celdas_puntuadas_con_blanco)

theorem buscar_fila_encabezado_seleccion_witness:
  "buscar_fila_encabezado filas_empate = (1, [''id'', ''name''])
   \<and> elegible (filas_empate ! 3)
   \<and> puntaje (filas_empate ! 3) = puntaje (filas_empate ! 1)
   \<and> elegible (filas_empate ! 1)
   \<and> limpiar_encabezados (filas_empate ! 1) = [''id'', ''name'']
   \<and> buscar_fila_encabezado filas_sin_encabezado = (0, [''1'', ''2''])
   \<and> \<not> elegible (filas_sin_encabezado ! 0) \<and> \<not> elegible (filas_sin_encabezado ! 1)
   \<and> limpiar_encabezados (filas_sin_encabezado ! 0) = [''1'', ''2'']"
proof -
  have c1: "filas_empate = take MAX_FILAS_BUSQUEDA_HEADER filas_empate"
    by (simp add: filas_empate_def MAX_FILAS_BUSQUEDA_HEADER_def)
  have e1: "\<exists>j < length filas_empate. elegible (filas_empate ! j)"
    using puntajes_filas_empate(2) by (intro exI [of _ 3]) (simp add: filas_empate_def)
  have r1: "elegible (filas_empate ! 1) \<and> [''id'', ''name''] = limpiar_encabezados (filas_empate ! 1)"
    using buscar_fila_encabezado_seleccion [OF buscar_filas_empate c1] e1 by blast
  have c2: "filas_sin_encabezado = take MAX_FILAS_BUSQUEDA_HEADER filas_sin_encabezado"
    by (simp add: filas_sin_encabezado_def MAX_FILAS_BUSQUEDA_HEADER_def)
  have e2: "(\<forall>j < length filas_sin_encabezado. \<not> elegible (filas_sin_encabezado ! j))
            \<and> filas_sin_encabezado \<noteq> []"
    using buscar_filas_sin_encabezado(2,3) by (auto simp: filas_sin_encabezado_def less_Suc_eq)
  have r2: "[''1'', ''2''] = limpiar_encabezados (filas_sin_encabezado ! 0)"
    using buscar_fila_encabezado_seleccion [OF buscar_filas_sin_encabezado(1) c2] e2 by blast
  show ?thesis
    using r1 r2 buscar_filas_empate puntajes_filas_empate buscar_filas_sin_encabezado by simp
qed

subsection \<open>The cell and row loops\<close>

lemma marco_refl: "marco st st"
  by (simp add: marco_def)

lemma marco_trans: "marco a b \<Longrightarrow> marco b c \<Longrightarrow> marco a c"
  by (simp add: marco_def) (metis tabla.update_convs(4) tabla.surjective tabla.select_convs)

lemma procesar_celda_gen:
  "procesar_celda headers n = celda_gen muestreable_csv (\<lambda>val. detectar_tipo (py_str val)) headers n"
  by (auto simp: fun_eq_iff procesar_celda_def celda_gen_def muestreable_csv_def Let_def)

lemma procesar_celda_excel_gen:
  "procesar_celda_excel headers n = celda_gen (\<lambda>val. val \<noteq> PyNone) detectar_tipo_valor headers n"
  by (auto simp: fun_eq_iff procesar_celda_excel_def celda_gen_def Let_def)

lemma celda_gen_ok:
  "paso_ok headers (efecto_celda ok det headers n) (celda_gen ok det headers n)"
  unfolding paso_ok_def
proof (intro allI impI)
  fix st :: "'a estado" and x :: "nat \<times> pyval"
  assume inv: "\<forall>h \<in> set headers. vista st h \<noteq> None"
  obtain res vu where st: "st = (res, vu)" by (cases st)
  obtain i val where x: "x = (i, val)" by (cases x)
  show "snd (celda_gen ok det headers n st x) = None \<and> marco st (fst (celda_gen ok det headers n st x))
        \<and> (\<forall>col. vista (fst (celda_gen ok det headers n st x)) col =
               map_option (\<lambda>p. efecto_celda ok det headers n col p x) (vista st col))"
  proof (cases "i < length headers \<and> ok val")
    case False
    then have "celda_gen ok det headers n st x = (st, None)"
      by (auto simp: st x celda_gen_def)
    moreover have "efecto_celda ok det headers n col p x = p" for col p
      using False by (cases p) (auto simp: x efecto_celda_def)
    ultimately show ?thesis
      by (simp add: marco_refl option.map_ident)
  next
    case True
    then have "vista st (headers ! i) \<noteq> None" using inv by simp
    then obtain S t where S: "map_of vu (headers ! i) = Some S" and t: "map_of (tipos_detectados res) (headers ! i) = Some t"
      by (auto simp: vista_def st split: option.splits)
    show ?thesis
      using True S t
      by (auto simp: st x celda_gen_def efecto_celda_def marco_def Let_def
          vista_def update_conv' paso_muestra_def paso_tipo_def split: option.splits)
  qed
qed

lemma iterar_ok:
  assumes "paso_ok headers ef f" and "\<forall>h \<in> set headers. vista st h \<noteq> None"
  shows "snd (iterar f st xs) = None \<and> marco st (fst (iterar f st xs))
         \<and> (\<forall>col. vista (fst (iterar f st xs)) col = map_option (\<lambda>p. foldl (ef col) p xs) (vista st col))"
  using assms(2)
proof (induction xs arbitrary: st)
  case Nil
  then show ?case by (simp add: marco_refl option.map_ident)
next
  case (Cons x xs)
  obtain st' where f: "f st x = (st', None)" and m: "marco st st'"
    and v: "\<forall>col. vista st' col = map_option (\<lambda>p. ef col p x) (vista st col)"
    using assms(1) Cons.prems unfolding paso_ok_def by (metis prod.collapse)
  have inv': "\<forall>h \<in> set headers. vista st' h \<noteq> None"
    using v Cons.prems by simp
  from Cons.IH [OF inv'] show ?case
    using m v by (auto simp: f option.map_comp comp_def intro: marco_trans)
qed

lemma filas_gen_ok:
  assumes "\<And>n. paso_ok headers (ef n) (cel n)" and "\<forall>h \<in> set headers. vista st h \<noteq> None"
  shows "\<exists>st'. filas_gen cel (st, k) rows = ((st', k + length rows), None) \<and> marco st st'
         \<and> (\<forall>col. vista st' col =
                map_option (\<lambda>p. foldl (\<lambda>p (n, row). foldl (ef n col) p (enumerate 0 row)) p
                                      (enumerate (Suc k) rows)) (vista st col))"
  using assms(2)
proof (induction rows arbitrary: st k)
  case Nil
  then show ?case by (simp add: marco_refl option.map_ident)
next
  case (Cons row rows)
  from iterar_ok [OF assms(1) Cons.prems, of "k + 1" "enumerate 0 row"]
  obtain st1 where it: "iterar (cel (k + 1)) st (enumerate 0 row) = (st1, None)" and m: "marco st st1"
    and v: "\<forall>col. vista st1 col = map_option (\<lambda>p. foldl (ef (k + 1) col) p (enumerate 0 row)) (vista st col)"
    by (metis prod.collapse)
  have inv': "\<forall>h \<in> set headers. vista st1 h \<noteq> None"
    using v Cons.prems by simp
  from Cons.IH [OF inv', of "k + 1"] obtain st' where
    r: "filas_gen cel (st1, k + 1) rows = ((st', k + 1 + length rows), None)" "marco st1 st'"
       "\<forall>col. vista st' col =
                map_option (\<lambda>p. foldl (\<lambda>p (n, row). foldl (ef n col) p (enumerate 0 row)) p
                                      (enumerate (Suc (k + 1)) rows)) (vista st1 col)"
    by blast
  have "filas_gen cel (st, k) (row # rows) = ((st', k + length (row # rows)), None)"
    using it r(1) by simp
  moreover have "marco st st'" using m r(2) by (rule marco_trans)
  moreover have "\<forall>col. vista st' col =
                map_option (\<lambda>p. foldl (\<lambda>p (n, row). foldl (ef n col) p (enumerate 0 row)) p
                                      (enumerate (Suc k) (row # rows))) (vista st col)"
    using r(3) v by (simp add: option.map_comp comp_def)
  ultimately show ?case by blast
qed

lemma efecto_celda_apply:
  "efecto_celda ok det headers n col (S, t) (i, val) =
     (if i < length headers \<and> headers ! i = col \<and> ok val
      then (paso_muestra S (take 50 (py_str val)), if n \<le> 1000 then paso_tipo t (det val) else t)
      else (S, t))"
  by (simp add: efecto_celda_def)

lemma efecto_fila:
  "foldl (efecto_celda ok det headers n col) (S, t) (enumerate j row) =
   (foldl paso_muestra S (map (\<lambda>val. take 50 (py_str val)) (filter ok (valores_columna (drop j headers) col row))),
    if n \<le> 1000 then foldl paso_tipo t (map det (filter ok (valores_columna (drop j headers) col row))) else t)"
proof (induction row arbitrary: j S t)
  case Nil
  then show ?case by (simp add: valores_columna_def)
next
  case (Cons val row)
  show ?case
  proof (cases "j < length headers")
    case True
    then have d: "drop j headers = headers ! j # drop (Suc j) headers"
      by (simp add: Cons_nth_drop_Suc)
    show ?thesis
      using True by (simp add: Cons.IH d efecto_celda_apply valores_columna_def)
  next
    case False
    then have "drop j headers = []" "drop (Suc j) headers = []" by simp_all
    then show ?thesis
      using False by (simp add: Cons.IH efecto_celda_apply valores_columna_def)
  qed
qed

lemma efecto_filas:
  "foldl (\<lambda>p (n, row). foldl (efecto_celda ok det headers n col) p (enumerate 0 row)) (S, t)
         (enumerate (Suc k) rows) =
   (foldl paso_muestra S (map (\<lambda>val. take 50 (py_str val))
        (filter ok (concat (map (valores_columna headers col) rows)))),
    foldl paso_tipo t (map det
        (filter ok (concat (map (valores_columna headers col) (take (1000 - k) rows))))))"
proof (induction rows arbitrary: k S t)
  case Nil
  then show ?case by simp
next
  case (Cons row rows)
  show ?case
  proof (cases "Suc k \<le> 1000")
    case True
    then have "1000 - k = Suc (1000 - Suc k)" by simp
    then show ?thesis
      using True by (simp add: efecto_fila [where j = 0, simplified] Cons.IH)
  next
    case False
    then have "1000 - k = 0" "1000 - Suc k = 0" by simp_all
    then show ?thesis
      using False by (simp add: efecto_fila [where j = 0, simplified] Cons.IH)
  qed
qed

lemma foldl_paso_tipo:
  "foldl paso_tipo t (map det vals) = (if t \<noteq> ''texto'' then t else tipo_columna det vals)"
proof (induction vals arbitrary: t)
  case Nil
  then show ?case by (simp add: tipo_columna_def)
next
  case (Cons val vals)
  then show ?case by (simp add: tipo_columna_def paso_tipo_def)
qed

lemma procesar_primeras_gen: "procesar_primeras headers s rows = filas_gen (procesar_celda headers) s rows"
proof (induction rows arbitrary: s)
  case Nil
  then show ?case by (cases s) simp
next
  case (Cons row rows)
  then show ?case by (cases s) (simp add: procesar_fila_datos_def)
qed

lemma procesar_filas_excel_gen:
  "procesar_filas_excel headers s rows = filas_gen (procesar_celda_excel headers) s rows"
proof (induction rows arbitrary: s)
  case Nil
  then show ?case by (cases s) simp
next
  case (Cons row rows)
  then show ?case by (cases s) simp
qed

subsection \<open>Readers and dictionaries\<close>

lemma filas_de_saltar: "filas_de (saltar n r) = drop n (filas_de r)"
  by (induction n r rule: saltar.induct) simp_all

lemma fallo_de_saltar: "fallo_de (saltar n r) = fallo_de r"
  by (induction n r rule: saltar.induct) simp_all

lemma leer_primeras_eq:
  "i \<le> MAX_FILAS_BUSQUEDA_HEADER \<Longrightarrow>
   leer_primeras i acc reader =
     (if length (filas_de reader) + i \<le> MAX_FILAS_BUSQUEDA_HEADER
      then (case fallo_de reader of Some e \<Rightarrow> Inl e | None \<Rightarrow> Inr (acc @ filas_de reader, Fin))
      else Inr (acc @ take (Suc MAX_FILAS_BUSQUEDA_HEADER - i) (filas_de reader),
                saltar (Suc MAX_FILAS_BUSQUEDA_HEADER - i) reader))"
proof (induction i acc reader rule: leer_primeras.induct)
  case (3 i acc row reader)
  show ?case
  proof (cases "i = MAX_FILAS_BUSQUEDA_HEADER")
    case True
    then show ?thesis by simp
  next
    case False
    then have lt: "i < MAX_FILAS_BUSQUEDA_HEADER" using "3.prems" by simp
    then have s: "Suc MAX_FILAS_BUSQUEDA_HEADER - i = Suc (Suc MAX_FILAS_BUSQUEDA_HEADER - (i + 1))"
      by simp
    have "leer_primeras i acc (Item row reader) = leer_primeras (i + 1) (acc @ [row]) reader"
      using lt by simp
    also have "\<dots> = (if length (filas_de reader) + (i + 1) \<le> MAX_FILAS_BUSQUEDA_HEADER
      then (case fallo_de reader of Some e \<Rightarrow> Inl e | None \<Rightarrow> Inr ((acc @ [row]) @ filas_de reader, Fin))
      else Inr ((acc @ [row]) @ take (Suc MAX_FILAS_BUSQUEDA_HEADER - (i + 1)) (filas_de reader),
                saltar (Suc MAX_FILAS_BUSQUEDA_HEADER - (i + 1)) reader))"
      using lt by (intro "3.IH") simp_all
    finally show ?thesis
      using lt by (simp add: s split: option.splits)
  qed
qed simp_all

lemma filas_gen_append:
  "filas_gen cel s (xs @ ys) =
     (case filas_gen cel s xs of (s', None) \<Rightarrow> filas_gen cel s' ys | (s', Some e) \<Rightarrow> (s', Some e))"
proof (induction xs arbitrary: s)
  case Nil
  then show ?case by (cases s) simp
next
  case (Cons x xs)
  then show ?case by (cases s) (simp split: prod.splits option.splits)
qed

lemma procesar_resto_eq:
  "procesar_resto headers s reader =
     (case filas_gen (procesar_celda headers) s (map (map PyStr) (filas_de reader)) of
        (s', None) \<Rightarrow> (s', fallo_de reader) | (s', Some e) \<Rightarrow> (s', Some e))"
proof (induction reader arbitrary: s)
  case Fin
  then show ?case by (cases s) simp
next
  case (Falla e)
  then show ?case by (cases s) simp
next
  case (Item row reader)
  then show ?case
    by (cases s) (simp add: procesar_fila_datos_def split: prod.splits option.splits)
qed

lemma map_of_dict_de: "map_of (dict_de headers v) h = (if h \<in> set headers then Some v else None)"
proof -
  have "map_of (foldl (\<lambda>d col. AList.update col v d) d0 headers) h =
        (if h \<in> set headers then Some v else map_of d0 h)" for d0
    by (induction headers arbitrary: d0) (simp_all add: update_conv')
  then show ?thesis by (simp add: dict_de_def)
qed

lemma buscar_take:
  "MAX_FILAS_BUSQUEDA_HEADER \<le> n \<Longrightarrow> buscar_fila_encabezado (take n filas) = buscar_fila_encabezado filas"
proof -
  assume n: "MAX_FILAS_BUSQUEDA_HEADER \<le> n"
  then have "take MAX_FILAS_BUSQUEDA_HEADER (take n filas) = take MAX_FILAS_BUSQUEDA_HEADER filas"
    by (simp add: min_def)
  moreover have "0 < n" using n by (simp add: MAX_FILAS_BUSQUEDA_HEADER_def)
  then have "(take n filas = []) = (filas = [])" "hd (take n filas) = hd filas"
    by (simp_all add: hd_take)
  ultimately show ?thesis
    by (simp add: buscar_fila_encabezado_def split: prod.splits)
qed

lemma buscar_idx_cota:
  assumes "buscar_fila_encabezado filas = (idx, headers)" and "filas \<noteq> []"
  shows "idx < min MAX_FILAS_BUSQUEDA_HEADER (length filas)"
proof (cases "\<exists>x \<in> set (take MAX_FILAS_BUSQUEDA_HEADER filas). elegible x")
  case True
  from buscar_con_elegibles [OF True] obtain pre r post where
    "take MAX_FILAS_BUSQUEDA_HEADER filas = pre @ r # post" "buscar_fila_encabezado filas = (length pre, limpiar_encabezados r)"
    by blast
  then have "idx = length pre" "length pre < length (take MAX_FILAS_BUSQUEDA_HEADER filas)"
    using assms(1) by simp_all
  then show ?thesis by simp
next
  case False
  then have "idx = 0" using buscar_sin_elegibles [of filas] assms(1) by simp
  then show ?thesis using assms(2) by (simp add: MAX_FILAS_BUSQUEDA_HEADER_def)
qed

lemma drop_take_drop: "n \<le> m \<Longrightarrow> drop n (take m xs) @ drop m xs = drop n xs"
  by (metis append_take_drop_id drop_append drop_eq_Nil2 length_take min.cobounded2 diff_is_0_eq drop_0 min_def nat_le_linear take_all)

subsection \<open>Sample sets stay small\<close>

lemma set_update_cases:
  "(c, S) \<in> set (AList.update k v al) \<Longrightarrow> (c, S) \<in> set al \<or> (c, S) = (k, v)"
  by (induction al) (auto split: if_splits)

lemma muestras_ok_iff:
  "muestras_ok G vu \<longleftrightarrow>
   (\<forall>c S. (c, S) \<in> set vu \<longrightarrow> finite S \<and> card S \<le> MUESTRA_VALORES \<and> S \<subseteq> G)"
  by (auto simp: muestras_ok_def)

lemma muestras_ok_update_gen:
  assumes "muestras_ok G vu" and "finite S'" and "card S' \<le> MUESTRA_VALORES" and "S' \<subseteq> G"
  shows "muestras_ok G (AList.update col S' vu)"
  unfolding muestras_ok_iff
proof (intro allI impI)
  fix c S
  assume "(c, S) \<in> set (AList.update col S' vu)"
  then have "(c, S) \<in> set vu \<or> S = S'"
    using set_update_cases [of c S col S' vu] by auto
  then show "finite S \<and> card S \<le> MUESTRA_VALORES \<and> S \<subseteq> G"
    using assms by (auto simp: muestras_ok_iff)
qed

lemma muestras_ok_update:
  assumes "muestras_ok G vu" and "map_of vu col = Some S" and "card S < MUESTRA_VALORES" and "x \<in> G"
  shows "muestras_ok G (AList.update col (insert x S) vu)"
proof -
  have S: "finite S" "S \<subseteq> G"
    using assms(1) map_of_SomeD [OF assms(2)] by (auto simp: muestras_ok_def)
  then have "finite (insert x S)" "card (insert x S) \<le> MUESTRA_VALORES" "insert x S \<subseteq> G"
    using assms(3,4) by (simp_all add: card_insert_if)
  then show ?thesis
    using assms(1) by (intro muestras_ok_update_gen)
qed

lemma muestras_ok_dict_de: "muestras_ok G (dict_de headers {})"
proof -
  have "muestras_ok G (foldl (\<lambda>d col. AList.update col {} d) d0 headers)" if "muestras_ok G d0" for d0
    using that
  proof (induction headers arbitrary: d0)
    case Nil
    then show ?case by simp
  next
    case (Cons h headers)
    have "muestras_ok G (AList.update h {} d0)"
      using Cons.prems by (intro muestras_ok_update_gen) simp_all
    then show ?case using Cons.IH by simp
  qed
  moreover have "muestras_ok G []" by (simp add: muestras_ok_def)
  ultimately show ?thesis unfolding dict_de_def by blast
qed

lemma celda_gen_muestras:
  assumes "muestras_ok G (snd st)" and "ok val \<Longrightarrow> take 50 (py_str val) \<in> G"
  shows "muestras_ok G (snd (fst (celda_gen ok det headers n st (i, val))))"
proof (cases "i < length headers \<and> ok val")
  case False
  then show ?thesis using assms(1) by (cases st) (auto simp: celda_gen_def)
next
  case True
  obtain res vu where st: "st = (res, vu)" by (cases st)
  show ?thesis
  proof (cases "map_of vu (headers ! i)")
    case None
    then show ?thesis using assms(1) True by (simp add: st celda_gen_def)
  next
    case (Some S)
    have u: "muestras_ok G (AList.update (headers ! i) (insert (take 50 (py_str val)) S) vu)"
      if "card S < MUESTRA_VALORES"
      using muestras_ok_update [OF _ Some that] assms True by (simp add: st)
    show ?thesis
      using assms(1) True Some u
      by (auto simp: st celda_gen_def Let_def split: option.splits)
  qed
qed

lemma iterar_inv:
  assumes "P s" and "\<And>s x. P s \<Longrightarrow> x \<in> set xs \<Longrightarrow> P (fst (f s x))"
  shows "P (fst (iterar f s xs))"
  using assms
proof (induction xs arbitrary: s)
  case Nil
  then show ?case by simp
next
  case (Cons x xs)
  have "P (fst (f s x))" using Cons.prems by simp
  then show ?case
    using Cons.IH [of "fst (f s x)"] Cons.prems(2)
    by (cases "f s x") (auto split: option.splits)
qed

lemma filas_gen_muestras:
  assumes "muestras_ok G (snd st)"
    and "\<And>val. val \<in> celdas rows \<Longrightarrow> ok val \<Longrightarrow> take 50 (py_str val) \<in> G"
  shows "muestras_ok G (snd (fst (fst (filas_gen (celda_gen ok det headers) (st, k) rows))))"
  using assms
proof (induction rows arbitrary: st k)
  case Nil
  then show ?case by simp
next
  case (Cons row rows)
  let ?st1 = "fst (iterar (celda_gen ok det headers (k + 1)) st (enumerate 0 row))"
  have "muestras_ok G (snd ?st1)"
  proof (rule iterar_inv [where P = "\<lambda>s. muestras_ok G (snd s)"])
    show "muestras_ok G (snd st)" by (rule Cons.prems(1))
  next
    fix s :: "'a estado" and x
    assume s: "muestras_ok G (snd s)" and x: "x \<in> set (enumerate 0 row)"
    obtain i val where iv: "x = (i, val)" by (cases x)
    then have "val \<in> celdas (row # rows)"
      using x by (auto simp: celdas_def in_set_enumerate_eq)
    then show "muestras_ok G (snd (fst (celda_gen ok det headers (k + 1) s x)))"
      unfolding iv using s Cons.prems(2) by (intro celda_gen_muestras) auto
  qed
  moreover have "\<And>val. val \<in> celdas rows \<Longrightarrow> ok val \<Longrightarrow> take 50 (py_str val) \<in> G"
    using Cons.prems(2) by (auto simp: celdas_def)
  ultimately have "muestras_ok G (snd (fst (fst (filas_gen (celda_gen ok det headers) (?st1, k + 1) rows))))"
    by (rule Cons.IH)
  then show ?case
    using \<open>muestras_ok G (snd ?st1)\<close>
    by (cases "iterar (celda_gen ok det headers (k + 1)) st (enumerate 0 row)")
       (auto split: option.splits)
qed

lemma origen_length: "s \<in> origen ok V \<Longrightarrow> length s \<le> 50"
  by (auto simp: origen_def)

lemma muestras_ok_Nil: "muestras_ok G []"
  by (simp add: muestras_ok_def)

lemma filas_gen_muestras_origen:
  assumes "filas_gen (celda_gen ok det headers) ((res0, dict_de headers {}), 0) datos = (((res, vu), n), eo)"
  shows "muestras_ok (origen ok (celdas datos)) vu"
proof -
  have "muestras_ok (origen ok (celdas datos))
          (snd (fst (fst (filas_gen (celda_gen ok det headers) ((res0, dict_de headers {}), 0) datos))))"
    by (rule filas_gen_muestras) (auto simp: muestras_ok_dict_de origen_def)
  then show ?thesis by (simp add: assms)
qed


subsection \<open>The analyzers on the rows read\<close>

lemma vista_Some:
  "vista st col = Some (S, t) \<longleftrightarrow>
   map_of (snd st) col = Some S \<and> map_of (tipos_detectados (fst st)) col = Some t"
  by (auto simp: vista_def split: option.splits)

lemma filas_gen_columnas:
  assumes ok: "\<And>n. paso_ok headers (efecto_celda ok det headers n) (cel n)"
    and t0: "tipos_detectados res0 = dict_de headers ''texto''"
  shows "\<exists>res vu. filas_gen cel ((res0, dict_de headers {}), 0) datos = (((res, vu), length datos), None)
          \<and> res = res0\<lparr>tipos_detectados := tipos_detectados res\<rparr>
          \<and> (\<forall>col \<in> set headers.
                map_of vu col = Some (muestra_columna (valores_col ok headers col datos))
                \<and> map_of (tipos_detectados res) col =
                    Some (tipo_columna det (valores_col ok headers col (take 1000 datos))))"
proof -
  let ?st0 = "(res0, dict_de headers {})"
  have v0: "vista ?st0 col = (if col \<in> set headers then Some ({}, ''texto'') else None)" for col
    by (simp add: vista_def t0 map_of_dict_de)
  then have inv: "\<forall>h \<in> set headers. vista ?st0 h \<noteq> None" by simp
  from filas_gen_ok [of headers "\<lambda>n. efecto_celda ok det headers n" cel ?st0 0 datos, OF ok inv]
  obtain st' where r: "filas_gen cel (?st0, 0) datos = ((st', length datos), None)" "marco ?st0 st'"
    and v: "\<forall>col. vista st' col =
              map_option (\<lambda>p. foldl (\<lambda>p (n, row). foldl (efecto_celda ok det headers n col) p (enumerate 0 row)) p
                                (enumerate (Suc 0) datos)) (vista ?st0 col)"
    by auto
  obtain res vu where st': "st' = (res, vu)" by (cases st')
  have "vista st' col = Some (muestra_columna (valores_col ok headers col datos),
                              tipo_columna det (valores_col ok headers col (take 1000 datos)))"
    if "col \<in> set headers" for col
    using that v v0 [of col]
    by (simp add: efecto_filas foldl_paso_tipo muestra_columna_def valores_col_def)
  then have "\<forall>col \<in> set headers.
                map_of vu col = Some (muestra_columna (valores_col ok headers col datos))
                \<and> map_of (tipos_detectados res) col =
                    Some (tipo_columna det (valores_col ok headers col (take 1000 datos)))"
    by (simp add: vista_Some st')
  moreover have "res = res0\<lparr>tipos_detectados := tipos_detectados res\<rparr>"
    using r(2) by (simp add: marco_def st')
  ultimately show ?thesis using r(1) st' by blast
qed

lemma leer_primeras_rows:
  assumes "fallo_de reader = None \<or> MAX_FILAS_BUSQUEDA_HEADER < length (filas_de reader)"
  shows "\<exists>rest. leer_primeras 0 [] reader = Inr (take (Suc MAX_FILAS_BUSQUEDA_HEADER) (filas_de reader), rest)
           \<and> filas_de rest = drop (Suc MAX_FILAS_BUSQUEDA_HEADER) (filas_de reader)
           \<and> fallo_de rest = fallo_de reader"
proof (cases "length (filas_de reader) \<le> MAX_FILAS_BUSQUEDA_HEADER")
  case True
  then have "leer_primeras 0 [] reader = Inr (filas_de reader, Fin)" "fallo_de reader = None"
    using assms by (simp_all add: leer_primeras_eq)
  then show ?thesis using True by simp
next
  case False
  then have "leer_primeras 0 [] reader =
      Inr (take (Suc MAX_FILAS_BUSQUEDA_HEADER) (filas_de reader), saltar (Suc MAX_FILAS_BUSQUEDA_HEADER) reader)"
    by (simp add: leer_primeras_eq)
  then show ?thesis by (simp add: filas_de_saltar fallo_de_saltar)
qed

lemma analizar_csv_leido:
  assumes gs: "csv_getsize a = Inr tam" and ab: "csv_abrir a = None"
    and rows: "rows = filas_de (csv_reader a)" and ne: "rows \<noteq> []"
    and fin: "fallo_de (csv_reader a) = None \<or> MAX_FILAS_BUSQUEDA_HEADER < length rows"
    and hs: "headers = encabezados_csv rows" and ds: "datos = datos_csv rows"
  shows "\<exists>r. analizar_csv a = Inr r \<and> columnas r = headers
           \<and> fila_encabezado r = Some (indice_csv rows + 1)
           \<and> tipo r = ''CSV'' \<and> ruta r = csv_ruta a \<and> tamano_bytes r = tam
           \<and> error r = fallo_de (csv_reader a)
           \<and> (\<forall>col \<in> set headers. map_of (tipos_detectados r) col =
                  Some (tipo_columna (\<lambda>val. detectar_tipo (py_str val))
                          (valores_col muestreable_csv headers col (take 1000 datos))))
           \<and> (fallo_de (csv_reader a) = None \<longrightarrow>
                  total_filas r = length datos
                  \<and> (\<forall>col \<in> set headers. map_of (muestra_valores r) col =
                         Some (muestra_columna (valores_col muestreable_csv headers col datos))))
           \<and> (fallo_de (csv_reader a) \<noteq> None \<longrightarrow> total_filas r = 0 \<and> muestra_valores r = [])
           \<and> muestras_ok (origen muestreable_csv (celdas datos)) (muestra_valores r)"
proof -
  let ?M = "Suc MAX_FILAS_BUSQUEDA_HEADER"
  let ?idx = "indice_csv rows"
  let ?base = "\<lparr>columnas = [], total_filas = 0, muestra_valores = [],
                tipos_detectados = [], fila_encabezado = Some 1,
                tipo = ''CSV'', ruta = csv_ruta a, tamano_bytes = tam, error = None\<rparr>"
  let ?res1 = "?base\<lparr>fila_encabezado := Some (?idx + 1), columnas := headers,
                       tipos_detectados := dict_de headers ''texto''\<rparr>"
  let ?cel = "procesar_celda headers"
  from leer_primeras_rows [OF fin [unfolded rows]] obtain rest where
    lp: "leer_primeras 0 [] (csv_reader a) = Inr (take ?M rows, rest)"
    and rest: "filas_de rest = drop ?M rows" "fallo_de rest = fallo_de (csv_reader a)"
    unfolding rows by blast
  have bt: "buscar_fila_encabezado (map (map PyStr) (take ?M rows)) = (?idx, headers)"
    by (simp add: take_map [symmetric] buscar_take indice_csv_def hs encabezados_csv_def)
  have "?idx < min MAX_FILAS_BUSQUEDA_HEADER (length (map (map PyStr) rows))"
    using ne by (intro buscar_idx_cota [of _ _ headers]) (simp_all add: indice_csv_def hs encabezados_csv_def)
  then have idx: "?idx + 1 \<le> ?M" by simp
  let ?xs = "map (map PyStr) (drop (?idx + 1) (take ?M rows))"
  let ?ys = "map (map PyStr) (filas_de rest)"
  have datos: "datos = ?xs @ ?ys"
    using drop_take_drop [OF idx, of rows] by (simp add: ds datos_csv_def rest(1) map_append [symmetric] del: map_append)
  have pok: "\<And>n. paso_ok headers (efecto_celda muestreable_csv (\<lambda>val. detectar_tipo (py_str val)) headers n) (?cel n)"
    by (simp add: procesar_celda_gen celda_gen_ok)
  from filas_gen_columnas [of headers muestreable_csv "\<lambda>val. detectar_tipo (py_str val)" ?cel ?res1 datos, OF pok]
  obtain res vu where
    fg: "filas_gen ?cel ((?res1, dict_de headers {}), 0) datos = (((res, vu), length datos), None)"
    and fr: "res = ?res1\<lparr>tipos_detectados := tipos_detectados res\<rparr>"
    and cols: "\<forall>col \<in> set headers.
                map_of vu col = Some (muestra_columna (valores_col muestreable_csv headers col datos))
                \<and> map_of (tipos_detectados res) col =
                    Some (tipo_columna (\<lambda>val. detectar_tipo (py_str val))
                           (valores_col muestreable_csv headers col (take 1000 datos)))"
    by auto
  have "?cel = celda_gen muestreable_csv (\<lambda>val. detectar_tipo (py_str val)) headers"
    by (rule ext) (rule procesar_celda_gen)
  then have mo: "muestras_ok (origen muestreable_csv (celdas datos)) vu"
    using fg filas_gen_muestras_origen by metis
  from filas_gen_columnas [of headers muestreable_csv "\<lambda>val. detectar_tipo (py_str val)" ?cel ?res1 ?xs, OF pok]
  obtain res2 vu2 where
    fg2: "filas_gen ?cel ((?res1, dict_de headers {}), 0) ?xs = (((res2, vu2), length ?xs), None)"
    by auto
  have fg3: "filas_gen ?cel ((res2, vu2), length ?xs) ?ys = (((res, vu), length datos), None)"
    using fg fg2 by (simp add: datos filas_gen_append)
  have pp: "procesar_primeras headers ((?res1, dict_de headers {}), 0) ?xs = (((res2, vu2), length ?xs), None)"
    using fg2 by (simp add: procesar_primeras_gen)
  have pr: "procesar_resto headers ((res2, vu2), length ?xs) rest = (((res, vu), length datos), fallo_de (csv_reader a))"
    using fg3 by (simp add: procesar_resto_eq rest(2))
  have ne': "take ?M rows \<noteq> []" using ne by simp
  define r where "r = (case fallo_de (csv_reader a) of
                         None \<Rightarrow> res\<lparr>total_filas := length datos, muestra_valores := vu\<rparr>
                       | Some e \<Rightarrow> res\<lparr>error := Some e\<rparr>)"
  have an: "analizar_csv a = Inr r"
    unfolding analizar_csv_def r_def
    using pp pr ne
    by (simp add: gs ab lp bt Let_def del: procesar_primeras.simps split: option.splits)
  show ?thesis
  proof (cases "fallo_de (csv_reader a)")
    case None
    then have "r = res\<lparr>total_filas := length datos, muestra_valores := vu\<rparr>" by (simp add: r_def)
    then show ?thesis
      using an cols None mo by (subst (asm) fr) auto
  next
    case (Some e)
    then have "r = res\<lparr>error := Some e\<rparr>" by (simp add: r_def)
    then show ?thesis
      using an cols Some by (subst (asm) fr) (auto simp: muestras_ok_Nil)
  qed
qed

lemma leer_todas_eq:
  "leer_todas acc ws = (case fallo_de ws of Some e \<Rightarrow> Inl e | None \<Rightarrow> Inr (acc @ filas_de ws))"
  by (induction acc ws rule: leer_todas.induct) (simp_all split: option.splits)

lemma analizar_hoja_fallo: "fallo_de ws = Some e \<Longrightarrow> analizar_hoja (nombre_hoja, ws) = Inl e"
  by (simp add: analizar_hoja_def leer_todas_eq)

lemma analizar_hoja_vacia:
  "fallo_de ws = None \<Longrightarrow> filas_de ws = [] \<Longrightarrow>
   analizar_hoja (nombre_hoja, ws) =
     Inr \<lparr>columnas = [], total_filas = 0, muestra_valores = [], tipos_detectados = [],
          fila_encabezado = Some 1, nombre = nombre_hoja\<rparr>"
  by (simp add: analizar_hoja_def leer_todas_eq)

lemma analizar_hoja_leida:
  assumes rows: "rows = filas_de ws" and ne: "rows \<noteq> []" and fin: "fallo_de ws = None"
    and hs: "headers = encabezados_hoja rows" and ds: "datos = datos_hoja rows"
  shows "\<exists>h. analizar_hoja (nombre_hoja, ws) = Inr h \<and> columnas h = headers
           \<and> fila_encabezado h = Some (indice_hoja rows + 1) \<and> nombre h = nombre_hoja
           \<and> total_filas h = length datos
           \<and> (\<forall>col \<in> set headers.
                  map_of (tipos_detectados h) col =
                    Some (tipo_columna detectar_tipo_valor
                            (valores_col muestreable_excel headers col (take 1000 datos)))
                  \<and> map_of (muestra_valores h) col =
                    Some (muestra_columna (valores_col muestreable_excel headers col datos)))
           \<and> muestras_ok (origen muestreable_excel (celdas datos)) (muestra_valores h)"
proof -
  let ?idx = "indice_hoja rows"
  let ?base = "\<lparr>columnas = [], total_filas = 0, muestra_valores = [], tipos_detectados = [],
                fila_encabezado = Some 1, nombre = nombre_hoja\<rparr>"
  let ?h1 = "?base\<lparr>fila_encabezado := Some (?idx + 1), columnas := headers,
                     tipos_detectados := dict_de headers ''texto''\<rparr>"
  let ?cel = "procesar_celda_excel headers"
  have lt: "leer_todas [] ws = Inr rows"
    by (simp add: leer_todas_eq fin rows)
  have bt: "buscar_fila_encabezado (take MAX_FILAS_BUSQUEDA_HEADER rows) = (?idx, headers)"
    by (simp add: buscar_take indice_hoja_def hs encabezados_hoja_def)
  have ne': "take MAX_FILAS_BUSQUEDA_HEADER rows \<noteq> []"
    using ne by (simp add: MAX_FILAS_BUSQUEDA_HEADER_def)
  have pok: "\<And>n. paso_ok headers (efecto_celda muestreable_excel detectar_tipo_valor headers n) (?cel n)"
    by (simp add: procesar_celda_excel_gen celda_gen_ok muestreable_excel_def [abs_def])
  from filas_gen_columnas [of headers muestreable_excel detectar_tipo_valor ?cel ?h1 datos, OF pok]
  obtain res vu where
    fg: "filas_gen ?cel ((?h1, dict_de headers {}), 0) datos = (((res, vu), length datos), None)"
    and fr: "res = ?h1\<lparr>tipos_detectados := tipos_detectados res\<rparr>"
    and cols: "\<forall>col \<in> set headers.
                map_of vu col = Some (muestra_columna (valores_col muestreable_excel headers col datos))
                \<and> map_of (tipos_detectados res) col =
                    Some (tipo_columna detectar_tipo_valor
                           (valores_col muestreable_excel headers col (take 1000 datos)))"
    by auto
  have "?cel = celda_gen muestreable_excel detectar_tipo_valor headers"
    by (rule ext) (simp add: procesar_celda_excel_gen muestreable_excel_def [abs_def])
  then have mo: "muestras_ok (origen muestreable_excel (celdas datos)) vu"
    using fg filas_gen_muestras_origen by metis
  have pf: "procesar_filas_excel headers ((?h1, dict_de headers {}), 0) (drop (?idx + 1) rows) =
            (((res, vu), length datos), None)"
    using fg by (simp add: procesar_filas_excel_gen ds datos_hoja_def)
  have an: "analizar_hoja (nombre_hoja, ws) = Inr (res\<lparr>total_filas := length datos, muestra_valores := vu\<rparr>)"
    unfolding analizar_hoja_def
    using pf ne'
    by (simp add: lt bt Let_def del: procesar_filas_excel.simps)
  show ?thesis
    using an cols mo by (subst (asm) fr) auto
qed

subsection \<open>The recorded header row\<close>

lemma analizar_csv_casos:
  assumes "analizar_csv a = Inr r" and rows: "rows = filas_de (csv_reader a)"
  shows "columnas r = [] \<or>
         (rows \<noteq> [] \<and> csv_abrir a = None
          \<and> (fallo_de (csv_reader a) = None \<or> MAX_FILAS_BUSQUEDA_HEADER < length rows))"
proof -
  obtain tam where gs: "csv_getsize a = Inr tam"
    using assms(1) by (cases "csv_getsize a") (simp_all add: analizar_csv_def)
  show ?thesis
  proof (cases "csv_abrir a")
    case (Some e)
    then show ?thesis using assms(1) gs by (auto simp: analizar_csv_def)
  next
    case None
    show ?thesis
    proof (cases "fallo_de (csv_reader a) = None \<or> MAX_FILAS_BUSQUEDA_HEADER < length rows")
      case True
      from leer_primeras_rows [OF True [unfolded rows]] obtain rest where
        lp: "leer_primeras 0 [] (csv_reader a) = Inr (take (Suc MAX_FILAS_BUSQUEDA_HEADER) rows, rest)"
        unfolding rows by blast
      show ?thesis
      proof (cases "rows = []")
        case True
        then show ?thesis using assms(1) gs None lp by (auto simp: analizar_csv_def)
      next
        case False
        then show ?thesis using None True by simp
      qed
    next
      case False
      then obtain e where "fallo_de (csv_reader a) = Some e" "length rows \<le> MAX_FILAS_BUSQUEDA_HEADER"
        by auto
      then have "leer_primeras 0 [] (csv_reader a) = Inl e"
        by (simp add: leer_primeras_eq rows)
      then show ?thesis using assms(1) gs None by (auto simp: analizar_csv_def)
    qed
  qed
qed

lemma analizar_hoja_casos:
  assumes "analizar_hoja (nombre_hoja, ws) = Inr h"
  shows "fallo_de ws = None"
  using assms analizar_hoja_fallo [of ws _ nombre_hoja] by (cases "fallo_de ws") simp_all

lemma analizar_hoja_nombre:
  assumes "analizar_hoja (nombre_hoja, ws) = Inr h"
  shows "nombre h = nombre_hoja"
proof (cases "filas_de ws = []")
  case True
  then show ?thesis
    using assms analizar_hoja_casos [OF assms] by (auto simp: analizar_hoja_vacia)
next
  case False
  from analizar_hoja_leida [OF refl False analizar_hoja_casos [OF assms] refl refl, of nombre_hoja] assms
  show ?thesis by auto
qed

lemma paso_hoja_Inl: "analizar_hoja s = Inl e \<Longrightarrow> paso_hoja res s = (res, Some e)"
  by (simp add: paso_hoja_def)

lemma paso_hoja_Inr:
  "analizar_hoja s = Inr h \<Longrightarrow> paso_hoja res s = (res\<lparr>hojas := hojas res @ [h]\<rparr>, None)"
  by (simp add: paso_hoja_def)

lemma hojas_de_iterar:
  "iterar paso_hoja res sheets = (res', eo) \<Longrightarrow>
   \<forall>h \<in> set (hojas res'). h \<in> set (hojas res) \<or> (\<exists>s \<in> set sheets. analizar_hoja s = Inr h)"
proof (induction sheets arbitrary: res)
  case Nil
  then show ?case by simp
next
  case (Cons s sheets)
  show ?case
  proof (cases "analizar_hoja s")
    case (Inl e)
    then show ?thesis using Cons.prems by (auto simp: paso_hoja_Inl)
  next
    case (Inr h0)
    then have "iterar paso_hoja (res\<lparr>hojas := hojas res @ [h0]\<rparr>) sheets = (res', eo)"
      using Cons.prems by (simp add: paso_hoja_Inr)
    from Cons.IH [OF this] show ?thesis using Inr by auto
  qed
qed

lemma analizar_excel_hojas:
  assumes "analizar_excel a = Inr (Libro x)"
  shows "\<forall>h \<in> set (hojas x). \<exists>s \<in> set (xl_hojas a). analizar_hoja s = Inr h"
proof -
  obtain res' eo where it:
    "iterar paso_hoja \<lparr>ruta_excel = xl_ruta a, hojas = [], tamano_bytes_excel = projr (xl_getsize a),
                         error_excel = None\<rparr> (xl_hojas a) = (res', eo)"
    by (metis prod.collapse)
  have "hojas x = [] \<or> hojas x = hojas res'"
    using assms it
    by (auto simp: analizar_excel_def Let_def split: if_splits sum.splits option.splits)
  then show ?thesis using hojas_de_iterar [OF it] by auto
qed

text \<open>
  Claim C2, as amended. The header row recorded in a result is the 1-based number of the
  header row: for every CSV result and for every sheet of a workbook result, either the
  table has no columns, or \<^verbatim>\<open>fila_encabezado\<close> is \<open>idx + 1\<close> for a 0-based index \<open>idx\<close> below
  \<open>min 20 rowsSeen\<close>, so that the recorded number lies between 1 and \<open>min 20 rowsSeen\<close>.
\<close>

theorem fila_encabezado_en_rango:
  "(analizar_csv a = Inr r \<longrightarrow>
      columnas r = [] \<or>
      (\<exists>idx. fila_encabezado r = Some (idx + 1)
             \<and> idx < min MAX_FILAS_BUSQUEDA_HEADER (length (filas_de (csv_reader a)))))
   \<and> (analizar_excel b = Inr (Libro x) \<longrightarrow>
      (\<forall>h \<in> set (hojas x). \<exists>(nombre_hoja, ws) \<in> set (xl_hojas b).
          nombre h = nombre_hoja
          \<and> (columnas h = [] \<or>
               (\<exists>idx. fila_encabezado h = Some (idx + 1)
                      \<and> idx < min MAX_FILAS_BUSQUEDA_HEADER (length (filas_de ws))))))"
proof -
  have A: "columnas r = [] \<or>
      (\<exists>idx. fila_encabezado r = Some (idx + 1)
             \<and> idx < min MAX_FILAS_BUSQUEDA_HEADER (length (filas_de (csv_reader a))))"
    if an: "analizar_csv a = Inr r"
  proof (cases "columnas r = []")
    case False
    define rows where "rows = filas_de (csv_reader a)"
    from analizar_csv_casos [OF an rows_def] False
    have c: "rows \<noteq> []" "csv_abrir a = None"
      "fallo_de (csv_reader a) = None \<or> MAX_FILAS_BUSQUEDA_HEADER < length rows"
      by simp_all
    obtain tam where gs: "csv_getsize a = Inr tam"
      using an by (cases "csv_getsize a") (simp_all add: analizar_csv_def)
    from analizar_csv_leido [OF gs c(2) rows_def c(1) c(3) refl refl] an
    have "fila_encabezado r = Some (indice_csv rows + 1)" by auto
    moreover have "indice_csv rows < min MAX_FILAS_BUSQUEDA_HEADER (length (map (map PyStr) rows))"
      using c(1) by (intro buscar_idx_cota [of _ _ "encabezados_csv rows"])
        (simp_all add: indice_csv_def encabezados_csv_def)
    ultimately show ?thesis by (auto simp: rows_def)
  qed simp
  have B: "columnas h = [] \<or>
      (\<exists>idx. fila_encabezado h = Some (idx + 1)
             \<and> idx < min MAX_FILAS_BUSQUEDA_HEADER (length (filas_de ws)))"
    if an: "analizar_hoja (nombre_hoja, ws) = Inr h" for nombre_hoja ws h
  proof (cases "filas_de ws = []")
    case True
    then show ?thesis
      using an analizar_hoja_casos [OF an] by (auto simp: analizar_hoja_vacia)
  next
    case False
    from analizar_hoja_leida [OF refl False analizar_hoja_casos [OF an] refl refl, of nombre_hoja] an
    have "fila_encabezado h = Some (indice_hoja (filas_de ws) + 1)" by auto
    moreover have "indice_hoja (filas_de ws) < min MAX_FILAS_BUSQUEDA_HEADER (length (filas_de ws))"
      using False by (intro buscar_idx_cota [of _ _ "encabezados_hoja (filas_de ws)"])
        (simp_all add: indice_hoja_def encabezados_hoja_def)
    ultimately show ?thesis by auto
  qed
  have C: "\<exists>(nombre_hoja, ws) \<in> set (xl_hojas b).
          nombre h = nombre_hoja
          \<and> (columnas h = [] \<or>
               (\<exists>idx. fila_encabezado h = Some (idx + 1)
                      \<and> idx < min MAX_FILAS_BUSQUEDA_HEADER (length (filas_de ws))))"
    if an: "analizar_excel b = Inr (Libro x)" and h: "h \<in> set (hojas x)" for h
  proof -
    from analizar_excel_hojas [OF an] h obtain s where s: "s \<in> set (xl_hojas b)" "analizar_hoja s = Inr h"
      by blast
    obtain nombre_hoja ws where nw: "s = (nombre_hoja, ws)" by (cases s)
    show ?thesis
      using s B [of nombre_hoja ws h] analizar_hoja_nombre [of nombre_hoja ws h]
      by (auto simp: nw intro!: bexI [of _ s])
  qed
  show ?thesis using A C by blast
qed

lemma buscar_escenario_A:
  "buscar_fila_encabezado (map (map PyStr) filas_escenario_A) = (2, [''id'', ''name'', ''amount''])"
  unfolding filas_escenario_A_def by code_simp

lemma celdas_escenario_A:
  "detectar_tipo ''1'' = ''entero''" "detectar_tipo ''Alice'' = ''texto''"
  "detectar_tipo ''100.5'' = ''decimal''"
  "strip ''1'' = ''1''" "strip ''Alice'' = ''Alice''" "strip ''100.5'' = ''100.5''"
  by code_simp+

lemma analizar_csv_escenario_A: "analizar_csv csv_escenario_A = Inr resultado_escenario_A"
  using buscar_escenario_A
  by (simp add: analizar_csv_def csv_escenario_A_def resultado_escenario_A_def filas_escenario_A_def
      MAX_FILAS_BUSQUEDA_HEADER_def MUESTRA_VALORES_def dict_de_def procesar_fila_datos_def
      procesar_celda_def celdas_escenario_A Let_def)

lemma buscar_una_fila:
  "buscar_fila_encabezado [[PyStr ''id'', PyStr ''name'']] = (0, [''id'', ''name''])"
  by code_simp

lemma analizar_csv_una_fila: "analizar_csv csv_una_fila = Inr resultado_una_fila"
  using buscar_una_fila
  by (simp add: analizar_csv_def csv_una_fila_def resultado_una_fila_def
      MAX_FILAS_BUSQUEDA_HEADER_def dict_de_def Let_def)

lemma buscar_libro_ejemplo:
  "buscar_fila_encabezado [[PyStr ''Informe'', PyNone], [PyStr ''id'', PyStr ''name''],
      [PyObj ''int'' True ''1'', PyStr []], [PyObj ''float'' True ''2.5'', PyNone]] = (1, [''id'', ''name''])"
  by code_simp

lemma analizar_excel_libro_ejemplo: "analizar_excel libro_ejemplo = Inr (Libro resultado_libro_ejemplo)"
  using buscar_libro_ejemplo
  by (simp add: analizar_excel_def libro_ejemplo_def resultado_libro_ejemplo_def paso_hoja_def
      analizar_hoja_def MAX_FILAS_BUSQUEDA_HEADER_def MUESTRA_VALORES_def dict_de_def
      procesar_celda_excel_def detectar_tipo_valor_def Let_def insert_commute)

theorem fila_encabezado_en_rango_witness:
  "analizar_csv csv_escenario_A = Inr resultado_escenario_A
   \<and> columnas resultado_escenario_A \<noteq> []
   \<and> fila_encabezado resultado_escenario_A = Some (2 + 1)
   \<and> 2 < min MAX_FILAS_BUSQUEDA_HEADER (length (filas_de (csv_reader csv_escenario_A)))
   \<and> analizar_excel libro_ejemplo = Inr (Libro resultado_libro_ejemplo)
   \<and> fila_encabezado (hojas resultado_libro_ejemplo ! 0) = Some (1 + 1)
   \<and> 1 < min MAX_FILAS_BUSQUEDA_HEADER (length (filas_de (snd (xl_hojas libro_ejemplo ! 0))))"
proof -
  note inst = fila_encabezado_en_rango [of csv_escenario_A resultado_escenario_A libro_ejemplo
      resultado_libro_ejemplo]
  have c: "columnas resultado_escenario_A \<noteq> []" "fila_encabezado resultado_escenario_A = Some (2 + 1)"
    by (simp_all add: resultado_escenario_A_def)
  from inst analizar_csv_escenario_A c(1) obtain idx where
    "fila_encabezado resultado_escenario_A = Some (idx + 1)"
    "idx < min MAX_FILAS_BUSQUEDA_HEADER (length (filas_de (csv_reader csv_escenario_A)))"
    by blast
  then have r1: "2 < min MAX_FILAS_BUSQUEDA_HEADER (length (filas_de (csv_reader csv_escenario_A)))"
    using c(2) by simp
  let ?h = "hojas resultado_libro_ejemplo ! 0"
  have h: "?h \<in> set (hojas resultado_libro_ejemplo)" "columnas ?h \<noteq> []" "nombre ?h = ''Datos''"
    "fila_encabezado ?h = Some (1 + 1)"
    by (simp_all add: resultado_libro_ejemplo_def)
  from inst analizar_excel_libro_ejemplo h(1) obtain nombre_hoja ws where
    s: "(nombre_hoja, ws) \<in> set (xl_hojas libro_ejemplo)" "nombre ?h = nombre_hoja"
       "columnas ?h = [] \<or> (\<exists>idx. fila_encabezado ?h = Some (idx + 1)
           \<and> idx < min MAX_FILAS_BUSQUEDA_HEADER (length (filas_de ws)))"
    by blast
  have "ws = snd (xl_hojas libro_ejemplo ! 0)"
    using s(1,2) h(3) by (auto simp: libro_ejemplo_def)
  then have r2: "1 < min MAX_FILAS_BUSQUEDA_HEADER (length (filas_de (snd (xl_hojas libro_ejemplo ! 0))))"
    using s(3) h(2,4) by auto
  show ?thesis
    using analizar_csv_escenario_A analizar_excel_libro_ejemplo c h(4) r1 r2 by simp
qed

theorem fila_encabezado_en_rango_counterexample:
  "analizar_csv csv_una_fila = Inr resultado_una_fila
   \<and> columnas resultado_una_fila \<noteq> []
   \<and> fila_encabezado resultado_una_fila = Some 1
   \<and> \<not> 1 \<le> min 20 (length (filas_de (csv_reader csv_una_fila))) - 1"
  by (simp add: analizar_csv_una_fila) (simp add: resultado_una_fila_def csv_una_fila_def)

text \<open>
  Claim C1, as amended. On the rows of scenario A the header is found at the 0-based index
  2, which the result records as header row number 3 (one more than the index); the
  columns are id, name, amount, with the types entero, texto and decimal.
\<close>

theorem escenario_A_resultado:
  "analizar_csv csv_escenario_A = Inr resultado_escenario_A
   \<and> indice_csv filas_escenario_A = 2
   \<and> fila_encabezado resultado_escenario_A = Some (indice_csv filas_escenario_A + 1)
   \<and> columnas resultado_escenario_A = [''id'', ''name'', ''amount'']
   \<and> tipos_detectados resultado_escenario_A =
       [(''id'', ''entero''), (''name'', ''texto''), (''amount'', ''decimal'')]"
  by (simp add: analizar_csv_escenario_A indice_csv_def buscar_escenario_A)
     (simp add: resultado_escenario_A_def)

theorem escenario_A_counterexample:
  "analizar_csv csv_escenario_A = Inr resultado_escenario_A
   \<and> fila_encabezado resultado_escenario_A = Some 3
   \<and> fila_encabezado resultado_escenario_A \<noteq> Some 2"
  by (simp add: analizar_csv_escenario_A) (simp add: resultado_escenario_A_def)

subsection \<open>Types and samples per column\<close>

lemma tipo_columna_Nil: "tipo_columna det [] = ''texto''"
  by (simp add: tipo_columna_def)

lemma tipo_columna_append:
  "tipo_columna det (xs @ ys) =
     (if tipo_columna det xs \<noteq> ''texto'' then tipo_columna det xs else tipo_columna det ys)"
  by (induction xs) (simp_all add: tipo_columna_def)

lemma filas_de_de_lista: "filas_de (de_lista xs Fin) = xs"
  by (induction xs) simp_all

lemma fallo_de_de_lista: "fallo_de (de_lista xs r) = fallo_de r"
  by (induction xs) simp_all

lemma filas_de_de_lista_Falla: "filas_de (de_lista xs (Falla e)) = xs"
  by (induction xs) simp_all

text \<open>
  Claim C3. For a CSV file read to its end, and for a spreadsheet sheet, the analysis
  returns a table in which every column's type is \<open>texto\<close> unless some value of the column
  in the first 1000 data rows is classified otherwise, and then it is the class of the first
  such value; every data row is counted in \<^verbatim>\<open>total_filas\<close>, and the samples are drawn from the
  values of all data rows, those after row 1000 included. The type starts at \<open>texto\<close> (no
  values), and once a prefix of the values has fixed a type other than \<open>texto\<close>, no later
  value changes it.
\<close>

theorem tipos_y_muestras_por_columna:
  "(csv_getsize a = Inr tam \<and> csv_abrir a = None \<and> fallo_de (csv_reader a) = None
      \<and> filas_de (csv_reader a) = rows \<and> rows \<noteq> [] \<longrightarrow>
      (\<exists>r. analizar_csv a = Inr r \<and> error r = None \<and> columnas r = encabezados_csv rows
          \<and> total_filas r = length (datos_csv rows)
          \<and> (\<forall>col \<in> set (encabezados_csv rows).
                map_of (tipos_detectados r) col =
                  Some (tipo_columna (\<lambda>val. detectar_tipo (py_str val))
                          (valores_col muestreable_csv (encabezados_csv rows) col (take 1000 (datos_csv rows))))
                \<and> map_of (muestra_valores r) col =
                  Some (muestra_columna
                          (valores_col muestreable_csv (encabezados_csv rows) col (datos_csv rows))))))
   \<and> (fallo_de ws = None \<and> filas_de ws = filas \<and> filas \<noteq> [] \<longrightarrow>
      (\<exists>h. analizar_hoja (nombre_hoja, ws) = Inr h \<and> columnas h = encabezados_hoja filas
          \<and> total_filas h = length (datos_hoja filas)
          \<and> (\<forall>col \<in> set (encabezados_hoja filas).
                map_of (tipos_detectados h) col =
                  Some (tipo_columna detectar_tipo_valor
                          (valores_col muestreable_excel (encabezados_hoja filas) col (take 1000 (datos_hoja filas))))
                \<and> map_of (muestra_valores h) col =
                  Some (muestra_columna
                          (valores_col muestreable_excel (encabezados_hoja filas) col (datos_hoja filas))))))
   \<and> tipo_columna det [] = ''texto''
   \<and> (tipo_columna det xs \<noteq> ''texto'' \<longrightarrow> tipo_columna det (xs @ ys) = tipo_columna det xs)
   \<and> (tipo_columna det xs = ''texto'' \<longrightarrow> tipo_columna det (xs @ ys) = tipo_columna det ys)"
proof -
  have A: "\<exists>r. analizar_csv a = Inr r \<and> error r = None \<and> columnas r = encabezados_csv rows
          \<and> total_filas r = length (datos_csv rows)
          \<and> (\<forall>col \<in> set (encabezados_csv rows).
                map_of (tipos_detectados r) col =
                  Some (tipo_columna (\<lambda>val. detectar_tipo (py_str val))
                          (valores_col muestreable_csv (encabezados_csv rows) col (take 1000 (datos_csv rows))))
                \<and> map_of (muestra_valores r) col =
                  Some (muestra_columna
                          (valores_col muestreable_csv (encabezados_csv rows) col (datos_csv rows))))"
    if h: "csv_getsize a = Inr tam \<and> csv_abrir a = None \<and> fallo_de (csv_reader a) = None
      \<and> filas_de (csv_reader a) = rows \<and> rows \<noteq> []"
  proof -
    from h have 1: "csv_getsize a = Inr tam" and 2: "csv_abrir a = None"
      and 3: "rows = filas_de (csv_reader a)" and 4: "rows \<noteq> []"
      and 5: "fallo_de (csv_reader a) = None \<or> MAX_FILAS_BUSQUEDA_HEADER < length rows"
      and 6: "fallo_de (csv_reader a) = None"
      by auto
    from analizar_csv_leido [OF 1 2 3 4 5 refl refl] 6 show ?thesis
      by auto
  qed
  have B: "\<exists>h. analizar_hoja (nombre_hoja, ws) = Inr h \<and> columnas h = encabezados_hoja filas
          \<and> total_filas h = length (datos_hoja filas)
          \<and> (\<forall>col \<in> set (encabezados_hoja filas).
                map_of (tipos_detectados h) col =
                  Some (tipo_columna detectar_tipo_valor
                          (valores_col muestreable_excel (encabezados_hoja filas) col (take 1000 (datos_hoja filas))))
                \<and> map_of (muestra_valores h) col =
                  Some (muestra_columna
                          (valores_col muestreable_excel (encabezados_hoja filas) col (datos_hoja filas))))"
    if h: "fallo_de ws = None \<and> filas_de ws = filas \<and> filas \<noteq> []"
  proof -
    from h have 1: "filas = filas_de ws" and 2: "filas \<noteq> []" and 3: "fallo_de ws = None"
      by auto
    from analizar_hoja_leida [OF 1 2 3 refl refl, of nombre_hoja] show ?thesis
      by auto
  qed
  show ?thesis
    using A B by (simp add: tipo_columna_Nil tipo_columna_append)
qed

lemma buscar_primera:
  assumes "elegible fila" and "\<forall>x \<in> set (take 19 resto). \<not> elegible x"
  shows "buscar_fila_encabezado (fila # resto) = (0, limpiar_encabezados fila)"
proof -
  have t: "take MAX_FILAS_BUSQUEDA_HEADER (fila # resto) = fila # take 19 resto"
    by (simp add: MAX_FILAS_BUSQUEDA_HEADER_def)
  then have "\<exists>x \<in> set (take MAX_FILAS_BUSQUEDA_HEADER (fila # resto)). elegible x"
    using assms(1) by simp
  from buscar_con_elegibles [OF this] obtain pre r post where
    h: "take MAX_FILAS_BUSQUEDA_HEADER (fila # resto) = pre @ r # post"
       "buscar_fila_encabezado (fila # resto) = (length pre, limpiar_encabezados r)" "elegible r"
    by blast
  have "pre = []"
  proof (rule ccontr)
    assume "pre \<noteq> []"
    then obtain p pre' where "pre = p # pre'" by (cases pre) auto
    then have "r \<in> set (take 19 resto)" using h(1) t by auto
    then show False using assms(2) h(3) by blast
  qed
  then show ?thesis using h(1,2) t by simp
qed

lemma tipo_columna_replicate: "det v = ''texto'' \<Longrightarrow> tipo_columna det (replicate n v) = ''texto''"
  by (induction n) (simp_all add: tipo_columna_def)

lemma paso_muestra_idem: "paso_muestra (paso_muestra S x) x = paso_muestra S x"
  by (simp add: paso_muestra_def insert_absorb)

lemma foldl_paso_muestra_replicate:
  "foldl paso_muestra S (replicate n x) = (if n = 0 then S else paso_muestra S x)"
  by (induction n arbitrary: S) (simp_all add: paso_muestra_idem)

lemma filas_largas_encabezado:
  "buscar_fila_encabezado (map (map PyStr) filas_largas) = (0, [''id'', ''name''])"
proof -
  have e: "elegible [PyStr ''id'', PyStr ''name'']" "\<not> elegible [PyStr ''x'', PyStr []]"
    "limpiar_encabezados [PyStr ''id'', PyStr ''name''] = [''id'', ''name'']"
    by code_simp+
  have "\<forall>x \<in> set (take 19 (map (map PyStr) (replicate 1000 [''x'', ''''] @ [[''7'', ''3.5'']]))). \<not> elegible x"
    using e(2) by simp
  from buscar_primera [OF e(1) this] show ?thesis
    by (simp add: filas_largas_def e(3))
qed

lemma filas_largas_valores:
  "valores_col muestreable_csv [''id'', ''name''] ''id'' (datos_csv filas_largas) =
     replicate 1000 (PyStr ''x'') @ [PyStr ''7'']"
  "valores_col muestreable_csv [''id'', ''name''] ''id'' (take 1000 (datos_csv filas_largas)) =
     replicate 1000 (PyStr ''x'')"
  "valores_col muestreable_csv [''id'', ''name''] ''name'' (datos_csv filas_largas) = [PyStr ''3.5'']"
  "valores_col muestreable_csv [''id'', ''name''] ''name'' (take 1000 (datos_csv filas_largas)) = []"
  "length (datos_csv filas_largas) = 1001"
proof -
  have s: "strip ''x'' = ''x''" "strip ''7'' = ''7''" "strip ''3.5'' = ''3.5''" by code_simp+
  have d: "datos_csv filas_largas = replicate 1000 [PyStr ''x'', PyStr []] @ [[PyStr ''7'', PyStr ''3.5'']]"
    by (simp add: datos_csv_def indice_csv_def filas_largas_encabezado) (simp add: filas_largas_def)
  have v1: "valores_columna [''id'', ''name''] ''id'' [PyStr ''x'', PyStr []] = [PyStr ''x'']"
    and v2: "valores_columna [''id'', ''name''] ''name'' [PyStr ''x'', PyStr []] = [PyStr []]"
    by (simp_all add: valores_columna_def)
  have v3: "valores_columna [''id'', ''name''] ''id'' [PyStr ''7'', PyStr ''3.5''] = [PyStr ''7'']"
    and v4: "valores_columna [''id'', ''name''] ''name'' [PyStr ''7'', PyStr ''3.5''] = [PyStr ''3.5'']"
    by (simp_all add: valores_columna_def)
  have m: "muestreable_csv (PyStr ''x'')" "muestreable_csv (PyStr ''7'')"
    "muestreable_csv (PyStr ''3.5'')" "\<not> muestreable_csv (PyStr [])"
    by (simp_all add: muestreable_csv_def s)
  have fr: "filter P (replicate n x) = (if P x then replicate n x else [])" for P n and x :: pyval
    by (induction n) simp_all
  have cr: "concat (replicate n [v]) = replicate n v" for n and v :: pyval
    by (induction n) simp_all
  show "valores_col muestreable_csv [''id'', ''name''] ''id'' (datos_csv filas_largas) =
     replicate 1000 (PyStr ''x'') @ [PyStr ''7'']"
    by (simp add: d valores_col_def v1 cr m fr v3)
  show "valores_col muestreable_csv [''id'', ''name''] ''id'' (take 1000 (datos_csv filas_largas)) =
     replicate 1000 (PyStr ''x'')"
    by (simp add: d valores_col_def v1 cr m fr)
  show "valores_col muestreable_csv [''id'', ''name''] ''name'' (datos_csv filas_largas) = [PyStr ''3.5'']"
    by (simp add: d valores_col_def v2 cr m fr v4)
  show "valores_col muestreable_csv [''id'', ''name''] ''name'' (take 1000 (datos_csv filas_largas)) = []"
    by (simp add: d valores_col_def v2 cr m fr)
  show "length (datos_csv filas_largas) = 1001"
    by (simp add: d)
qed

theorem tipos_y_muestras_por_columna_witness:
  "\<not> isl (analizar_csv csv_largo)
   \<and> total_filas (projr (analizar_csv csv_largo)) = 1001
   \<and> map_of (tipos_detectados (projr (analizar_csv csv_largo))) ''id'' = Some ''texto''
   \<and> map_of (muestra_valores (projr (analizar_csv csv_largo))) ''id'' = Some {''x'', ''7''}
   \<and> map_of (tipos_detectados (projr (analizar_csv csv_largo))) ''name'' = Some ''texto''
   \<and> map_of (muestra_valores (projr (analizar_csv csv_largo))) ''name'' = Some {''3.5''}
   \<and> detectar_tipo ''7'' = ''entero'' \<and> detectar_tipo ''3.5'' = ''decimal''
   \<and> \<not> isl (analizar_hoja (xl_hojas libro_ejemplo ! 0))
   \<and> total_filas (projr (analizar_hoja (xl_hojas libro_ejemplo ! 0))) = 2
   \<and> map_of (tipos_detectados (projr (analizar_hoja (xl_hojas libro_ejemplo ! 0)))) ''id'' = Some ''entero''"
proof -
  let ?ws = "de_lista [[PyStr ''Informe'', PyNone], [PyStr ''id'', PyStr ''name''],
                       [PyObj ''int'' True ''1'', PyStr []], [PyObj ''float'' True ''2.5'', PyNone]] Fin"
  let ?filas = "[[PyStr ''Informe'', PyNone], [PyStr ''id'', PyStr ''name''],
                       [PyObj ''int'' True ''1'', PyStr []], [PyObj ''float'' True ''2.5'', PyNone]]"
  note inst = tipos_y_muestras_por_columna [of csv_largo 9000 filas_largas ?ws ?filas "''Datos''"
      "\<lambda>val. detectar_tipo (py_str val)" "[PyStr ''x'']" "[PyStr ''7'']"]
  have d: "detectar_tipo ''x'' = ''texto''" "detectar_tipo ''7'' = ''entero''"
    "detectar_tipo ''3.5'' = ''decimal''"
    by code_simp+
  have h1: "csv_getsize csv_largo = Inr 9000 \<and> csv_abrir csv_largo = None
      \<and> fallo_de (csv_reader csv_largo) = None
      \<and> filas_de (csv_reader csv_largo) = filas_largas \<and> filas_largas \<noteq> []"
    by (simp add: csv_largo_def filas_de_de_lista fallo_de_de_lista) (simp add: filas_largas_def)
  have hs: "encabezados_csv filas_largas = [''id'', ''name'']"
    by (simp add: encabezados_csv_def filas_largas_encabezado)
  from inst h1 obtain r where r: "analizar_csv csv_largo = Inr r"
    "total_filas r = length (datos_csv filas_largas)"
    "\<forall>col \<in> set (encabezados_csv filas_largas).
        map_of (tipos_detectados r) col =
          Some (tipo_columna (\<lambda>val. detectar_tipo (py_str val))
                  (valores_col muestreable_csv (encabezados_csv filas_largas) col (take 1000 (datos_csv filas_largas))))
        \<and> map_of (muestra_valores r) col =
          Some (muestra_columna
                  (valores_col muestreable_csv (encabezados_csv filas_largas) col (datos_csv filas_largas)))"
    by blast
  have c1: "total_filas r = 1001"
    "map_of (tipos_detectados r) ''id'' = Some ''texto''"
    "map_of (muestra_valores r) ''id'' = Some {''x'', ''7''}"
    "map_of (tipos_detectados r) ''name'' = Some ''texto''"
    "map_of (muestra_valores r) ''name'' = Some {''3.5''}"
    using r(2,3)
    by (simp_all add: hs filas_largas_valores tipo_columna_replicate d tipo_columna_Nil
        muestra_columna_def foldl_paso_muestra_replicate paso_muestra_def MUESTRA_VALORES_def
        insert_commute)
  have h2: "fallo_de ?ws = None \<and> filas_de ?ws = ?filas \<and> ?filas \<noteq> []"
    by simp
  have e2: "encabezados_hoja ?filas = [''id'', ''name'']" "datos_hoja ?filas =
      [[PyObj ''int'' True ''1'', PyStr []], [PyObj ''float'' True ''2.5'', PyNone]]"
    by (simp_all add: encabezados_hoja_def datos_hoja_def indice_hoja_def buscar_libro_ejemplo)
  from inst h2 obtain h where h: "analizar_hoja (''Datos'', ?ws) = Inr h"
    "total_filas h = length (datos_hoja ?filas)"
    "\<forall>col \<in> set (encabezados_hoja ?filas).
        map_of (tipos_detectados h) col =
          Some (tipo_columna detectar_tipo_valor
                  (valores_col muestreable_excel (encabezados_hoja ?filas) col (take 1000 (datos_hoja ?filas))))
        \<and> map_of (muestra_valores h) col =
          Some (muestra_columna
                  (valores_col muestreable_excel (encabezados_hoja ?filas) col (datos_hoja ?filas)))"
    by blast
  have c2: "total_filas h = 2" "map_of (tipos_detectados h) ''id'' = Some ''entero''"
    using h(2,3)
    by (simp_all add: e2 valores_col_def valores_columna_def muestreable_excel_def
        tipo_columna_def detectar_tipo_valor_def)
  have x: "xl_hojas libro_ejemplo ! 0 = (''Datos'', ?ws)"
    by (simp add: libro_ejemplo_def)
  show ?thesis
    using r(1) c1 h(1) c2 d by (simp add: x)
qed

lemma tipo_columna_replicate_tipo:
  "0 < n \<Longrightarrow> det v \<noteq> ''texto'' \<Longrightarrow> tipo_columna det (replicate n v) = det v"
  by (cases n) (simp_all add: tipo_columna_def)

text \<open>
  Claim C10. When the CSV reader raises after it has yielded more than 20 rows (so the
  header has been detected and the exception arrives inside the streaming loop), the result
  holds the exception in \<^verbatim>\<open>error\<close>, \<^verbatim>\<open>total_filas\<close> is still 0 and \<^verbatim>\<open>muestra_valores\<close> still empty,
  while the columns, the header row and the types promoted by the rows read before the
  failure are kept.
\<close>

theorem fallo_en_flujo_csv:
  "csv_getsize a = Inr tam \<and> csv_abrir a = None \<and> fallo_de (csv_reader a) = Some e
     \<and> filas_de (csv_reader a) = rows \<and> MAX_FILAS_BUSQUEDA_HEADER < length rows \<longrightarrow>
   (\<exists>r. analizar_csv a = Inr r \<and> error r = Some e \<and> total_filas r = 0 \<and> muestra_valores r = []
       \<and> columnas r = encabezados_csv rows \<and> fila_encabezado r = Some (indice_csv rows + 1)
       \<and> (\<forall>col \<in> set (encabezados_csv rows).
             map_of (tipos_detectados r) col =
               Some (tipo_columna (\<lambda>val. detectar_tipo (py_str val))
                       (valores_col muestreable_csv (encabezados_csv rows) col
                          (take 1000 (datos_csv rows))))))"
proof
  assume h: "csv_getsize a = Inr tam \<and> csv_abrir a = None \<and> fallo_de (csv_reader a) = Some e
     \<and> filas_de (csv_reader a) = rows \<and> MAX_FILAS_BUSQUEDA_HEADER < length rows"
  then have 1: "csv_getsize a = Inr tam" and 2: "csv_abrir a = None"
    and 3: "rows = filas_de (csv_reader a)" and 4: "rows \<noteq> []"
    and 5: "fallo_de (csv_reader a) = None \<or> MAX_FILAS_BUSQUEDA_HEADER < length rows"
    and 6: "fallo_de (csv_reader a) = Some e"
    by auto
  from analizar_csv_leido [OF 1 2 3 4 5 refl refl] 6
  show "\<exists>r. analizar_csv a = Inr r \<and> error r = Some e \<and> total_filas r = 0 \<and> muestra_valores r = []
       \<and> columnas r = encabezados_csv rows \<and> fila_encabezado r = Some (indice_csv rows + 1)
       \<and> (\<forall>col \<in> set (encabezados_csv rows).
             map_of (tipos_detectados r) col =
               Some (tipo_columna (\<lambda>val. detectar_tipo (py_str val))
                       (valores_col muestreable_csv (encabezados_csv rows) col
                          (take 1000 (datos_csv rows)))))"
    by auto
qed

lemma filas_rotas_encabezado:
  "buscar_fila_encabezado (map (map PyStr) filas_rotas) = (0, [''id'', ''name''])"
proof -
  have e: "elegible [PyStr ''id'', PyStr ''name'']" "\<not> elegible [PyStr ''7'', PyStr []]"
    "limpiar_encabezados [PyStr ''id'', PyStr ''name''] = [''id'', ''name'']"
    by code_simp+
  have "\<forall>x \<in> set (take 19 (map (map PyStr) (replicate 20 [''7'', '''']))). \<not> elegible x"
    using e(2) by simp
  from buscar_primera [OF e(1) this] show ?thesis
    by (simp add: filas_rotas_def e(3))
qed

theorem fallo_en_flujo_csv_witness:
  "csv_getsize csv_roto = Inr 300 \<and> csv_abrir csv_roto = None
   \<and> fallo_de (csv_reader csv_roto) = Some (Fallo ''lectura interrumpida'')
   \<and> length (filas_de (csv_reader csv_roto)) = 21
   \<and> \<not> isl (analizar_csv csv_roto)
   \<and> error (projr (analizar_csv csv_roto)) = Some (Fallo ''lectura interrumpida'')
   \<and> total_filas (projr (analizar_csv csv_roto)) = 0
   \<and> muestra_valores (projr (analizar_csv csv_roto)) = []
   \<and> columnas (projr (analizar_csv csv_roto)) = [''id'', ''name'']
   \<and> fila_encabezado (projr (analizar_csv csv_roto)) = Some 1
   \<and> map_of (tipos_detectados (projr (analizar_csv csv_roto))) ''id'' = Some ''entero''
   \<and> map_of (tipos_detectados (projr (analizar_csv csv_roto))) ''name'' = Some ''texto''"
proof -
  have h: "csv_getsize csv_roto = Inr 300 \<and> csv_abrir csv_roto = None
     \<and> fallo_de (csv_reader csv_roto) = Some (Fallo ''lectura interrumpida'')
     \<and> filas_de (csv_reader csv_roto) = filas_rotas \<and> MAX_FILAS_BUSQUEDA_HEADER < length filas_rotas"
    by (simp add: csv_roto_def filas_de_de_lista_Falla fallo_de_de_lista)
       (simp add: filas_rotas_def MAX_FILAS_BUSQUEDA_HEADER_def)
  have hs: "encabezados_csv filas_rotas = [''id'', ''name'']" "indice_csv filas_rotas = 0"
    by (simp_all add: encabezados_csv_def indice_csv_def filas_rotas_encabezado)
  have d: "datos_csv filas_rotas = replicate 20 [PyStr ''7'', PyStr []]"
    by (simp add: datos_csv_def hs) (simp add: filas_rotas_def)
  have s: "strip ''7'' = ''7''" "detectar_tipo ''7'' = ''entero''" by code_simp+
  have m: "muestreable_csv (PyStr ''7'')" "\<not> muestreable_csv (PyStr [])"
    by (simp_all add: muestreable_csv_def s)
  have cr: "concat (replicate n [v]) = replicate n v" for n and v :: pyval
    by (induction n) simp_all
  have v: "valores_col muestreable_csv [''id'', ''name''] ''id'' (take 1000 (datos_csv filas_rotas)) =
             replicate 20 (PyStr ''7'')"
    "valores_col muestreable_csv [''id'', ''name''] ''name'' (take 1000 (datos_csv filas_rotas)) = []"
    by (simp_all add: d valores_col_def valores_columna_def cr m)
  from fallo_en_flujo_csv [of csv_roto 300 "Fallo ''lectura interrumpida''" filas_rotas] h
  obtain r where r: "analizar_csv csv_roto = Inr r" "error r = Some (Fallo ''lectura interrumpida'')"
    "total_filas r = 0" "muestra_valores r = []" "columnas r = encabezados_csv filas_rotas"
    "fila_encabezado r = Some (indice_csv filas_rotas + 1)"
    "\<forall>col \<in> set (encabezados_csv filas_rotas).
             map_of (tipos_detectados r) col =
               Some (tipo_columna (\<lambda>val. detectar_tipo (py_str val))
                       (valores_col muestreable_csv (encabezados_csv filas_rotas) col
                          (take 1000 (datos_csv filas_rotas))))"
    by blast
  have t: "map_of (tipos_detectados r) ''id'' = Some ''entero''"
    "map_of (tipos_detectados r) ''name'' = Some ''texto''"
    using r(7) by (simp_all add: hs v tipo_columna_replicate_tipo s tipo_columna_Nil)
  show ?thesis
    using h r t by (simp add: hs) (simp add: filas_rotas_def)
qed

subsection \<open>Where the samples come from\<close>

lemma muestras_ok_mono: "muestras_ok G vu \<Longrightarrow> G \<subseteq> G' \<Longrightarrow> muestras_ok G' vu"
  unfolding muestras_ok_iff by blast

lemma origen_mono: "V \<subseteq> V' \<Longrightarrow> origen ok V \<subseteq> origen ok V'"
  by (auto simp: origen_def)

lemma celdas_drop: "celdas (drop n rows) \<subseteq> celdas rows"
  by (auto simp: celdas_def dest: in_set_dropD)

lemma celdas_map_drop: "celdas (map f (drop n rows)) \<subseteq> celdas (map f rows)"
  by (auto simp: celdas_def dest: in_set_dropD)

lemma analizar_csv_sin_muestras:
  assumes "analizar_csv a = Inr r" and rows: "rows = filas_de (csv_reader a)"
  shows "muestra_valores r = [] \<or>
         (rows \<noteq> [] \<and> csv_abrir a = None
          \<and> (fallo_de (csv_reader a) = None \<or> MAX_FILAS_BUSQUEDA_HEADER < length rows))"
proof -
  obtain tam where gs: "csv_getsize a = Inr tam"
    using assms(1) by (cases "csv_getsize a") (simp_all add: analizar_csv_def)
  show ?thesis
  proof (cases "csv_abrir a")
    case (Some e)
    then show ?thesis using assms(1) gs by (auto simp: analizar_csv_def)
  next
    case None
    show ?thesis
    proof (cases "fallo_de (csv_reader a) = None \<or> MAX_FILAS_BUSQUEDA_HEADER < length rows")
      case True
      from leer_primeras_rows [OF True [unfolded rows]] obtain rest where
        lp: "leer_primeras 0 [] (csv_reader a) = Inr (take (Suc MAX_FILAS_BUSQUEDA_HEADER) rows, rest)"
        unfolding rows by blast
      show ?thesis
      proof (cases "rows = []")
        case True
        then show ?thesis using assms(1) gs None lp by (auto simp: analizar_csv_def)
      next
        case False
        then show ?thesis using None True by simp
      qed
    next
      case False
      then obtain e where "fallo_de (csv_reader a) = Some e" "length rows \<le> MAX_FILAS_BUSQUEDA_HEADER"
        by auto
      then have "leer_primeras 0 [] (csv_reader a) = Inl e"
        by (simp add: leer_primeras_eq rows)
      then show ?thesis using assms(1) gs None by (auto simp: analizar_csv_def)
    qed
  qed
qed

lemma analizar_csv_muestras:
  assumes an: "analizar_csv a = Inr r"
  shows "muestras_ok (origen muestreable_csv (celdas (map (map PyStr) (filas_de (csv_reader a)))))
           (muestra_valores r)"
proof (cases "muestra_valores r = []")
  case True
  then show ?thesis by (simp add: muestras_ok_Nil)
next
  case False
  define rows where "rows = filas_de (csv_reader a)"
  from analizar_csv_sin_muestras [OF an rows_def] False
  have c: "rows \<noteq> []" "csv_abrir a = None"
    "fallo_de (csv_reader a) = None \<or> MAX_FILAS_BUSQUEDA_HEADER < length rows"
    by simp_all
  obtain tam where gs: "csv_getsize a = Inr tam"
    using an by (cases "csv_getsize a") (simp_all add: analizar_csv_def)
  from analizar_csv_leido [OF gs c(2) rows_def c(1) c(3) refl refl] an
  have "muestras_ok (origen muestreable_csv (celdas (datos_csv rows))) (muestra_valores r)"
    by auto
  moreover have "celdas (datos_csv rows) \<subseteq> celdas (map (map PyStr) rows)"
    unfolding datos_csv_def by (rule celdas_map_drop)
  ultimately show ?thesis
    unfolding rows_def by (meson muestras_ok_mono origen_mono)
qed

lemma analizar_hoja_muestras:
  assumes an: "analizar_hoja (nombre_hoja, ws) = Inr h"
  shows "muestras_ok (origen muestreable_excel (celdas (filas_de ws))) (muestra_valores h)"
proof (cases "filas_de ws = []")
  case True
  then show ?thesis
    using an analizar_hoja_casos [OF an] by (auto simp: analizar_hoja_vacia muestras_ok_Nil)
next
  case False
  from analizar_hoja_leida [OF refl False analizar_hoja_casos [OF an] refl refl, of nombre_hoja] an
  have "muestras_ok (origen muestreable_excel (celdas (datos_hoja (filas_de ws)))) (muestra_valores h)"
    by auto
  moreover have "celdas (datos_hoja (filas_de ws)) \<subseteq> celdas (filas_de ws)"
    unfolding datos_hoja_def by (rule celdas_drop)
  ultimately show ?thesis
    by (meson muestras_ok_mono origen_mono)
qed

lemma muestrear_valores_inv:
  assumes "muestras_ok G vu"
    and "\<And>val. Inr val \<in> set xs \<Longrightarrow> val \<noteq> PyNone \<Longrightarrow> take 50 (py_str val) \<in> G"
  shows "muestras_ok G (fst (muestrear_valores col vu xs))"
  using assms
proof (induction xs arbitrary: vu)
  case Nil
  then show ?case by simp
next
  case (Cons x xs)
  show ?case
  proof (cases "map_of vu col")
    case None
    then show ?thesis using Cons.prems(1) by simp
  next
    case (Some S)
    show ?thesis
    proof (cases "card S \<ge> MUESTRA_VALORES")
      case True
      then show ?thesis using Cons.prems(1) Some by simp
    next
      case False
      show ?thesis
      proof (cases x)
        case (Inl e)
        then show ?thesis using Cons.prems(1) Some False by simp
      next
        case (Inr val)
        show ?thesis
        proof (cases "val = PyNone")
          case True
          then show ?thesis
            using Cons.IH [OF Cons.prems(1)] Cons.prems(2) Some False Inr by simp
        next
          case nn: False
          have "take 50 (py_str val) \<in> G" using Cons.prems(2) Inr nn by simp
          then have "muestras_ok G (AList.update col (insert (take 50 (py_str val)) S) vu)"
            using muestras_ok_update [OF Cons.prems(1) Some] False by simp
          from Cons.IH [OF this] Cons.prems(2) show ?thesis
            using Some False Inr nn by simp
        qed
      qed
    qed
  qed
qed

lemma muestrear_columna_inv:
  assumes "muestras_ok G vu"
    and "\<And>column val. batch col = Inr column \<Longrightarrow> Inr val \<in> set (take (MUESTRA_VALORES * 2) column)
           \<Longrightarrow> val \<noteq> PyNone \<Longrightarrow> take 50 (py_str val) \<in> G"
  shows "muestras_ok G (fst (muestrear_columna batch vu col))"
proof (cases "batch col")
  case (Inl e)
  then show ?thesis using assms(1) by (auto simp: muestrear_columna_def split: option.splits)
next
  case (Inr column)
  have "muestras_ok G (fst (muestrear_valores col vu (take (MUESTRA_VALORES * 2) column)))"
    using assms(1) assms(2) [OF Inr] by (rule muestrear_valores_inv)
  then show ?thesis
    using assms(1) Inr by (auto simp: muestrear_columna_def min_def split: option.splits)
qed

lemma analizar_parquet_muestras:
  assumes an: "analizar_parquet p = Inr (Tabular t)"
  shows "muestras_ok (origen muestreable_excel (valores_primer_lote p)) (muestra_valores t)"
proof (cases "muestra_valores t = []")
  case True
  then show ?thesis by (simp add: muestras_ok_Nil)
next
  case False
  let ?G = "origen muestreable_excel (valores_primer_lote p)"
  let ?cols = "map fst (pq_schema p)"
  have mv: "muestra_valores t = muestrear (pq_iter_batches p (min 1000 CHUNK_SIZE)) ?cols (dict_de ?cols {})"
    using an False
    by (auto simp: analizar_parquet_def Let_def split: if_splits sum.splits option.splits)
  have "muestras_ok ?G (muestrear (pq_iter_batches p (min 1000 CHUNK_SIZE)) ?cols (dict_de ?cols {}))"
  proof (cases "pq_iter_batches p (min 1000 CHUNK_SIZE)")
    case (Item batch batches)
    have "muestras_ok ?G (fst (iterar (muestrear_columna batch) (dict_de ?cols {}) ?cols))"
    proof (rule iterar_inv [where P = "muestras_ok ?G"])
      show "muestras_ok ?G (dict_de ?cols {})" by (rule muestras_ok_dict_de)
    next
      fix vu col
      assume vu: "muestras_ok ?G vu" and col: "col \<in> set ?cols"
      show "muestras_ok ?G (fst (muestrear_columna batch vu col))"
      proof (rule muestrear_columna_inv [OF vu])
        fix column val
        assume "batch col = Inr column" "Inr val \<in> set (take (MUESTRA_VALORES * 2) column)" "val \<noteq> PyNone"
        then have "val \<in> valores_primer_lote p"
          using col Item unfolding valores_primer_lote_def by force
        then show "take 50 (py_str val) \<in> ?G"
          using \<open>val \<noteq> PyNone\<close> by (auto simp: origen_def muestreable_excel_def)
      qed
    qed
    then show ?thesis by (simp add: muestrear_def Item)
  qed (simp_all add: muestrear_def muestras_ok_dict_de)
  then show ?thesis by (simp add: mv)
qed

text \<open>
  Claim C4, as amended. In the result of every analyzer (a CSV file, each sheet of a
  workbook, a Parquet file) every sample set is finite with at most 5 strings, each of at
  most 50 characters, and each the 50-character prefix of the rendering of a value of the
  table that the guard of that analyzer lets through: a CSV cell that is not empty and not
  blank, a spreadsheet or Parquet value that is not null. The spreadsheet and Parquet
  analyzers test for null only, and the empty string does occur among their samples: there
  are a workbook and a Parquet file in whose results a sample set holds it.
\<close>

theorem muestras_acotadas:
  "(analizar_csv a = Inr r \<longrightarrow>
      muestras_ok (origen muestreable_csv (celdas (map (map PyStr) (filas_de (csv_reader a)))))
        (muestra_valores r))
   \<and> (analizar_excel b = Inr (Libro x) \<longrightarrow>
      (\<forall>h \<in> set (hojas x). \<exists>(nombre_hoja, ws) \<in> set (xl_hojas b).
          nombre h = nombre_hoja
          \<and> muestras_ok (origen muestreable_excel (celdas (filas_de ws))) (muestra_valores h)))
   \<and> (analizar_parquet p = Inr (Tabular t) \<longrightarrow>
      muestras_ok (origen muestreable_excel (valores_primer_lote p)) (muestra_valores t))
   \<and> (\<forall>s \<in> origen ok V. length s \<le> 50 \<and> (\<exists>val \<in> V. ok val \<and> s = take 50 (py_str val)))
   \<and> (muestreable_csv val \<longrightarrow> val \<noteq> PyNone \<and> val \<noteq> PyStr [] \<and> strip (py_str val) \<noteq> [])
   \<and> (muestreable_excel val \<longleftrightarrow> val \<noteq> PyNone)
   \<and> (\<exists>b' x'. analizar_excel b' = Inr (Libro x')
        \<and> (\<exists>h \<in> set (hojas x'). \<exists>(col, vistos) \<in> set (muestra_valores h). [] \<in> vistos))
   \<and> (\<exists>p' t'. analizar_parquet p' = Inr (Tabular t')
        \<and> (\<exists>(col, vistos) \<in> set (muestra_valores t'). [] \<in> vistos))"
proof -
  have B: "\<exists>(nombre_hoja, ws) \<in> set (xl_hojas b).
          nombre h = nombre_hoja
          \<and> muestras_ok (origen muestreable_excel (celdas (filas_de ws))) (muestra_valores h)"
    if an: "analizar_excel b = Inr (Libro x)" and h: "h \<in> set (hojas x)" for h
  proof -
    from analizar_excel_hojas [OF an] h obtain s where s: "s \<in> set (xl_hojas b)" "analizar_hoja s = Inr h"
      by blast
    obtain nombre_hoja ws where nw: "s = (nombre_hoja, ws)" by (cases s)
    show ?thesis
      using s analizar_hoja_muestras [of nombre_hoja ws h] analizar_hoja_nombre [of nombre_hoja ws h]
      by (auto simp: nw intro!: bexI [of _ s])
  qed
  have D: "\<forall>s \<in> origen ok V. length s \<le> 50 \<and> (\<exists>val \<in> V. ok val \<and> s = take 50 (py_str val))"
    by (auto simp: origen_def)
  have E: "muestreable_csv val \<longrightarrow> val \<noteq> PyNone \<and> val \<noteq> PyStr [] \<and> strip (py_str val) \<noteq> []"
    by (auto simp: muestreable_csv_def)
  have F: "\<exists>b' x'. analizar_excel b' = Inr (Libro x')
        \<and> (\<exists>h \<in> set (hojas x'). \<exists>(col, vistos) \<in> set (muestra_valores h). [] \<in> vistos)"
    using analizar_excel_libro_ejemplo
    by (intro exI [of _ libro_ejemplo] exI [of _ resultado_libro_ejemplo])
       (simp add: resultado_libro_ejemplo_def)
  have G: "\<exists>p' t'. analizar_parquet p' = Inr (Tabular t')
        \<and> (\<exists>(col, vistos) \<in> set (muestra_valores t'). [] \<in> vistos)"
    using analizar_parquet_ejemplo
    by (intro exI [of _ parquet_ejemplo] exI [of _ resultado_parquet_ejemplo])
       (simp add: resultado_parquet_ejemplo_def)
  have H: "muestreable_excel val \<longleftrightarrow> val \<noteq> PyNone"
    by (simp add: muestreable_excel_def)
  have A: "analizar_csv a = Inr r \<longrightarrow>
      muestras_ok (origen muestreable_csv (celdas (map (map PyStr) (filas_de (csv_reader a)))))
        (muestra_valores r)"
    using analizar_csv_muestras by blast
  have C: "analizar_parquet p = Inr (Tabular t) \<longrightarrow>
      muestras_ok (origen muestreable_excel (valores_primer_lote p)) (muestra_valores t)"
    using analizar_parquet_muestras by blast
  have B': "analizar_excel b = Inr (Libro x) \<longrightarrow>
      (\<forall>h \<in> set (hojas x). \<exists>(nombre_hoja, ws) \<in> set (xl_hojas b).
          nombre h = nombre_hoja
          \<and> muestras_ok (origen muestreable_excel (celdas (filas_de ws))) (muestra_valores h))"
    using B by blast
  from A B' C D E H F G show ?thesis
    by (intro conjI)
qed

theorem muestras_acotadas_witness:
  "analizar_csv csv_escenario_A = Inr resultado_escenario_A
   \<and> muestras_ok (origen muestreable_csv (celdas (map (map PyStr) (filas_de (csv_reader csv_escenario_A)))))
         (muestra_valores resultado_escenario_A)
   \<and> analizar_excel libro_ejemplo = Inr (Libro resultado_libro_ejemplo)
   \<and> muestras_ok (origen muestreable_excel (celdas (filas_de (snd (xl_hojas libro_ejemplo ! 0)))))
         (muestra_valores (hojas resultado_libro_ejemplo ! 0))
   \<and> analizar_parquet parquet_ejemplo = Inr (Tabular resultado_parquet_ejemplo)
   \<and> muestras_ok (origen muestreable_excel (valores_primer_lote parquet_ejemplo))
         (muestra_valores resultado_parquet_ejemplo)
   \<and> muestreable_csv (PyStr ''Alice'') \<and> strip ''Alice'' \<noteq> []
   \<and> muestreable_excel (PyStr [])"
proof -
  note inst = muestras_acotadas [of csv_escenario_A resultado_escenario_A libro_ejemplo
      resultado_libro_ejemplo parquet_ejemplo resultado_parquet_ejemplo muestreable_excel
      "{PyStr ''Ana''}" "PyStr ''Alice''"]
  have m: "muestreable_csv (PyStr ''Alice'')"
    by (simp add: muestreable_csv_def celdas_escenario_A)
  have r1: "muestras_ok (origen muestreable_csv (celdas (map (map PyStr) (filas_de (csv_reader csv_escenario_A)))))
         (muestra_valores resultado_escenario_A)"
    using inst analizar_csv_escenario_A by blast
  let ?h = "hojas resultado_libro_ejemplo ! 0"
  have h: "?h \<in> set (hojas resultado_libro_ejemplo)" "nombre ?h = ''Datos''"
    by (simp_all add: resultado_libro_ejemplo_def)
  from inst analizar_excel_libro_ejemplo h(1) obtain nombre_hoja ws where
    s: "(nombre_hoja, ws) \<in> set (xl_hojas libro_ejemplo)" "nombre ?h = nombre_hoja"
       "muestras_ok (origen muestreable_excel (celdas (filas_de ws))) (muestra_valores ?h)"
    by blast
  have "ws = snd (xl_hojas libro_ejemplo ! 0)"
    using s(1,2) h(2) by (auto simp: libro_ejemplo_def)
  then have r2: "muestras_ok (origen muestreable_excel (celdas (filas_de (snd (xl_hojas libro_ejemplo ! 0)))))
         (muestra_valores ?h)"
    using s(3) by simp
  have r3: "muestras_ok (origen muestreable_excel (valores_primer_lote parquet_ejemplo))
         (muestra_valores resultado_parquet_ejemplo)"
    using inst analizar_parquet_ejemplo by blast
  have r4: "strip ''Alice'' \<noteq> []"
    using inst m by simp
  show ?thesis
    using analizar_csv_escenario_A analizar_excel_libro_ejemplo analizar_parquet_ejemplo r1 r2 r3 r4 m
    by (simp add: muestreable_excel_def)
qed

theorem muestras_acotadas_counterexample:
  "analizar_parquet parquet_ejemplo = Inr (Tabular resultado_parquet_ejemplo)
   \<and> map_of (muestra_valores resultado_parquet_ejemplo) ''nombre'' =
       Some {''Noa'', ''Eva'', ''Luis'', [], ''Ana''}
   \<and> \<not> muestras_ok (origen no_vacia (valores_primer_lote parquet_ejemplo))
         (muestra_valores resultado_parquet_ejemplo)"
proof -
  have "[] \<notin> origen no_vacia (valores_primer_lote parquet_ejemplo)"
    by (auto simp: origen_def valores_primer_lote_def parquet_ejemplo_def lote_ejemplo_def
        no_vacia_def MUESTRA_VALORES_def CHUNK_SIZE_def)
  moreover have "(''nombre'', {''Noa'', ''Eva'', ''Luis'', [], ''Ana''}) \<in>
      set (muestra_valores resultado_parquet_ejemplo)"
    by (simp add: resultado_parquet_ejemplo_def)
  ultimately have "\<not> muestras_ok (origen no_vacia (valores_primer_lote parquet_ejemplo))
         (muestra_valores resultado_parquet_ejemplo)"
    unfolding muestras_ok_iff by blast
  then show ?thesis
    by (simp add: analizar_parquet_ejemplo) (simp add: resultado_parquet_ejemplo_def)
qed

subsection \<open>Failures at the file boundary\<close>

lemma analizar_archivos_map: "analizar_archivos archivos = map informe_de archivos"
proof -
  have "foldl paso_archivo acc archivos = acc @ map informe_de archivos" for acc
    by (induction archivos arbitrary: acc)
       (simp_all add: paso_archivo_def informe_de_def split: sum.splits)
  then show ?thesis by (simp add: analizar_archivos_def)
qed

lemma falla_csv_error:
  assumes "falla_csv a"
  shows "error_de (informe_de (ArchivoCSV a)) \<noteq> None"
proof (cases "csv_getsize a")
  case (Inl e)
  then show ?thesis by (simp add: informe_de_def analizar_csv_def)
next
  case (Inr tam)
  show ?thesis
  proof (cases "csv_abrir a")
    case (Some e)
    then show ?thesis using Inr by (simp add: informe_de_def analizar_csv_def)
  next
    case None
    then obtain e where e: "fallo_de (csv_reader a) = Some e"
      using assms Inr by (auto simp: falla_csv_def)
    show ?thesis
    proof (cases "length (filas_de (csv_reader a)) \<le> MAX_FILAS_BUSQUEDA_HEADER")
      case True
      then have "leer_primeras 0 [] (csv_reader a) = Inl e"
        using e by (simp add: leer_primeras_eq)
      then show ?thesis using Inr None by (simp add: informe_de_def analizar_csv_def)
    next
      case False
      then have 1: "filas_de (csv_reader a) \<noteq> []"
        and 2: "fallo_de (csv_reader a) = None \<or> MAX_FILAS_BUSQUEDA_HEADER < length (filas_de (csv_reader a))"
        by auto
      from analizar_csv_leido [OF Inr None refl 1 2 refl refl] e
      obtain r where "analizar_csv a = Inr r" "error r = Some e" by auto
      then show ?thesis by (simp add: informe_de_def)
    qed
  qed
qed

lemma analizar_hoja_total:
  assumes "fallo_de ws = None"
  shows "\<exists>h. analizar_hoja (nombre_hoja, ws) = Inr h"
proof (cases "filas_de ws = []")
  case True
  then show ?thesis using assms by (simp add: analizar_hoja_vacia)
next
  case False
  from analizar_hoja_leida [OF refl False assms refl refl, of nombre_hoja] show ?thesis by blast
qed

lemma iterar_paso_hoja_falla:
  assumes "list_ex (\<lambda>(nombre_hoja, ws). fallo_de ws \<noteq> None) sheets"
  shows "snd (iterar paso_hoja res sheets) \<noteq> None"
  using assms
proof (induction sheets arbitrary: res)
  case Nil
  then show ?case by simp
next
  case (Cons s sheets)
  obtain nombre_hoja ws where s: "s = (nombre_hoja, ws)" by (cases s)
  show ?case
  proof (cases "fallo_de ws")
    case (Some e)
    then have "analizar_hoja s = Inl e" by (simp add: s analizar_hoja_fallo)
    then show ?thesis by (simp add: paso_hoja_Inl)
  next
    case None
    then obtain h where h: "analizar_hoja s = Inr h"
      using analizar_hoja_total [of ws nombre_hoja] by (auto simp: s)
    have "list_ex (\<lambda>(nombre_hoja, ws). fallo_de ws \<noteq> None) sheets"
      using Cons.prems None by (simp add: s)
    from Cons.IH [OF this] show ?thesis by (simp add: paso_hoja_Inr [OF h])
  qed
qed

lemma falla_excel_error:
  assumes "falla_excel a"
  shows "error_de (informe_de (ArchivoExcel a)) \<noteq> None"
proof (cases "xl_openpyxl a")
  case False
  then show ?thesis by (simp add: informe_de_def analizar_excel_def)
next
  case True
  show ?thesis
  proof (cases "xl_getsize a")
    case (Inl e)
    then show ?thesis using True by (simp add: informe_de_def analizar_excel_def)
  next
    case (Inr tam)
    show ?thesis
    proof (cases "xl_load a")
      case (Some e)
      then show ?thesis using True Inr by (simp add: informe_de_def analizar_excel_def)
    next
      case None
      let ?res = "\<lparr>ruta_excel = xl_ruta a, hojas = [], tamano_bytes_excel = tam, error_excel = None\<rparr>"
      obtain res1 eo where it: "iterar paso_hoja ?res (xl_hojas a) = (res1, eo)"
        by (metis prod.collapse)
      show ?thesis
      proof (cases eo)
        case (Some e)
        then show ?thesis
          using True Inr None it by (simp add: informe_de_def analizar_excel_def)
      next
        case eoN: None
        then have "\<not> list_ex (\<lambda>(nombre_hoja, ws). fallo_de ws \<noteq> None) (xl_hojas a)"
          using iterar_paso_hoja_falla [of "xl_hojas a" ?res] it by auto
        then obtain e where "xl_close a = Some e"
          using assms True Inr None by (auto simp: falla_excel_def)
        then show ?thesis
          using True Inr None it eoN by (simp add: informe_de_def analizar_excel_def)
      qed
    qed
  qed
qed

lemma falla_parquet_error:
  "falla_parquet a \<Longrightarrow> error_de (informe_de (ArchivoParquet a)) \<noteq> None"
  by (auto simp: falla_parquet_def informe_de_def analizar_parquet_def Let_def
      split: sum.splits option.splits)

lemma parquet_sin_error:
  "\<not> falla_parquet a \<Longrightarrow> error_de (informe_de (ArchivoParquet a)) = None"
  by (auto simp: falla_parquet_def informe_de_def analizar_parquet_def Let_def
      split: sum.splits option.splits)

text \<open>
  Claim C9, as amended. The batch loop ends with one dictionary per file, each depending on
  its own file only, whether or not other files failed: no exception leaves the loop. A
  file that meets a failure outside the Parquet sampling (a missing \<^verbatim>\<open>openpyxl\<close> or
  \<^verbatim>\<open>pyarrow\<close>, \<^verbatim>\<open>os.path.getsize\<close>, opening or loading, a CSV reader or sheet iterator that
  raises, closing the workbook) gets a dictionary with \<^verbatim>\<open>error\<close> set. A Parquet file that
  opens gets a dictionary without \<^verbatim>\<open>error\<close>, whatever happens while its values are sampled:
  those failures are swallowed.
\<close>

theorem fallos_por_archivo:
  "analizar_archivos archivos = map informe_de archivos
   \<and> (falla_registrada a \<longrightarrow> error_de (informe_de a) \<noteq> None)
   \<and> (\<not> falla_parquet p \<longrightarrow> error_de (informe_de (ArchivoParquet p)) = None)"
proof -
  have "error_de (informe_de a) \<noteq> None" if "falla_registrada a"
    using that falla_csv_error falla_excel_error falla_parquet_error by (cases a) simp_all
  then show ?thesis
    using analizar_archivos_map parquet_sin_error by blast
qed

lemma informe_parquet_ilegible:
  "informe_de (ArchivoParquet parquet_ilegible) =
     Tabular \<lparr>columnas = [''nombre''], total_filas = 3, muestra_valores = [(''nombre'', {})],
              tipos_detectados = [(''nombre'', ''texto'')], fila_encabezado = None,
              tipo = ''Parquet'', ruta = ''roto.parquet'', tamano_bytes = 512, error = None\<rparr>"
  by (simp add: informe_de_def analizar_parquet_def parquet_ilegible_def Let_def traducir_ejemplos
      muestrear_def dict_de_def)

theorem fallos_por_archivo_witness:
  "falla_registrada (ArchivoCSV csv_roto)
   \<and> error_de (informe_de (ArchivoCSV csv_roto)) \<noteq> None
   \<and> \<not> falla_parquet parquet_ilegible
   \<and> error_de (informe_de (ArchivoParquet parquet_ilegible)) = None
   \<and> length (analizar_archivos
        [ArchivoCSV csv_roto, ArchivoExcel libro_ejemplo, ArchivoParquet parquet_ilegible]) = 3
   \<and> analizar_archivos
        [ArchivoCSV csv_roto, ArchivoExcel libro_ejemplo, ArchivoParquet parquet_ilegible] ! 1 =
       Libro resultado_libro_ejemplo"
proof -
  note inst = fallos_por_archivo [of
      "[ArchivoCSV csv_roto, ArchivoExcel libro_ejemplo, ArchivoParquet parquet_ilegible]"
      "ArchivoCSV csv_roto" parquet_ilegible]
  have h1: "falla_registrada (ArchivoCSV csv_roto)"
    by (simp add: falla_csv_def csv_roto_def fallo_de_de_lista)
  have h2: "\<not> falla_parquet parquet_ilegible"
    by (simp add: falla_parquet_def parquet_ilegible_def)
  have "informe_de (ArchivoExcel libro_ejemplo) = Libro resultado_libro_ejemplo"
    by (simp add: informe_de_def analizar_excel_libro_ejemplo)
  then show ?thesis
    using inst h1 h2 by simp
qed

theorem fallos_por_archivo_counterexample:
  "falla (ArchivoParquet parquet_ilegible)
   \<and> error_de (informe_de (ArchivoParquet parquet_ilegible)) = None"
  by (simp add: informe_parquet_ilegible)
     (simp add: falla_muestreo_def parquet_ilegible_def)

end
